(* ===== verification/Go_Prelude.thy ===== *)
theory Go_Prelude
  imports Main "HOL-Library.Word" "HOL-Library.AList" "HOL-Library.Multiset"
    "HOL-Library.Char_ord" "HOL-Library.List_Lexorder"
begin

text \<open>
  Shared vocabulary of the development: the parts of the Go language and of its standard
  library that the modelled packages use, each with the lemmas the components need.

  \<^item> strings are byte strings (\<open>char list\<close>), as Go's are: \<open>len\<close> counts bytes;
  \<^item> maps are association lists whose order is the iteration order; a lookup is
    \<open>map_of\<close>, a store is \<open>AList.update\<close>, \<open>delete\<close> is \<open>AList.delete\<close>;
    facts that hold for every list therefore hold for every iteration order;
  \<^item> \<open>map[string]any\<close> and the values inside it are \<open>jval\<close>; a type assertion is a
    case distinction;
  \<^item> errors are values of \<open>gerr\<close> with the wrap chain that \<open>errors.Is\<close> and
    \<open>errors.As\<close> walk; a fallible function returns \<open>gerr + 'a\<close>;
  \<^item> \<open>sort.Slice\<close> is the insertion sort the Go runtime runs on short slices; the facts
    used of it are that it permutes and sorts.
\<close>

named_theorems go_defs "definitions that the component proofs unfold together"
named_theorems go_split "case splits of result and option types"

declare sum.splits [go_split] option.splits [go_split] prod.splits [go_split] if_splits [go_split]

section \<open>Strings\<close>

definition has_prefix :: "string \<Rightarrow> string \<Rightarrow> bool" where
  "has_prefix s p = (take (length p) s = p)"

definition has_suffix :: "string \<Rightarrow> string \<Rightarrow> bool" where
  "has_suffix s p = (length p \<le> length s \<and> drop (length s - length p) s = p)"

fun contains :: "string \<Rightarrow> string \<Rightarrow> bool" where
  "contains [] sub = (sub = [])"
| "contains (c # cs) sub = (has_prefix (c # cs) sub \<or> contains cs sub)"

definition trim_prefix :: "string \<Rightarrow> string \<Rightarrow> string" where
  "trim_prefix s p = (if has_prefix s p then drop (length p) s else s)"

definition trim_suffix :: "string \<Rightarrow> string \<Rightarrow> string" where
  "trim_suffix s p = (if has_suffix s p then take (length s - length p) s else s)"

lemma has_prefix_iff: "has_prefix s p \<longleftrightarrow> (\<exists>t. s = p @ t)"
  unfolding has_prefix_def by (metis append_eq_conv_conj append_take_drop_id)

lemma has_prefix_append [simp]: "has_prefix (p @ t) p"
  by (simp add: has_prefix_def)

lemma has_prefix_Nil [simp]: "has_prefix s []"
  by (simp add: has_prefix_def)

lemma has_suffix_iff: "has_suffix s p \<longleftrightarrow> (\<exists>t. s = t @ p)"
  unfolding has_suffix_def by (auto intro: exI [of _ "take (length s - length p) s"])
    (metis append_take_drop_id)

lemma contains_Nil [simp]: "contains s []"
  by (induction s) simp_all

lemma contains_iff: "contains s sub \<longleftrightarrow> (\<exists>a b. s = a @ sub @ b)"
proof (induction s)
  case (Cons c cs)
  show ?case
  proof
    assume "contains (c # cs) sub"
    then show "\<exists>a b. c # cs = a @ sub @ b"
    proof (cases "has_prefix (c # cs) sub")
      case True
      then show ?thesis by (metis append_Nil has_prefix_iff)
    next
      case False
      with \<open>contains (c # cs) sub\<close> Cons.IH obtain a b where "cs = a @ sub @ b" by auto
      then have "c # cs = (c # a) @ sub @ b" by simp
      then show ?thesis by blast
    qed
  next
    assume "\<exists>a b. c # cs = a @ sub @ b"
    then obtain a b where ab: "c # cs = a @ sub @ b" by blast
    show "contains (c # cs) sub"
    proof (cases a)
      case Nil
      with ab have "has_prefix (c # cs) sub" by (auto simp: has_prefix_iff)
      then show ?thesis by simp
    next
      case (Cons x xs)
      with ab Cons.IH show ?thesis by auto
    qed
  qed
qed auto

text \<open>The part before the first separator (the whole string where there is none), as the
  first result of \<open>strings.Cut\<close>.\<close>

definition cut_before :: "char \<Rightarrow> string \<Rightarrow> string" where
  "cut_before c s = takeWhile (\<lambda>x. x \<noteq> c) s"

text \<open>\<open>strings.Split\<close> on a one-byte separator: never empty.\<close>

fun split_on :: "char \<Rightarrow> string \<Rightarrow> string list" where
  "split_on c [] = [[]]"
| "split_on c (x # xs) =
     (if x = c then [] # split_on c xs
      else (case split_on c xs of [] \<Rightarrow> [[x]] | p # ps \<Rightarrow> (x # p) # ps))"

lemma split_on_not_Nil [simp]: "split_on c s \<noteq> []"
  by (induction s) (auto split: list.splits)

lemma split_on_no_sep: "p \<in> set (split_on c s) \<Longrightarrow> c \<notin> set p"
  by (induction s arbitrary: p) (auto split: list.splits if_splits)

lemma split_on_single: "c \<notin> set s \<Longrightarrow> split_on c s = [s]"
  by (induction s) auto

lemma split_on_append: "c \<notin> set s \<Longrightarrow> split_on c (s @ c # t) = s # split_on c t"
  by (induction s) auto

definition to_lower_char :: "char \<Rightarrow> char" where
  "to_lower_char c =
     (if CHR ''A'' \<le> c \<and> c \<le> CHR ''Z'' then char_of (of_char c + 32 :: nat) else c)"

text \<open>\<open>strings.ToLower\<close> on ASCII letters; bytes outside ASCII are left alone.\<close>

definition to_lower :: "string \<Rightarrow> string" where
  "to_lower s = map to_lower_char s"

text \<open>\<open>strings.ReplaceAll\<close> for a non-empty pattern.\<close>

function replace_all :: "string \<Rightarrow> string \<Rightarrow> string \<Rightarrow> string" where
  "replace_all s old new =
     (if s = [] \<or> old = [] then s
      else if has_prefix s old then new @ replace_all (drop (length old) s) old new
      else hd s # replace_all (tl s) old new)"
  by pat_completeness auto
termination
  by (relation "measure (\<lambda>(s, old, new). length s)") auto

declare replace_all.simps [simp del]

text \<open>\<open>strings.TrimSpace\<close>: the white space of Unicode in its UTF-8 encoding.\<close>

definition white_space :: "string list" where
  "white_space =
     [[CHR 0x09], [CHR 0x0A], [CHR 0x0B], [CHR 0x0C], [CHR 0x0D], [CHR 0x20],
      [CHR 0xC2, CHR 0x85], [CHR 0xC2, CHR 0xA0], [CHR 0xE1, CHR 0x9A, CHR 0x80]]
     @ map (\<lambda>c. [CHR 0xE2, CHR 0x80, c])
         [CHR 0x80, CHR 0x81, CHR 0x82, CHR 0x83, CHR 0x84, CHR 0x85, CHR 0x86, CHR 0x87,
          CHR 0x88, CHR 0x89, CHR 0x8A, CHR 0xA8, CHR 0xA9, CHR 0xAF]
     @ [[CHR 0xE2, CHR 0x81, CHR 0x9F], [CHR 0xE3, CHR 0x80, CHR 0x80]]"

lemma white_space_pos: "w \<in> set white_space \<Longrightarrow> 0 < length w"
  by (auto simp: white_space_def)

function trim_left :: "string \<Rightarrow> string" where
  "trim_left s =
     (case find (\<lambda>w. w \<noteq> [] \<and> has_prefix s w) white_space of
        None \<Rightarrow> s | Some w \<Rightarrow> trim_left (drop (length w) s))"
  by pat_completeness auto
termination
  by (relation "measure length") (auto simp: find_Some_iff has_prefix_iff)

declare trim_left.simps [simp del]

function trim_right :: "string \<Rightarrow> string" where
  "trim_right s =
     (case find (\<lambda>w. w \<noteq> [] \<and> has_suffix s w) white_space of
        None \<Rightarrow> s | Some w \<Rightarrow> trim_right (take (length s - length w) s))"
  by pat_completeness auto
termination
  by (relation "measure length") (auto simp: find_Some_iff has_suffix_iff)

declare trim_right.simps [simp del]

definition trim_space :: "string \<Rightarrow> string" where
  "trim_space s = trim_right (trim_left s)"

section \<open>Numbers in strings\<close>

definition is_digit :: "char \<Rightarrow> bool" where
  "is_digit c = (CHR ''0'' \<le> c \<and> c \<le> CHR ''9'')"

definition digit_val :: "char \<Rightarrow> int" where
  "digit_val c = of_char c - 48"

fun digits_val :: "int \<Rightarrow> string \<Rightarrow> int" where
  "digits_val acc [] = acc"
| "digits_val acc (c # cs) = digits_val (10 * acc + digit_val c) cs"

definition int64_min :: int where "int64_min = - (2 ^ 63)"
definition int64_max :: int where "int64_max = 2 ^ 63 - 1"

text \<open>\<open>strconv.ParseInt(s, 10, 64)\<close>: an optional sign, at least one digit, in range.\<close>

definition parse_int64 :: "string \<Rightarrow> int option" where
  "parse_int64 s =
     (let neg = (s \<noteq> [] \<and> hd s = CHR ''-'');
          body = (if s \<noteq> [] \<and> hd s \<in> {CHR ''-'', CHR ''+''} then tl s else s);
          v = (if neg then - digits_val 0 body else digits_val 0 body)
      in if body \<noteq> [] \<and> list_all is_digit body \<and> int64_min \<le> v \<and> v \<le> int64_max
         then Some v else None)"

lemma parse_int64_range: "parse_int64 s = Some v \<Longrightarrow> int64_min \<le> v \<and> v \<le> int64_max"
  by (auto simp: parse_int64_def Let_def split: if_splits)

fun show_nat :: "nat \<Rightarrow> string" where
  "show_nat n =
     (if n < 10 then [char_of (48 + n)] else show_nat (n div 10) @ [char_of (48 + n mod 10)])"

declare show_nat.simps [simp del]

definition show_int :: "int \<Rightarrow> string" where
  "show_int i = (if i < 0 then CHR ''-'' # show_nat (nat (- i)) else show_nat (nat i))"

text \<open>
  The \<open>%q\<close> verb, \<open>strconv.Quote\<close>: quotes and backslashes are escaped, control characters
  take their short or hexadecimal form. Bytes of printable UTF-8 text stay as they are.
\<close>

definition hex_low :: "nat \<Rightarrow> char" where
  "hex_low n = (if n < 10 then char_of (48 + n) else char_of (87 + n))"

definition quote_char :: "char \<Rightarrow> string" where
  "quote_char c =
     (let n = of_char c :: nat in
      if c = CHR 0x22 \<or> c = CHR 0x5C then [CHR 0x5C, c]
      else if n = 7 then [CHR 0x5C, CHR ''a''] else if n = 8 then [CHR 0x5C, CHR ''b'']
      else if n = 12 then [CHR 0x5C, CHR ''f''] else if n = 10 then [CHR 0x5C, CHR ''n'']
      else if n = 13 then [CHR 0x5C, CHR ''r''] else if n = 9 then [CHR 0x5C, CHR ''t'']
      else if n = 11 then [CHR 0x5C, CHR ''v'']
      else if n < 32 \<or> n = 127 then [CHR 0x5C, CHR ''x'', hex_low (n div 16), hex_low (n mod 16)]
      else [c])"

definition go_quote :: "string \<Rightarrow> string" where
  "go_quote s = [CHR 0x22] @ concat (map quote_char s) @ [CHR 0x22]"

section \<open>Maps\<close>

type_synonym ('k, 'v) gomap = "('k \<times> 'v) list"

abbreviation mput :: "'k \<Rightarrow> 'v \<Rightarrow> ('k, 'v) gomap \<Rightarrow> ('k, 'v) gomap" where
  "mput \<equiv> AList.update"

abbreviation mdel :: "'k \<Rightarrow> ('k, 'v) gomap \<Rightarrow> ('k, 'v) gomap" where
  "mdel \<equiv> AList.delete"

abbreviation mkeys :: "('k, 'v) gomap \<Rightarrow> 'k list" where
  "mkeys m \<equiv> map fst m"

definition mget_or :: "'v \<Rightarrow> ('k, 'v) gomap \<Rightarrow> 'k \<Rightarrow> 'v" where
  "mget_or d m k = (case map_of m k of None \<Rightarrow> d | Some v \<Rightarrow> v)"

lemma map_of_mput [simp]: "map_of (mput k v m) k' = (if k' = k then Some v else map_of m k')"
  by (simp add: update_conv')

lemma map_of_mdel [simp]: "map_of (mdel k m) k' = (if k' = k then None else map_of m k')"
  by (simp add: delete_conv')

lemma distinct_mput [simp]: "distinct (mkeys m) \<Longrightarrow> distinct (mkeys (mput k v m))"
  by (rule distinct_update)

lemma distinct_mdel [simp]: "distinct (mkeys m) \<Longrightarrow> distinct (mkeys (mdel k m))"
  by (rule distinct_delete)

lemma set_mkeys_mput [simp]: "set (mkeys (mput k v m)) = insert k (set (mkeys m))"
  by (auto simp: update_keys)

section \<open>Values of type any\<close>

text \<open>Floating point values are carried by their 64-bit pattern.\<close>

datatype jval =
    JNull
  | JBool bool
  | JInt int
  | JFloat "64 word"
  | JStr string
  | JList "jval list"
  | JMap "(string \<times> jval) list"

type_synonym jobj = "(string, jval) gomap"

text \<open>Type assertions \<open>v.(T)\<close> in their two-result form.\<close>

fun as_map :: "jval \<Rightarrow> jobj option" where
  "as_map (JMap m) = Some m" | "as_map _ = None"

fun as_str :: "jval \<Rightarrow> string option" where
  "as_str (JStr s) = Some s" | "as_str _ = None"

fun as_list :: "jval \<Rightarrow> jval list option" where
  "as_list (JList xs) = Some xs" | "as_list _ = None"

fun as_bool :: "jval \<Rightarrow> bool option" where
  "as_bool (JBool b) = Some b" | "as_bool _ = None"

lemma as_map_Some [simp]: "as_map v = Some m \<longleftrightarrow> v = JMap m" by (cases v) auto
lemma as_str_Some [simp]: "as_str v = Some s \<longleftrightarrow> v = JStr s" by (cases v) auto
lemma as_list_Some [simp]: "as_list v = Some xs \<longleftrightarrow> v = JList xs" by (cases v) auto
lemma as_bool_Some [simp]: "as_bool v = Some b \<longleftrightarrow> v = JBool b" by (cases v) auto

text \<open>\<open>s, _ := m[key].(string)\<close>: the empty string where the key or the type is missing.\<close>

definition str_at :: "jobj \<Rightarrow> string \<Rightarrow> string" where
  "str_at m key = (case Option.bind (map_of m key) as_str of None \<Rightarrow> '''' | Some s \<Rightarrow> s)"

section \<open>Errors\<close>

text \<open>
  \<open>Sentinel\<close> is an \<open>errors.New\<close> value compared by identity, \<open>ApiStatus\<close> the
  apiserver's \<open>*StatusError\<close> with its HTTP code, \<open>Opaque\<close> any other error of a
  library, \<open>Fmt\<close> a \<open>fmt.Errorf\<close> with one \<open>%w\<close> between two texts, \<open>Fmt2\<close> one with
  two.
\<close>

datatype gerr =
    Sentinel string
  | ApiStatus int string
  | Opaque string
  | Fmt string gerr string
  | Fmt2 gerr string gerr

fun err_text :: "gerr \<Rightarrow> string" where
  "err_text (Sentinel s) = s"
| "err_text (ApiStatus c s) = s"
| "err_text (Opaque s) = s"
| "err_text (Fmt a e b) = a @ err_text e @ b"
| "err_text (Fmt2 e a f) = err_text e @ a @ err_text f"

fun errors_is :: "gerr \<Rightarrow> gerr \<Rightarrow> bool" where
  "errors_is (Fmt a e b) t = (Fmt a e b = t \<or> errors_is e t)"
| "errors_is (Fmt2 e a f) t = (Fmt2 e a f = t \<or> errors_is e t \<or> errors_is f t)"
| "errors_is e t = (e = t)"

text \<open>\<open>errors.As\<close> with a \<open>*StatusError\<close> target, reduced to the code it carries.\<close>

fun errors_as_status :: "gerr \<Rightarrow> int option" where
  "errors_as_status (ApiStatus c s) = Some c"
| "errors_as_status (Fmt a e b) = errors_as_status e"
| "errors_as_status (Fmt2 e a f) =
     (case errors_as_status e of Some c \<Rightarrow> Some c | None \<Rightarrow> errors_as_status f)"
| "errors_as_status _ = None"

type_synonym 'a res = "gerr + 'a"

section \<open>sort.Slice\<close>

text \<open>
  One round of Go's \<open>insertionSort\<close>: the sorted prefix is held reversed, the new element
  moves down while it is less than its left neighbour.
\<close>

fun sift_down :: "('a \<Rightarrow> 'a \<Rightarrow> bool) \<Rightarrow> 'a \<Rightarrow> 'a list \<Rightarrow> 'a list" where
  "sift_down lt x [] = [x]"
| "sift_down lt x (y # ys) = (if lt x y then y # sift_down lt x ys else x # y # ys)"

definition sort_slice :: "('a \<Rightarrow> 'a \<Rightarrow> bool) \<Rightarrow> 'a list \<Rightarrow> 'a list" where
  "sort_slice lt xs = rev (fold (sift_down lt) xs [])"

text \<open>What a comparator of the code satisfies: it orders by a key in a linear order.\<close>

lemma mset_sift_down [simp]: "mset (sift_down lt x ys) = add_mset x (mset ys)"
  by (induction ys) auto

lemma mset_fold_sift: "mset (fold (sift_down lt) xs acc) = mset xs + mset acc"
  by (induction xs arbitrary: acc) auto

lemma mset_sort_slice [simp]: "mset (sort_slice lt xs) = mset xs"
  by (simp add: sort_slice_def mset_fold_sift)

lemma set_sort_slice [simp]: "set (sort_slice lt xs) = set xs"
  using mset_sort_slice [of lt xs] by (metis mset_eq_setD)

lemma length_sort_slice [simp]: "length (sort_slice lt xs) = length xs"
  using mset_sort_slice [of lt xs] by (metis size_mset)

lemma distinct_sort_slice [simp]: "distinct (sort_slice lt xs) = distinct xs"
  using mset_sort_slice [of lt xs] by (metis mset_eq_imp_distinct_iff)

text \<open>
  The result is sorted for every comparator that is transitive in its negation, that is, for
  every strict weak order.
\<close>

definition weak_order :: "('a \<Rightarrow> 'a \<Rightarrow> bool) \<Rightarrow> bool" where
  "weak_order lt \<longleftrightarrow>
     (\<forall>x. \<not> lt x x) \<and> (\<forall>x y z. \<not> lt y x \<longrightarrow> \<not> lt z y \<longrightarrow> \<not> lt z x)
     \<and> (\<forall>x y. lt x y \<longrightarrow> \<not> lt y x)"

lemma weak_orderD:
  assumes "weak_order lt"
  shows "\<not> lt x x" and "\<not> lt y x \<Longrightarrow> \<not> lt z y \<Longrightarrow> \<not> lt z x"
    and "lt x y \<Longrightarrow> \<not> lt y x"
  using assms unfolding weak_order_def by blast+

lemma weak_order_key: "weak_order (\<lambda>x y. (f x :: 'k::linorder) < f y)"
  by (auto simp: weak_order_def)

lemma weak_order_key_desc: "weak_order (\<lambda>x y. (f x :: 'k::linorder) > f y)"
  by (auto simp: weak_order_def)

lemma sift_down_desc:
  assumes "weak_order lt" and "sorted_wrt (\<lambda>a b. \<not> lt a b) ys"
  shows "sorted_wrt (\<lambda>a b. \<not> lt a b) (sift_down lt x ys)"
  using assms(2)
proof (induction ys)
  case (Cons y ys)
  have mem: "set (sift_down lt x ys) = insert x (set ys)"
    by (metis mset_sift_down set_mset_add_mset_insert set_mset_mset)
  show ?case
  proof (cases "lt x y")
    case True
    with Cons mem weak_orderD(3) [OF assms(1)] show ?thesis by auto
  next
    case False
    with Cons.prems weak_orderD(2) [OF assms(1)] show ?thesis by auto
  qed
qed simp

lemma fold_sift_desc:
  "weak_order lt \<Longrightarrow> sorted_wrt (\<lambda>a b. \<not> lt a b) acc \<Longrightarrow>
     sorted_wrt (\<lambda>a b. \<not> lt a b) (fold (sift_down lt) xs acc)"
  by (induction xs arbitrary: acc) (auto simp: sift_down_desc)

lemma sorted_sort_slice:
  "weak_order lt \<Longrightarrow> sorted_wrt (\<lambda>a b. \<not> lt b a) (sort_slice lt xs)"
  unfolding sort_slice_def sorted_wrt_rev by (rule fold_sift_desc) simp_all

section \<open>Order on strings\<close>

text \<open>
  Go compares strings byte by byte, which is the lexicographic order of the library on lists
  of characters ordered by code: \<open><\<close> on \<open>string\<close>. Two orderings of the same strings are
  equal, so \<open>sort.Strings\<close> does not depend on the order it is given.
\<close>

definition sort_strings :: "string list \<Rightarrow> string list" where
  "sort_strings = sort_slice (\<lambda>a b. a < b)"

lemma sorted_sort_strings [simp]: "sorted (sort_strings xs)"
  using sorted_sort_slice [OF weak_order_key [of "\<lambda>s. s"], of xs]
  by (simp add: sort_strings_def not_less)

lemma mset_sort_strings [simp]: "mset (sort_strings xs) = mset xs"
  by (simp add: sort_strings_def)

lemma set_sort_strings [simp]: "set (sort_strings xs) = set xs"
  by (simp add: sort_strings_def)

lemma sort_strings_sort: "sort_strings xs = sort xs"
  by (metis mset_sort_strings properties_for_sort sorted_sort_strings)

end
