(* ===== verification/Audit_Log.thy ===== *)
theory Audit_Log
  imports Go_Prelude
begin

text \<open>
  \<open>internal/audit/audit.go\<close>: the audit event, the fixed vocabulary of actions and outcomes,
  and the two implementations of the \<open>Logger\<close> interface. The locale \<open>audit_sink\<close> is
  that interface's contract: recording appends at most one line and never touches the lines
  already written. Both implementations are interpreted.
\<close>

section \<open>Vocabulary\<close>

datatype action =
    ActionTenantCreate | ActionTenantUpdate | ActionTenantDelete
  | ActionAppCreate | ActionAppUpdate | ActionAppDelete | ActionAppAction
  | ActionSecretView | ActionConnectionView | ActionPodLogView
  | ActionAuthLogin | ActionAuthLogout

fun action_text :: "action \<Rightarrow> string" where
  "action_text ActionTenantCreate = ''tenant.create''"
| "action_text ActionTenantUpdate = ''tenant.update''"
| "action_text ActionTenantDelete = ''tenant.delete''"
| "action_text ActionAppCreate = ''app.create''"
| "action_text ActionAppUpdate = ''app.update''"
| "action_text ActionAppDelete = ''app.delete''"
| "action_text ActionAppAction = ''app.action''"
| "action_text ActionSecretView = ''secret.view''"
| "action_text ActionConnectionView = ''connection.view''"
| "action_text ActionPodLogView = ''pod.log.view''"
| "action_text ActionAuthLogin = ''auth.login''"
| "action_text ActionAuthLogout = ''auth.logout''"

text \<open>The log pipeline indexes on the strings: no two actions share one.\<close>

lemma action_text_inj: "action_text a = action_text b \<longleftrightarrow> a = b"
  by (cases a; cases b) simp_all

text \<open>\<open>OutcomeUnset\<close> is the zero value a caller leaves when it sets none.\<close>

datatype outcome = OutcomeUnset | OutcomeSuccess | OutcomeDenied | OutcomeError

fun outcome_text :: "outcome \<Rightarrow> string" where
  "outcome_text OutcomeUnset = []"
| "outcome_text OutcomeSuccess = ''success''"
| "outcome_text OutcomeDenied = ''denied''"
| "outcome_text OutcomeError = ''error''"

lemma outcome_text_inj: "outcome_text a = outcome_text b \<longleftrightarrow> a = b"
  by (cases a; cases b) simp_all

text \<open>Time is Unix seconds; \<open>None\<close> is the zero \<open>time.Time\<close>.\<close>

record event =
  ev_time :: "int option"
  ev_request_id :: string
  ev_actor :: string
  ev_groups :: "string list"
  ev_action :: action
  ev_resource :: string
  ev_tenant :: string
  ev_outcome :: outcome
  ev_auth_mode :: string
  ev_details :: "(string, jval) gomap"

section \<open>Loggers\<close>

text \<open>
  A log line holds the event as it is written, with \<open>details\<close> attached only when the map has
  an entry.
\<close>

record log_line =
  ll_time :: int
  ll_event :: event
  ll_details :: "(string, jval) gomap option"

text \<open>\<open>SlogLogger.Record\<close>.\<close>

definition slog_record :: "int \<Rightarrow> event option \<Rightarrow> log_line list \<Rightarrow> log_line list" where
  "slog_record now ev lines =
     (case ev of
        None \<Rightarrow> lines
      | Some e \<Rightarrow>
          let t = (case ev_time e of None \<Rightarrow> now | Some t \<Rightarrow> t);
              o' = (if ev_outcome e = OutcomeUnset then OutcomeSuccess else ev_outcome e);
              e' = e\<lparr>ev_time := Some t, ev_outcome := o'\<rparr>
          in lines @ [\<lparr>ll_time = t, ll_event = e',
               ll_details = (if ev_details e' = [] then None else Some (ev_details e'))\<rparr>])"

text \<open>The attributes a line carries.\<close>

datatype attr = AttrText string | AttrTime int | AttrTexts "string list" | AttrMap "(string, jval) gomap"

definition line_attrs :: "log_line \<Rightarrow> (string \<times> attr) list" where
  "line_attrs l =
     (let e = ll_event l in
      [(''audit'', AttrText ''event''), (''event_time'', AttrTime (ll_time l)), (''request_id'', AttrText (ev_request_id e)),
       (''actor'', AttrText (ev_actor e)), (''groups'', AttrTexts (ev_groups e)),
       (''action'', AttrText (action_text (ev_action e))), (''resource'', AttrText (ev_resource e)),
       (''tenant'', AttrText (ev_tenant e)), (''outcome'', AttrText (outcome_text (ev_outcome e))),
       (''auth_mode'', AttrText (ev_auth_mode e))] @
      (case ll_details l of None \<Rightarrow> [] | Some d \<Rightarrow> [(''details'', AttrMap d)]))"

text \<open>\<open>NopLogger.Record\<close>.\<close>

definition nop_record :: "int \<Rightarrow> event option \<Rightarrow> log_line list \<Rightarrow> log_line list" where
  "nop_record now ev lines = lines"

locale audit_sink =
  fixes record_event :: "int \<Rightarrow> event option \<Rightarrow> log_line list \<Rightarrow> log_line list"
  assumes appends: "\<exists>new. record_event now ev lines = lines @ new \<and> length new \<le> 1"
    and nil_event: "record_event now None lines = lines"
    and typed: "l \<in> set (drop (length lines) (record_event now ev lines)) \<Longrightarrow>
                  ev_outcome (ll_event l) \<noteq> OutcomeUnset"
begin

fun record_all :: "(int \<times> event option) list \<Rightarrow> log_line list \<Rightarrow> log_line list" where
  "record_all [] lines = lines"
| "record_all ((now, ev) # evs) lines = record_all evs (record_event now ev lines)"

lemma record_all_appends:
  "\<exists>new. record_all evs lines = lines @ new \<and> length new \<le> length evs"
proof (induction evs arbitrary: lines)
  case (Cons p evs)
  obtain now ev where p: "p = (now, ev)" by fastforce
  obtain n1 where n1: "record_event now ev lines = lines @ n1" "length n1 \<le> 1"
    using appends by blast
  obtain n2 where "record_all evs (lines @ n1) = (lines @ n1) @ n2" "length n2 \<le> length evs"
    using Cons.IH by blast
  then have "record_all (p # evs) lines = lines @ (n1 @ n2) \<and> length (n1 @ n2) \<le> length (p # evs)"
    using p n1 by simp
  then show ?case by blast
qed simp

lemma record_typed:
  assumes "\<forall>l\<in>set lines. ev_outcome (ll_event l) \<noteq> OutcomeUnset"
  shows "\<forall>l\<in>set (record_event now ev lines). ev_outcome (ll_event l) \<noteq> OutcomeUnset"
proof -
  obtain new where new: "record_event now ev lines = lines @ new" using appends by blast
  with typed [of _ lines now ev] have "\<forall>l\<in>set new. ev_outcome (ll_event l) \<noteq> OutcomeUnset"
    by simp
  with assms new show ?thesis by auto
qed

lemma record_all_typed:
  "\<forall>l\<in>set lines. ev_outcome (ll_event l) \<noteq> OutcomeUnset \<Longrightarrow>
     \<forall>l\<in>set (record_all evs lines). ev_outcome (ll_event l) \<noteq> OutcomeUnset"
proof (induction evs arbitrary: lines)
  case (Cons p evs)
  obtain now ev where p: "p = (now, ev)" by fastforce
  have "\<forall>l\<in>set (record_event now ev lines). ev_outcome (ll_event l) \<noteq> OutcomeUnset"
    by (rule record_typed [OF Cons.prems])
  from Cons.IH [OF this] p show ?case by simp
qed simp

end

interpretation slog: audit_sink slog_record
  by unfold_locales (auto simp: slog_record_def Let_def split: option.splits)

interpretation nop: audit_sink nop_record
  by unfold_locales (auto simp: nop_record_def)

text \<open>Nothing of an event is lost on its way into the log: the attributes of a line determine it.\<close>

lemma line_attrs_determine:
  assumes "slog_record now (Some e) [] = [l]" "slog_record now' (Some e') [] = [l']" "line_attrs l = line_attrs l'"
  shows "ll_event l = ll_event l'"
proof -
  have l: "ev_time (ll_event l) = Some (ll_time l)" "ll_details l = (if ev_details (ll_event l) = [] then None else Some (ev_details (ll_event l)))"
    using assms(1) by (auto simp: slog_record_def Let_def)
  have l': "ev_time (ll_event l') = Some (ll_time l')" "ll_details l' = (if ev_details (ll_event l') = [] then None else Some (ev_details (ll_event l')))"
    using assms(2) by (auto simp: slog_record_def Let_def)
  have t: "ll_time l = ll_time l'" "ll_details l = ll_details l'"
    using assms(3) by (simp_all add: line_attrs_def Let_def split: option.splits)
  have "ev_request_id (ll_event l) = ev_request_id (ll_event l')" "ev_actor (ll_event l) = ev_actor (ll_event l')"
    "ev_groups (ll_event l) = ev_groups (ll_event l')" "ev_action (ll_event l) = ev_action (ll_event l')"
    "ev_resource (ll_event l) = ev_resource (ll_event l')" "ev_tenant (ll_event l) = ev_tenant (ll_event l')"
    "ev_outcome (ll_event l) = ev_outcome (ll_event l')" "ev_auth_mode (ll_event l) = ev_auth_mode (ll_event l')"
    using assms(3) by (simp_all add: line_attrs_def Let_def action_text_inj outcome_text_inj)
  moreover have "ev_details (ll_event l) = ev_details (ll_event l')"
    using l(2) l'(2) t(2) by (simp split: if_splits)
  moreover have "ev_time (ll_event l) = ev_time (ll_event l')" using l(1) l'(1) t(1) by simp
  ultimately show ?thesis by (intro event.equality) simp_all
qed

text \<open>Every event handed to the production logger is one line, with its time and outcome.\<close>

lemma slog_record_one:
  "slog_record now (Some e) lines =
     lines @ [\<lparr>ll_time = (case ev_time e of None \<Rightarrow> now | Some t \<Rightarrow> t),
       ll_event = e\<lparr>ev_time := Some (case ev_time e of None \<Rightarrow> now | Some t \<Rightarrow> t),
         ev_outcome := (if ev_outcome e = OutcomeUnset then OutcomeSuccess else ev_outcome e)\<rparr>,
       ll_details = (if ev_details e = [] then None else Some (ev_details e))\<rparr>]"
  by (simp add: slog_record_def Let_def)

end
