(* ===== verification/Config_Load.thy ===== *)
theory Config_Load
  imports Go_Prelude
begin

text \<open>
  \<open>internal/config\<close>: the five authentication modes (\<open>authmode.go\<close>) and loading the
  configuration from environment variables (\<open>config.go\<close>). An \<open>AuthMode\<close> is a string with
  named values, as in the source, so a value outside the five can be written down. The
  environment is a function from names to values; \<open>crypto/rand\<close> is an argument.
\<close>

section \<open>authmode.go\<close>

type_synonym auth_mode = string

definition AuthModePassthrough :: auth_mode where "AuthModePassthrough = ''passthrough''"
definition AuthModeBYOK :: auth_mode where "AuthModeBYOK = ''byok''"
definition AuthModeDev :: auth_mode where "AuthModeDev = ''dev''"
definition AuthModeImpersonationLegacy :: auth_mode where
  "AuthModeImpersonationLegacy = ''impersonation-legacy''"
definition AuthModeToken :: auth_mode where "AuthModeToken = ''token''"

lemmas auth_mode_defs =
  AuthModePassthrough_def AuthModeBYOK_def AuthModeDev_def AuthModeImpersonationLegacy_def
  AuthModeToken_def

lemma auth_modes_distinct [simp]:
  "distinct [AuthModePassthrough, AuthModeBYOK, AuthModeDev, AuthModeImpersonationLegacy,
     AuthModeToken, '''']"
  by (simp add: auth_mode_defs)

lemma auth_mode_neq [simp]:
  "AuthModePassthrough \<noteq> AuthModeBYOK" "AuthModeBYOK \<noteq> AuthModePassthrough"
  "AuthModePassthrough \<noteq> AuthModeDev" "AuthModeDev \<noteq> AuthModePassthrough"
  "AuthModePassthrough \<noteq> AuthModeImpersonationLegacy" "AuthModeImpersonationLegacy \<noteq> AuthModePassthrough"
  "AuthModePassthrough \<noteq> AuthModeToken" "AuthModeToken \<noteq> AuthModePassthrough"
  "AuthModeBYOK \<noteq> AuthModeDev" "AuthModeDev \<noteq> AuthModeBYOK"
  "AuthModeBYOK \<noteq> AuthModeImpersonationLegacy" "AuthModeImpersonationLegacy \<noteq> AuthModeBYOK"
  "AuthModeBYOK \<noteq> AuthModeToken" "AuthModeToken \<noteq> AuthModeBYOK"
  "AuthModeDev \<noteq> AuthModeImpersonationLegacy" "AuthModeImpersonationLegacy \<noteq> AuthModeDev"
  "AuthModeDev \<noteq> AuthModeToken" "AuthModeToken \<noteq> AuthModeDev"
  "AuthModeImpersonationLegacy \<noteq> AuthModeToken" "AuthModeToken \<noteq> AuthModeImpersonationLegacy"
  by (simp_all add: auth_mode_defs)

lemma auth_mode_nonempty [simp]:
  "AuthModePassthrough \<noteq> ''''" "'''' \<noteq> AuthModePassthrough" "AuthModeBYOK \<noteq> ''''" "'''' \<noteq> AuthModeBYOK"
  "AuthModeDev \<noteq> ''''" "'''' \<noteq> AuthModeDev" "AuthModeToken \<noteq> ''''" "'''' \<noteq> AuthModeToken"
  "AuthModeImpersonationLegacy \<noteq> ''''" "'''' \<noteq> AuthModeImpersonationLegacy"
  by (simp_all add: auth_mode_defs)

definition auth_mode_valid :: "auth_mode \<Rightarrow> bool" where
  "auth_mode_valid m \<longleftrightarrow>
     m \<in> set [AuthModePassthrough, AuthModeBYOK, AuthModeDev, AuthModeImpersonationLegacy,
              AuthModeToken]"

lemma auth_mode_cases [consumes 1, case_names passthrough byok dev legacy token]:
  assumes "auth_mode_valid m"
  obtains "m = AuthModePassthrough" | "m = AuthModeBYOK" | "m = AuthModeDev"
    | "m = AuthModeImpersonationLegacy" | "m = AuthModeToken"
  using assms by (auto simp: auth_mode_valid_def)

definition ErrAuthModeEmpty :: gerr where "ErrAuthModeEmpty = Sentinel ''auth mode is empty''"
definition ErrAuthModeUnknown :: gerr where "ErrAuthModeUnknown = Sentinel ''unknown auth mode''"

definition parse_auth_mode :: "string \<Rightarrow> auth_mode res" where
  "parse_auth_mode raw =
     (if raw = '''' then Inl ErrAuthModeEmpty
      else if \<not> auth_mode_valid raw then Inl (Fmt '''' ErrAuthModeUnknown ('': '' @ go_quote raw))
      else Inr raw)"

lemma parse_auth_mode_Inr: "parse_auth_mode raw = Inr m \<longleftrightarrow> m = raw \<and> auth_mode_valid raw"
  by (auto simp: parse_auth_mode_def auth_mode_valid_def auth_mode_defs)

section \<open>config.go\<close>

record config =
  ListenAddr :: string
  OIDCIssuerURL :: string
  OIDCInternalIssuerURL :: string
  OIDCClientID :: string
  OIDCClientSecret :: string
  OIDCRedirectURL :: string
  SessionSecret :: string
  LogLevel :: string
  DebugPprofAddr :: string
  AuthMode :: auth_mode
  DevMode :: bool
  TrustForwardedHeaders :: bool

definition ErrMissingEnvVar :: gerr where
  "ErrMissingEnvVar = Sentinel ''required environment variable is not set''"
definition ErrDevModeNotEnabled :: gerr where
  "ErrDevModeNotEnabled = Sentinel
     (''OIDC_ISSUER_URL is required; set COZYTEMPL_DEV_MODE=true to run with ''
      @ ''authentication disabled'')"
definition ErrWeakSessionSecret :: gerr where
  "ErrWeakSessionSecret = Sentinel
     (''SESSION_SECRET is required in production and must not be the placeholder dev value'')"

definition devSessionSecretPlaceholder :: string where
  "devSessionSecretPlaceholder = ''dev-secret-not-for-production!!''"

definition devSessionSecretRandomBytes :: nat where "devSessionSecretRandomBytes = 32"

definition envTrue :: string where "envTrue = ''true''"

type_synonym environ = "string \<Rightarrow> string"

definition env_or_default :: "environ \<Rightarrow> string \<Rightarrow> string \<Rightarrow> string" where
  "env_or_default env key d = (if env key \<noteq> '''' then env key else d)"

definition resolve_auth_mode :: "string \<Rightarrow> bool \<Rightarrow> bool \<Rightarrow> auth_mode res" where
  "resolve_auth_mode authModeRaw devRequested oidcConfigured =
     (if devRequested then Inr AuthModeDev
      else if authModeRaw \<noteq> '''' then
        (case parse_auth_mode authModeRaw of
           Inl e \<Rightarrow> Inl (Fmt ''COZYTEMPL_AUTH_MODE: '' e '''')
         | Inr m \<Rightarrow> Inr m)
      else if oidcConfigured then Inr AuthModePassthrough
      else Inl ErrDevModeNotEnabled)"

text \<open>
  The loop over the map literal \<open>required\<close> may meet its entries in any order: the order is
  the first argument, and only the name in the error depends on it.
\<close>

fun first_empty :: "(string \<times> string) list \<Rightarrow> string option" where
  "first_empty [] = None"
| "first_empty ((name, val) # rest) = (if val = '''' then Some name else first_empty rest)"

definition weak_secret :: "string \<Rightarrow> bool" where
  "weak_secret s = (s = '''' \<or> s = devSessionSecretPlaceholder)"

definition validate_oidc_config ::
  "((string \<times> string) list \<Rightarrow> (string \<times> string) list) \<Rightarrow> config \<Rightarrow> gerr option" where
  "validate_oidc_config order cfg =
     (if OIDCIssuerURL cfg = '''' then Some (Fmt '''' ErrMissingEnvVar '': OIDC_ISSUER_URL'')
      else case first_empty (order [(''OIDC_CLIENT_ID'', OIDCClientID cfg),
             (''OIDC_CLIENT_SECRET'', OIDCClientSecret cfg),
             (''OIDC_REDIRECT_URL'', OIDCRedirectURL cfg)]) of
        Some name \<Rightarrow> Some (Fmt '''' ErrMissingEnvVar ('': '' @ name))
      | None \<Rightarrow> if weak_secret (SessionSecret cfg) then Some ErrWeakSessionSecret else None)"

definition validate_for_mode ::
  "((string \<times> string) list \<Rightarrow> (string \<times> string) list) \<Rightarrow> config \<Rightarrow> gerr option" where
  "validate_for_mode order cfg =
     (let m = AuthMode cfg in
      if m = AuthModeDev then None
      else if m = AuthModeBYOK \<or> m = AuthModeToken then
        (if weak_secret (SessionSecret cfg) then Some ErrWeakSessionSecret else None)
      else if m = AuthModePassthrough \<or> m = AuthModeImpersonationLegacy then
        validate_oidc_config order cfg
      else Some (Fmt '''' ErrAuthModeUnknown ('': '' @ go_quote m)))"

text \<open>\<open>hex.EncodeToString\<close>, two lower-case digits per byte.\<close>

definition hex_encode :: "8 word list \<Rightarrow> string" where
  "hex_encode bs = concat (map (\<lambda>b. [hex_low (unat b div 16), hex_low (unat b mod 16)]) bs)"

text \<open>\<open>rand.Read\<close> fills the buffer or fails: the argument of both random functions.\<close>

definition random_secret :: "(nat \<Rightarrow> (8 word list) res) \<Rightarrow> nat \<Rightarrow> string res" where
  "random_secret rand n =
     (case rand n of Inl e \<Rightarrow> Inl (Fmt ''reading random bytes: '' e '''') | Inr b \<Rightarrow> Inr (hex_encode b))"

definition load_env :: "environ \<Rightarrow> config" where
  "load_env env =
     \<lparr>ListenAddr = env_or_default env ''LISTEN_ADDR'' '':8080'',
      OIDCIssuerURL = env ''OIDC_ISSUER_URL'',
      OIDCInternalIssuerURL = env ''OIDC_INTERNAL_ISSUER_URL'',
      OIDCClientID = env ''OIDC_CLIENT_ID'',
      OIDCClientSecret = env ''OIDC_CLIENT_SECRET'',
      OIDCRedirectURL = env ''OIDC_REDIRECT_URL'',
      SessionSecret = env ''SESSION_SECRET'',
      LogLevel = env_or_default env ''LOG_LEVEL'' ''info'',
      DebugPprofAddr = env ''COZYTEMPL_DEBUG_PPROF_ADDR'',
      AuthMode = '''', DevMode = False,
      TrustForwardedHeaders = (env ''COZYTEMPL_TRUST_FORWARDED_HEADERS'' = envTrue)\<rparr>"

definition load ::
  "((string \<times> string) list \<Rightarrow> (string \<times> string) list) \<Rightarrow> (nat \<Rightarrow> (8 word list) res) \<Rightarrow>
     environ \<Rightarrow> config res" where
  "load order rand env =
     (let cfg = load_env env in
      case resolve_auth_mode (env ''COZYTEMPL_AUTH_MODE'') (env ''COZYTEMPL_DEV_MODE'' = envTrue)
             (OIDCIssuerURL cfg \<noteq> '''') of
        Inl e \<Rightarrow> Inl e
      | Inr mode \<Rightarrow>
          let cfg = cfg\<lparr>AuthMode := mode, DevMode := (mode = AuthModeDev)\<rparr> in
          case validate_for_mode order cfg of
            Some e \<Rightarrow> Inl e
          | None \<Rightarrow>
              if AuthMode cfg = AuthModeDev \<and> weak_secret (SessionSecret cfg) then
                (case random_secret rand devSessionSecretRandomBytes of
                   Inl e \<Rightarrow> Inl (Fmt ''generating dev session secret: '' e '''')
                 | Inr s \<Rightarrow> Inr (cfg\<lparr>SessionSecret := s\<rparr>))
              else Inr cfg)"

definition internal_issuer_url :: "config \<Rightarrow> string" where
  "internal_issuer_url c =
     (if OIDCInternalIssuerURL c \<noteq> '''' then OIDCInternalIssuerURL c else OIDCIssuerURL c)"

section \<open>Lemmas\<close>

lemma first_empty_None: "first_empty xs = None \<longleftrightarrow> (\<forall>p\<in>set xs. snd p \<noteq> '''')"
  by (induction xs rule: first_empty.induct) auto

lemma resolve_auth_mode_valid:
  "resolve_auth_mode raw dev oidc = Inr m \<Longrightarrow> auth_mode_valid m"
  by (auto simp: resolve_auth_mode_def parse_auth_mode_Inr auth_mode_valid_def
      split: if_splits sum.splits)

lemma resolve_auth_mode_dev:
  "resolve_auth_mode raw dev oidc = Inr AuthModeDev \<longleftrightarrow> dev \<or> raw = AuthModeDev"
proof (cases "parse_auth_mode raw")
  case (Inl e)
  then have "raw \<noteq> AuthModeDev"
    by (auto simp: parse_auth_mode_def auth_mode_valid_def split: if_splits)
  with Inl show ?thesis by (simp add: resolve_auth_mode_def)
next
  case (Inr m)
  then have "m = raw" "raw \<noteq> ''''" by (auto simp: parse_auth_mode_def split: if_splits)
  with Inr show ?thesis by (simp add: resolve_auth_mode_def)
qed

lemma validate_oidc_config_None:
  assumes "\<And>xs. mset (order xs) = mset xs"
  shows "validate_oidc_config order cfg = None \<longleftrightarrow>
    OIDCIssuerURL cfg \<noteq> '''' \<and> OIDCClientID cfg \<noteq> '''' \<and> OIDCClientSecret cfg \<noteq> '''' \<and>
    OIDCRedirectURL cfg \<noteq> '''' \<and> \<not> weak_secret (SessionSecret cfg)"
proof -
  let ?req = "[(''OIDC_CLIENT_ID'', OIDCClientID cfg),
     (''OIDC_CLIENT_SECRET'', OIDCClientSecret cfg), (''OIDC_REDIRECT_URL'', OIDCRedirectURL cfg)]"
  have "set (order ?req) = set ?req" using assms by (metis mset_eq_setD)
  then have "first_empty (order ?req) = None \<longleftrightarrow> OIDCClientID cfg \<noteq> '''' \<and>
      OIDCClientSecret cfg \<noteq> '''' \<and> OIDCRedirectURL cfg \<noteq> ''''"
    unfolding first_empty_None by simp
  then show ?thesis
    unfolding validate_oidc_config_def by (cases "first_empty (order ?req)") (simp_all, blast+)
qed

lemma validate_for_mode_None:
  assumes "\<And>xs. mset (order xs) = mset xs"
  shows "validate_for_mode order cfg = None \<longleftrightarrow>
    auth_mode_valid (AuthMode cfg) \<and>
    (AuthMode cfg \<noteq> AuthModeDev \<longrightarrow> \<not> weak_secret (SessionSecret cfg)) \<and>
    (AuthMode cfg \<in> {AuthModePassthrough, AuthModeImpersonationLegacy} \<longrightarrow>
       OIDCIssuerURL cfg \<noteq> '''' \<and> OIDCClientID cfg \<noteq> '''' \<and> OIDCClientSecret cfg \<noteq> '''' \<and>
       OIDCRedirectURL cfg \<noteq> '''')"
proof (cases "auth_mode_valid (AuthMode cfg)")
  case True
  then show ?thesis
    by (cases rule: auth_mode_cases)
      (simp_all add: validate_for_mode_def validate_oidc_config_None [OF assms] True
        auth_mode_valid_def, blast+)
next
  case False
  then show ?thesis by (simp add: validate_for_mode_def auth_mode_valid_def)
qed

lemma hex_low_range: "n < 16 \<Longrightarrow> hex_low n \<noteq> CHR ''-''"
proof -
  have "\<forall>n\<in>set [0..<16]. hex_low n \<noteq> CHR ''-''" by code_simp
  then show "n < 16 \<Longrightarrow> ?thesis" by simp
qed

lemma hex_encode_no_dash: "CHR ''-'' \<notin> set (hex_encode bs)"
proof -
  have *: "hex_low (unat b div 16) \<noteq> CHR ''-''" "hex_low (unat b mod 16) \<noteq> CHR ''-''"
    for b :: "8 word"
  proof -
    have "unat b < 256" by (rule order.strict_trans2 [OF unsigned_less]) simp
    then show "hex_low (unat b div 16) \<noteq> CHR ''-''" "hex_low (unat b mod 16) \<noteq> CHR ''-''"
      by (simp_all add: hex_low_range)
  qed
  then show ?thesis
    by (auto simp: hex_encode_def) (metis *)+
qed

lemma hex_encode_strong: "bs \<noteq> [] \<Longrightarrow> \<not> weak_secret (hex_encode bs)"
proof -
  assume "bs \<noteq> []"
  then have "hex_encode bs \<noteq> ''''" by (cases bs) (auto simp: hex_encode_def)
  moreover have "hex_encode bs \<noteq> devSessionSecretPlaceholder"
    using hex_encode_no_dash [of bs] by (auto simp: devSessionSecretPlaceholder_def)
  ultimately show ?thesis by (simp add: weak_secret_def)
qed

lemma load_env_sel [simp]:
  "SessionSecret (load_env env) = env ''SESSION_SECRET''"
  "OIDCIssuerURL (load_env env) = env ''OIDC_ISSUER_URL''"
  "OIDCClientID (load_env env) = env ''OIDC_CLIENT_ID''"
  "OIDCClientSecret (load_env env) = env ''OIDC_CLIENT_SECRET''"
  "OIDCRedirectURL (load_env env) = env ''OIDC_REDIRECT_URL''"
  by (simp_all add: load_env_def)

lemma load_Inr:
  assumes "load order rand env = Inr cfg"
  obtains mode where
    "resolve_auth_mode (env ''COZYTEMPL_AUTH_MODE'') (env ''COZYTEMPL_DEV_MODE'' = envTrue)
       (env ''OIDC_ISSUER_URL'' \<noteq> '''') = Inr mode"
    "validate_for_mode order
       ((load_env env)\<lparr>AuthMode := mode, DevMode := (mode = AuthModeDev)\<rparr>) = None"
    "cfg = (load_env env)\<lparr>AuthMode := mode, DevMode := (mode = AuthModeDev)\<rparr> \<and>
       \<not> (mode = AuthModeDev \<and> weak_secret (env ''SESSION_SECRET''))
     \<or> (\<exists>b. rand devSessionSecretRandomBytes = Inr b \<and> mode = AuthModeDev \<and>
          cfg = (load_env env)\<lparr>AuthMode := mode, DevMode := True, SessionSecret := hex_encode b\<rparr>)"
  using assms that
  by (auto simp: load_def Let_def random_secret_def split: sum.splits option.splits if_splits)

section \<open>Properties\<close>

text \<open>
  C17: whatever \<open>Load\<close> returns is safe to boot with, for every iteration order of the map of
  required variables: the mode is one of the five, the session secret is neither empty nor the
  placeholder, dev mode is entered only on an explicit request (and \<open>DevMode\<close> says so
  exactly), and a mode that talks to an OIDC provider has all four of its settings.
\<close>

theorem load_sound:
  assumes "load order rand env = Inr cfg"
    and "\<And>xs. mset (order xs) = mset xs"
    and "\<And>n b. rand n = Inr b \<Longrightarrow> length b = n"
  shows "auth_mode_valid (AuthMode cfg) \<and> \<not> weak_secret (SessionSecret cfg)
    \<and> (DevMode cfg \<longleftrightarrow> AuthMode cfg = AuthModeDev)
    \<and> (DevMode cfg \<longleftrightarrow> env ''COZYTEMPL_DEV_MODE'' = ''true'' \<or> env ''COZYTEMPL_AUTH_MODE'' = ''dev'')
    \<and> (AuthMode cfg \<in> {AuthModePassthrough, AuthModeImpersonationLegacy} \<longrightarrow>
         OIDCIssuerURL cfg \<noteq> '''' \<and> OIDCClientID cfg \<noteq> '''' \<and> OIDCClientSecret cfg \<noteq> '''' \<and>
         OIDCRedirectURL cfg \<noteq> '''')"
proof -
  obtain mode where m:
    "resolve_auth_mode (env ''COZYTEMPL_AUTH_MODE'') (env ''COZYTEMPL_DEV_MODE'' = envTrue)
       (env ''OIDC_ISSUER_URL'' \<noteq> '''') = Inr mode"
    and v: "validate_for_mode order
       ((load_env env)\<lparr>AuthMode := mode, DevMode := (mode = AuthModeDev)\<rparr>) = None"
    and c: "cfg = (load_env env)\<lparr>AuthMode := mode, DevMode := (mode = AuthModeDev)\<rparr> \<and>
       \<not> (mode = AuthModeDev \<and> weak_secret (env ''SESSION_SECRET''))
     \<or> (\<exists>b. rand devSessionSecretRandomBytes = Inr b \<and> mode = AuthModeDev \<and>
          cfg = (load_env env)\<lparr>AuthMode := mode, DevMode := True, SessionSecret := hex_encode b\<rparr>)"
    using assms(1) by (rule load_Inr)
  have dev: "mode = AuthModeDev \<longleftrightarrow> env ''COZYTEMPL_DEV_MODE'' = ''true'' \<or>
      env ''COZYTEMPL_AUTH_MODE'' = ''dev''"
    using m resolve_auth_mode_dev [of "env ''COZYTEMPL_AUTH_MODE''"
        "env ''COZYTEMPL_DEV_MODE'' = envTrue" "env ''OIDC_ISSUER_URL'' \<noteq> ''''"]
    by (auto simp: envTrue_def AuthModeDev_def)
  note v = v [unfolded validate_for_mode_None [OF assms(2)], simplified]
  from c show ?thesis
  proof
    assume "cfg = (load_env env)\<lparr>AuthMode := mode, DevMode := (mode = AuthModeDev)\<rparr> \<and>
       \<not> (mode = AuthModeDev \<and> weak_secret (env ''SESSION_SECRET''))"
    with v dev show ?thesis by auto
  next
    assume "\<exists>b. rand devSessionSecretRandomBytes = Inr b \<and> mode = AuthModeDev \<and>
          cfg = (load_env env)\<lparr>AuthMode := mode, DevMode := True, SessionSecret := hex_encode b\<rparr>"
    then obtain b where b: "rand devSessionSecretRandomBytes = Inr b" "mode = AuthModeDev"
      "cfg = (load_env env)\<lparr>AuthMode := mode, DevMode := True, SessionSecret := hex_encode b\<rparr>"
      by blast
    have "b \<noteq> []" using assms(3) [OF b(1)] by (auto simp: devSessionSecretRandomBytes_def)
    then have "\<not> weak_secret (hex_encode b)" by (rule hex_encode_strong)
    with v dev b show ?thesis by simp
  qed
qed

definition sample_env :: environ where
  "sample_env k =
     (if k = ''OIDC_ISSUER_URL'' then ''https://kc.example.org/realms/c''
      else if k = ''OIDC_CLIENT_ID'' then ''cozytempl''
      else if k = ''OIDC_CLIENT_SECRET'' then ''s3cret''
      else if k = ''OIDC_REDIRECT_URL'' then ''https://ui.example.org/auth/callback''
      else if k = ''SESSION_SECRET'' then ''0123456789abcdef'' else '''')"

lemma load_sample:
  "load rev (\<lambda>n. Inr (replicate n 7)) sample_env =
     Inr ((load_env sample_env)\<lparr>AuthMode := AuthModePassthrough, DevMode := False\<rparr>)"
  by code_simp

theorem load_sound_witness:
  "auth_mode_valid AuthModePassthrough \<and> \<not> weak_secret ''0123456789abcdef''"
  using load_sound [OF load_sample] by (simp add: sample_env_def)

end
