(* ===== verification/Go_Regexp.thy ===== *)
theory Go_Regexp
  imports Go_Prelude
begin

text \<open>
  The fragment of \<open>regexp\<close> the validators of the code use: patterns of the shape
  \<open>^...$\<close>, so that \<open>MatchString\<close> is membership of the whole string in a language. A
  pattern is a value of \<open>rexp\<close>; \<open>matches\<close> decides membership by derivatives and is
  proved against the language. The locale \<open>name_rule\<close> is the contract that the name
  validators of the packages share; each of them is interpreted in its own theory.
\<close>

datatype rexp =
    Zero
  | Eps
  | Cls "char \<Rightarrow> bool"
  | Alt rexp rexp
  | Seq rexp rexp
  | Star rexp

abbreviation Opt :: "rexp \<Rightarrow> rexp" where
  "Opt r \<equiv> Alt Eps r"

text \<open>\<open>r{0,n}\<close> and \<open>r{1,n}\<close>.\<close>

fun up_to :: "nat \<Rightarrow> rexp \<Rightarrow> rexp" where
  "up_to 0 r = Eps"
| "up_to (Suc n) r = Opt (Seq r (up_to n r))"

definition one_to :: "nat \<Rightarrow> rexp \<Rightarrow> rexp" where
  "one_to n r = Seq r (up_to (n - 1) r)"

section \<open>The language of a pattern\<close>

inductive_set star_lang :: "string set \<Rightarrow> string set" for A where
  star_nil: "[] \<in> star_lang A"
| star_app: "x \<in> A \<Longrightarrow> y \<in> star_lang A \<Longrightarrow> x @ y \<in> star_lang A"

fun lang :: "rexp \<Rightarrow> string set" where
  "lang Zero = {}"
| "lang Eps = {[]}"
| "lang (Cls p) = {[c] | c. p c}"
| "lang (Alt r s) = lang r \<union> lang s"
| "lang (Seq r s) = {x @ y | x y. x \<in> lang r \<and> y \<in> lang s}"
| "lang (Star r) = star_lang (lang r)"

section \<open>The matcher\<close>

fun nullable :: "rexp \<Rightarrow> bool" where
  "nullable Zero = False"
| "nullable Eps = True"
| "nullable (Cls p) = False"
| "nullable (Alt r s) = (nullable r \<or> nullable s)"
| "nullable (Seq r s) = (nullable r \<and> nullable s)"
| "nullable (Star r) = True"

fun deriv :: "char \<Rightarrow> rexp \<Rightarrow> rexp" where
  "deriv c Zero = Zero"
| "deriv c Eps = Zero"
| "deriv c (Cls p) = (if p c then Eps else Zero)"
| "deriv c (Alt r s) = Alt (deriv c r) (deriv c s)"
| "deriv c (Seq r s) =
     (if nullable r then Alt (Seq (deriv c r) s) (deriv c s) else Seq (deriv c r) s)"
| "deriv c (Star r) = Seq (deriv c r) (Star r)"

fun matches :: "rexp \<Rightarrow> string \<Rightarrow> bool" where
  "matches r [] = nullable r"
| "matches r (c # cs) = matches (deriv c r) cs"

lemma nullable_lang: "nullable r \<longleftrightarrow> [] \<in> lang r"
  by (induction r) (auto intro: star_lang.intros)

lemma star_lang_Cons:
  "c # w \<in> star_lang A \<longleftrightarrow> (\<exists>x y. w = x @ y \<and> c # x \<in> A \<and> y \<in> star_lang A)"
proof
  show "\<exists>x y. w = x @ y \<and> c # x \<in> A \<and> y \<in> star_lang A" if "c # w \<in> star_lang A"
    using that
  proof (induction "c # w" rule: star_lang.induct)
    case (star_app x y)
    then show ?case by (cases x) auto
  qed
next
  assume "\<exists>x y. w = x @ y \<and> c # x \<in> A \<and> y \<in> star_lang A"
  then show "c # w \<in> star_lang A"
    by (metis append_Cons star_lang.star_app)
qed

lemma Seq_lang_Cons:
  "c # w \<in> lang (Seq r s) \<longleftrightarrow>
     (\<exists>x y. w = x @ y \<and> c # x \<in> lang r \<and> y \<in> lang s) \<or> ([] \<in> lang r \<and> c # w \<in> lang s)"
  by (auto simp: Cons_eq_append_conv)

lemma deriv_lang: "w \<in> lang (deriv c r) \<longleftrightarrow> c # w \<in> lang r"
proof (induction r arbitrary: w)
  case (Seq r s)
  have "w \<in> lang (deriv c (Seq r s)) \<longleftrightarrow>
      (\<exists>x y. w = x @ y \<and> x \<in> lang (deriv c r) \<and> y \<in> lang s)
      \<or> (nullable r \<and> w \<in> lang (deriv c s))"
    by auto
  then show ?case
    by (simp only: Seq.IH Seq_lang_Cons nullable_lang)
next
  case (Star r)
  then show ?case by (auto simp: star_lang_Cons)
qed auto

theorem matches_lang: "matches r w \<longleftrightarrow> w \<in> lang r"
  by (induction w arbitrary: r) (simp_all add: nullable_lang deriv_lang)

section \<open>The shapes the code uses\<close>

text \<open>Character classes.\<close>

definition lower_char :: "char \<Rightarrow> bool" where
  "lower_char c = (CHR ''a'' \<le> c \<and> c \<le> CHR ''z'')"

definition upper_char :: "char \<Rightarrow> bool" where
  "upper_char c = (CHR ''A'' \<le> c \<and> c \<le> CHR ''Z'')"

definition lower_alnum :: "char \<Rightarrow> bool" where
  "lower_alnum c = (lower_char c \<or> is_digit c)"

definition alnum :: "char \<Rightarrow> bool" where
  "alnum c = (lower_char c \<or> is_digit c \<or> upper_char c)"

lemmas char_class_defs = lower_char_def upper_char_def lower_alnum_def alnum_def is_digit_def

text \<open>\<open>^[ends]([mid]*[ends])?$\<close>\<close>

definition bounded_word :: "(char \<Rightarrow> bool) \<Rightarrow> (char \<Rightarrow> bool) \<Rightarrow> rexp" where
  "bounded_word ends mid = Seq (Cls ends) (Opt (Seq (Star (Cls mid)) (Cls ends)))"

text \<open>\<open>^[first][rest]*$\<close>\<close>

definition headed_word :: "(char \<Rightarrow> bool) \<Rightarrow> (char \<Rightarrow> bool) \<Rightarrow> rexp" where
  "headed_word first rest = Seq (Cls first) (Star (Cls rest))"

lemma star_Cls: "w \<in> lang (Star (Cls p)) \<longleftrightarrow> (\<forall>c\<in>set w. p c)"
proof
  show "\<forall>c\<in>set w. p c" if "w \<in> lang (Star (Cls p))"
    using that unfolding lang.simps by (induction rule: star_lang.induct) auto
next
  assume "\<forall>c\<in>set w. p c"
  then show "w \<in> lang (Star (Cls p))"
  proof (induction w)
    case (Cons c w)
    then have "[c] @ w \<in> star_lang {[c] | c. p c}"
      by (intro star_lang.star_app) auto
    then show ?case by simp
  qed (simp add: star_lang.intros)
qed

lemma Seq_Cls_head: "w \<in> lang (Seq (Cls p) r) \<longleftrightarrow> (\<exists>a u. w = a # u \<and> p a \<and> u \<in> lang r)"
proof
  assume "\<exists>a u. w = a # u \<and> p a \<and> u \<in> lang r"
  then obtain a u where "w = [a] @ u" "[a] \<in> lang (Cls p)" "u \<in> lang r" by auto
  then show "w \<in> lang (Seq (Cls p) r)" unfolding lang.simps(5) by blast
qed auto

lemma Seq_Cls_last: "w \<in> lang (Seq r (Cls p)) \<longleftrightarrow> (\<exists>u b. w = u @ [b] \<and> u \<in> lang r \<and> p b)"
proof
  assume "\<exists>u b. w = u @ [b] \<and> u \<in> lang r \<and> p b"
  then obtain u b where "w = u @ [b]" "[b] \<in> lang (Cls p)" "u \<in> lang r" by auto
  then show "w \<in> lang (Seq r (Cls p))" unfolding lang.simps(5) by blast
qed auto

lemma Opt_lang: "w \<in> lang (Opt r) \<longleftrightarrow> w = [] \<or> w \<in> lang r"
  by simp

lemmas shape_lang = Seq_Cls_head Seq_Cls_last Opt_lang star_Cls

lemma bounded_word_shape:
  "matches (bounded_word e m) w \<longleftrightarrow>
     (\<exists>a. e a \<and> (w = [a] \<or> (\<exists>u b. w = a # u @ [b] \<and> (\<forall>c\<in>set u. m c) \<and> e b)))"
  unfolding matches_lang bounded_word_def shape_lang by blast

lemma bounded_word_iff:
  "matches (bounded_word e m) w \<longleftrightarrow>
     w \<noteq> [] \<and> e (hd w) \<and> e (last w) \<and> (\<forall>c\<in>set (butlast (tl w)). m c)"
  unfolding bounded_word_shape
proof
  assume R: "w \<noteq> [] \<and> e (hd w) \<and> e (last w) \<and> (\<forall>c\<in>set (butlast (tl w)). m c)"
  then obtain a v where w: "w = a # v" by (cases w) auto
  show "\<exists>a. e a \<and> (w = [a] \<or> (\<exists>u b. w = a # u @ [b] \<and> (\<forall>c\<in>set u. m c) \<and> e b))"
  proof (cases v rule: rev_cases)
    case Nil
    with R w show ?thesis by simp
  next
    case (snoc u b)
    with R w have "e a" "e b" "\<forall>c\<in>set u. m c" by auto
    with w snoc show ?thesis by blast
  qed
qed auto

lemma headed_word_iff:
  "matches (headed_word f r) w \<longleftrightarrow> w \<noteq> [] \<and> f (hd w) \<and> (\<forall>c\<in>set (tl w). r c)"
  unfolding matches_lang headed_word_def shape_lang by (cases w) auto

lemma up_to_Cls: "w \<in> lang (up_to n (Cls p)) \<longleftrightarrow> length w \<le> n \<and> (\<forall>c\<in>set w. p c)"
proof (induction n arbitrary: w)
  case (Suc n)
  show ?case
    unfolding up_to.simps shape_lang Suc.IH by (cases w) auto
qed auto

lemma one_to_iff:
  "0 < n \<Longrightarrow> matches (one_to n (Cls p)) w \<longleftrightarrow>
     w \<noteq> [] \<and> length w \<le> n \<and> (\<forall>c\<in>set w. p c)"
  unfolding matches_lang one_to_def shape_lang up_to_Cls by (cases w) auto

section \<open>What a name validator promises\<close>

text \<open>
  A validator accepts only non-empty names that start and end with an end character and have
  only the listed characters between them. The clients rely on the consequences: which
  characters a name cannot hold, and that prefixing an accepted name keeps it a name.
\<close>

locale name_rule =
  fixes accepts :: "string \<Rightarrow> bool"
    and ends :: "char \<Rightarrow> bool"
    and mid :: "char \<Rightarrow> bool"
    and fits :: "nat \<Rightarrow> bool"
  assumes accepts_iff:
      "accepts s \<longleftrightarrow> s \<noteq> [] \<and> fits (length s) \<and> matches (bounded_word ends mid) s"
    and ends_mid: "ends c \<Longrightarrow> mid c"
begin

lemma accepts_nonempty: "accepts s \<Longrightarrow> s \<noteq> []"
  by (simp add: accepts_iff)

lemma accepts_fits: "accepts s \<Longrightarrow> fits (length s)"
  by (simp add: accepts_iff)

lemma accepts_chars:
  assumes "accepts s" and "c \<in> set s"
  shows "mid c"
proof -
  from assms(1) have s: "s \<noteq> []" "ends (hd s)" "ends (last s)"
      "\<forall>c\<in>set (butlast (tl s)). mid c"
    by (auto simp: accepts_iff bounded_word_iff)
  obtain a v where av: "s = a # v" using s(1) by (cases s) auto
  show ?thesis
  proof (cases v rule: rev_cases)
    case Nil
    with s assms(2) av ends_mid show ?thesis by auto
  next
    case (snoc u b)
    with s assms(2) av ends_mid show ?thesis by auto
  qed
qed

lemma rejects: "\<not> mid c \<Longrightarrow> c \<in> set s \<Longrightarrow> \<not> accepts s"
  using accepts_chars by blast

lemma accepts_prefixed:
  assumes "accepts s" and "p \<noteq> []" and "ends (hd p)" and "\<forall>c\<in>set p. mid c"
    and "fits (length p + length s)"
  shows "accepts (p @ s)"
proof -
  obtain a q where p: "p = a # q" using assms(2) by (cases p) auto
  have s: "s \<noteq> []" "ends (last s)" using assms(1) by (auto simp: accepts_iff bounded_word_iff)
  have "\<forall>c\<in>set (butlast (q @ s)). mid c"
    using s(1) p assms(1,4) accepts_chars by (auto simp: butlast_append dest: in_set_butlastD)
  with p s assms(3,5) show ?thesis
    unfolding accepts_iff bounded_word_iff by simp
qed

end

end
