(* ===== verification/Go_Http.thy ===== *)
theory Go_Http
  imports Go_Regexp
begin

text \<open>
  Requests and responses of \<open>net/http\<close> as the handlers use them. A handler is a function
  from a request and a \<open>writer\<close> to a writer; \<open>writer\<close> records the headers set, the status
  sent (the first \<open>WriteHeader\<close> wins, a body sent before it implies 200) and the body parts in
  order. Rendered templates, JSON payloads and toasts are body parts of their own, so that a
  property can say what reached the client. \<open>statusRecorder\<close> of the access log is the
  status of the writer.
\<close>

record request =
  r_method :: string
  r_path :: string
  r_query :: "(string, string) gomap"
  r_form :: "(string, string list) gomap"
  r_form_err :: "gerr option"
  r_header :: "(string, string) gomap"
  r_path_value :: "(string, string) gomap"
  r_remote_addr :: string
  r_host :: string
  r_tls :: bool

definition blank_request :: request where
  "blank_request = \<lparr>r_method = ''GET'', r_path = ''/'', r_query = [], r_form = [],
     r_form_err = None, r_header = [], r_path_value = [], r_remote_addr = '''', r_host = '''',
     r_tls = False\<rparr>"

definition query_get :: "request \<Rightarrow> string \<Rightarrow> string" where
  "query_get req k = mget_or '''' (r_query req) k"

definition header_get :: "request \<Rightarrow> string \<Rightarrow> string" where
  "header_get req k = mget_or '''' (r_header req) k"

definition path_value :: "request \<Rightarrow> string \<Rightarrow> string" where
  "path_value req k = mget_or '''' (r_path_value req) k"

text \<open>\<open>req.FormValue\<close>: the first value of the field.\<close>

definition form_value :: "request \<Rightarrow> string \<Rightarrow> string" where
  "form_value req k = (case map_of (r_form req) k of Some (v # _) \<Rightarrow> v | _ \<Rightarrow> '''')"

section \<open>Responses\<close>

datatype 'p body =
    BText string        \<comment> \<open>plain text and \<open>http.Error\<close>\<close>
  | BJson 'p            \<comment> \<open>\<open>api.JSON\<close>\<close>
  | BJsonErr string     \<comment> \<open>\<open>api.Error\<close>\<close>
  | BToast string string \<comment> \<open>an out-of-band toast: kind and message\<close>
  | BForm string string \<comment> \<open>a sign-in form: its name and the inline error\<close>
  | BView string        \<comment> \<open>a rendered template, by name\<close>
  | BHtml string        \<comment> \<open>markup written directly\<close>
  | BPage 'p            \<comment> \<open>a rendered template with the data it shows\<close>

text \<open>
  \<open>w_code\<close> is the status on the wire: the first \<open>WriteHeader\<close> wins, and writing a body without one
  implies 200. \<open>w_recorded\<close> is what a \<open>statusRecorder\<close> (\<open>internal/api/requestid.go\<close>) around the writer
  holds: it starts at 200, takes every \<open>WriteHeader\<close>, also one that comes too late, and does not see the
  implicit one.
\<close>

record 'p writer =
  w_header :: "(string, string) gomap"
  w_code :: "int option"
  w_recorded :: int
  w_body :: "'p body list"

definition new_writer :: "'p writer" where
  "new_writer = \<lparr>w_header = [], w_code = None, w_recorded = 200, w_body = []\<rparr>"

definition set_header :: "string \<Rightarrow> string \<Rightarrow> 'p writer \<Rightarrow> 'p writer" where
  "set_header k v w = w\<lparr>w_header := mput k v (w_header w)\<rparr>"

definition write_header :: "int \<Rightarrow> 'p writer \<Rightarrow> 'p writer" where
  "write_header c w =
     (let w' = w\<lparr>w_recorded := c\<rparr>
      in case w_code w of None \<Rightarrow> w'\<lparr>w_code := Some c\<rparr> | Some _ \<Rightarrow> w')"

definition implicit_ok :: "'p writer \<Rightarrow> 'p writer" where
  "implicit_ok w = (case w_code w of None \<Rightarrow> w\<lparr>w_code := Some 200\<rparr> | Some _ \<Rightarrow> w)"

definition write_body :: "'p body \<Rightarrow> 'p writer \<Rightarrow> 'p writer" where
  "write_body b w = (let w' = implicit_ok w in w'\<lparr>w_body := w_body w' @ [b]\<rparr>)"

definition http_error :: "string \<Rightarrow> int \<Rightarrow> 'p writer \<Rightarrow> 'p writer" where
  "http_error msg c w =
     write_body (BText msg) (write_header c
       (set_header ''X-Content-Type-Options'' ''nosniff''
         (set_header ''Content-Type'' ''text/plain; charset=utf-8'' w)))"

definition http_redirect :: "string \<Rightarrow> int \<Rightarrow> 'p writer \<Rightarrow> 'p writer" where
  "http_redirect url c w = write_header c (set_header ''Location'' url w)"

text \<open>\<open>internal/api/response.go\<close>: the two JSON writers.\<close>

definition api_json :: "int \<Rightarrow> 'p \<Rightarrow> 'p writer \<Rightarrow> 'p writer" where
  "api_json status v w =
     write_body (BJson v) (write_header status (set_header ''Content-Type'' ''application/json'' w))"

definition api_error :: "int \<Rightarrow> string \<Rightarrow> 'p writer \<Rightarrow> 'p writer" where
  "api_error status msg w =
     write_body (BJsonErr msg)
       (write_header status (set_header ''Content-Type'' ''application/json'' w))"

definition sent_header :: "'p writer \<Rightarrow> string \<Rightarrow> string option" where
  "sent_header w k = map_of (w_header w) k"

lemmas writer_defs =
  set_header_def write_header_def implicit_ok_def write_body_def http_error_def http_redirect_def
  api_json_def api_error_def new_writer_def sent_header_def Let_def

lemma write_header_first [simp]: "w_code w = None \<Longrightarrow> w_code (write_header c w) = Some c"
  by (simp add: write_header_def Let_def)

lemma write_header_keeps [simp]:
  "w_code w = Some d \<Longrightarrow> w_code (write_header c w) = Some d"
  by (simp add: write_header_def Let_def)

lemma w_recorded_simps [simp]:
  "w_recorded (write_header c w) = c" "w_recorded (write_body b w) = w_recorded w"
  "w_recorded (set_header k v w) = w_recorded w" "w_recorded new_writer = 200"
  by (simp_all add: write_header_def write_body_def implicit_ok_def set_header_def new_writer_def Let_def split: option.split)

lemma w_body_write_header [simp]: "w_body (write_header c w) = w_body w"
  by (simp add: write_header_def Let_def split: option.splits)

lemma w_header_write_header [simp]: "w_header (write_header c w) = w_header w"
  by (simp add: write_header_def Let_def split: option.splits)

lemma set_header_sel [simp]:
  "w_code (set_header k v w) = w_code w" "w_body (set_header k v w) = w_body w"
  "w_header (set_header k v w) = mput k v (w_header w)"
  by (simp_all add: set_header_def)

lemma write_body_sel [simp]:
  "w_body (write_body b w) = w_body w @ [b]"
  "w_header (write_body b w) = w_header w"
  "w_code (write_body b w) = w_code (write_header 200 w)"
  by (simp_all add: write_body_def write_header_def implicit_ok_def Let_def split: option.split)

lemma http_error_sel [simp]:
  "w_body (http_error m c w) = w_body w @ [BText m]"
  "w_code w = None \<Longrightarrow> w_code (http_error m c w) = Some c"
  by (simp_all add: http_error_def)

lemma http_redirect_sel [simp]:
  "w_body (http_redirect u c w) = w_body w"
  "w_code w = None \<Longrightarrow> w_code (http_redirect u c w) = Some c"
  "sent_header (http_redirect u c w) ''Location'' = Some u"
  by (simp_all add: http_redirect_def sent_header_def)

lemma api_error_sel [simp]:
  "w_body (api_error c m w) = w_body w @ [BJsonErr m]"
  "w_code w = None \<Longrightarrow> w_code (api_error c m w) = Some c"
  by (simp_all add: api_error_def)

lemma api_json_sel [simp]:
  "w_body (api_json c v w) = w_body w @ [BJson v]"
  "w_code w = None \<Longrightarrow> w_code (api_json c v w) = Some c"
  by (simp_all add: api_json_def)

lemma new_writer_sel [simp]:
  "w_code new_writer = None" "w_body new_writer = []" "w_header new_writer = []"
  by (simp_all add: new_writer_def)

section \<open>Escaping\<close>

text \<open>\<open>html.EscapeString\<close>.\<close>

definition escape_char :: "char \<Rightarrow> string" where
  "escape_char c =
     (if c = CHR ''&'' then ''&amp;'' else if c = CHR 0x27 then ''&#39;''
      else if c = CHR ''<'' then ''&lt;'' else if c = CHR ''>'' then ''&gt;''
      else if c = CHR 0x22 then ''&#34;'' else [c])"

definition html_escape :: "string \<Rightarrow> string" where
  "html_escape s = concat (map escape_char s)"

lemma escape_char_inert:
  "set (escape_char c) \<inter> {CHR ''<'', CHR ''>'', CHR 0x22, CHR 0x27} = {}"
  by (auto simp: escape_char_def)

lemma html_escape_inert:
  "set (html_escape s) \<inter> {CHR ''<'', CHR ''>'', CHR 0x22, CHR 0x27} = {}"
  using escape_char_inert by (fastforce simp: html_escape_def)

text \<open>The five entities are a prefix code, so escaping loses nothing.\<close>

lemma escape_char_prefix_code:
  "escape_char c @ x = escape_char d @ y \<Longrightarrow> c = d \<and> x = y"
  by (auto simp: escape_char_def split: if_splits)

lemma escape_char_not_Nil [simp]: "escape_char c \<noteq> []"
  by (simp add: escape_char_def)

lemma html_escape_inj: "html_escape s = html_escape t \<Longrightarrow> s = t"
proof (induction s arbitrary: t)
  case Nil
  then show ?case by (cases t) (auto simp: html_escape_def)
next
  case (Cons c s)
  then obtain d t' where t: "t = d # t'" by (cases t) (auto simp: html_escape_def)
  with Cons.prems have "c = d \<and> html_escape s = html_escape t'"
    using escape_char_prefix_code [of c "html_escape s" d "html_escape t'"]
    by (simp add: html_escape_def)
  with Cons.IH t show ?case by blast
qed

text \<open>\<open>url.QueryEscape\<close>.\<close>

definition hex_digit :: "nat \<Rightarrow> char" where
  "hex_digit n = (if n < 10 then char_of (48 + n) else char_of (55 + n))"

definition query_escape_char :: "char \<Rightarrow> string" where
  "query_escape_char c =
     (if alnum c \<or> c \<in> set ''-_.~'' then [c]
      else if c = CHR '' '' then ''+''
      else [CHR ''%'', hex_digit (of_char c div 16), hex_digit (of_char c mod 16)])"

definition query_escape :: "string \<Rightarrow> string" where
  "query_escape s = concat (map query_escape_char s)"

end
