(* ===== verification/Kube_Sdk.thy ===== *)
theory Kube_Sdk
  imports Go_Prelude
begin

text \<open>
  The types of the Kubernetes client libraries that the code passes around, and the shape of
  the calls it makes into them. None of the library's code is modelled: a client is a record of
  functions that every definition using it takes as an argument, so a theorem holds whatever
  the cluster answers. Each call receives the state of the cluster and returns the next one;
  since a call may change that state in any way, writers that act between two calls of the same
  operation are included.
\<close>

section \<open>client-go: rest.Config\<close>

record impersonation =
  im_user :: string
  im_uid :: string
  im_groups :: "string list"
  im_extra :: "(string, string list) gomap"

definition no_impersonation :: impersonation where
  "no_impersonation = \<lparr>im_user = '''', im_uid = '''', im_groups = [], im_extra = []\<rparr>"

text \<open>
  \<open>rc_rest\<close> stands for the fields the code never names (TLS data, proxies, QPS ...). The
  timeout is in nanoseconds, as a \<open>time.Duration\<close>.
\<close>

record rest_config =
  rc_host :: string
  rc_bearer_token :: string
  rc_bearer_token_file :: string
  rc_username :: string
  rc_password :: string
  rc_impersonate :: impersonation
  rc_timeout :: int
  rc_rest :: string

section \<open>clientcmd\<close>

record auth_info =
  ai_exec :: bool
  ai_auth_provider :: bool

record kubeconfig =
  kf_current_context :: string
  kf_contexts :: "(string, string) gomap"
  kf_auth_infos :: "(string, auth_info) gomap"

record clientcmd =
  cc_load :: "string \<Rightarrow> kubeconfig res"
  cc_rest_config :: "string \<Rightarrow> rest_config res"

text \<open>
  What the two upload probes call: building a clientset from a configuration, then one
  SelfSubjectAccessReview through it.
\<close>

record review_api =
  ra_new_for_config :: "rest_config \<Rightarrow> gerr option"
  ra_create_review :: "rest_config \<Rightarrow> gerr option"

section \<open>client-go: dynamic.Interface\<close>

record gvr =
  g_group :: string
  g_version :: string
  g_resource :: string

definition mk_gvr :: "string \<Rightarrow> string \<Rightarrow> string \<Rightarrow> gvr" where
  "mk_gvr g v r = \<lparr>g_group = g, g_version = v, g_resource = r\<rparr>"

record list_options =
  lo_label_selector :: string
  lo_field_selector :: string
  lo_limit :: int
  lo_resource_version :: string

definition no_options :: list_options where
  "no_options = \<lparr>lo_label_selector = '''', lo_field_selector = '''', lo_limit = 0,
     lo_resource_version = ''''\<rparr>"

record kube_list =
  kl_items :: "jobj list"
  kl_continue :: string

text \<open>
  An object is the map inside \<open>unstructured.Unstructured\<close>. The namespace is empty for a
  cluster-wide call.
\<close>

record 'w kube =
  k_list :: "gvr \<Rightarrow> string \<Rightarrow> list_options \<Rightarrow> 'w \<Rightarrow> 'w \<times> kube_list res"
  k_get :: "gvr \<Rightarrow> string \<Rightarrow> string \<Rightarrow> 'w \<Rightarrow> 'w \<times> jobj res"
  k_create :: "gvr \<Rightarrow> string \<Rightarrow> jobj \<Rightarrow> 'w \<Rightarrow> 'w \<times> jobj res"
  k_update :: "gvr \<Rightarrow> string \<Rightarrow> jobj \<Rightarrow> 'w \<Rightarrow> 'w \<times> jobj res"
  k_delete :: "gvr \<Rightarrow> string \<Rightarrow> string \<Rightarrow> 'w \<Rightarrow> 'w \<times> gerr option"

text \<open>
  Where a client comes from: the kubeconfig parser, \<open>dynamic.NewForConfig\<close>, building a
  clientset, and the access review asking whether the caller may watch a resource.
\<close>

record 'w sdk =
  sdk_rest_config :: "string \<Rightarrow> rest_config res"
  sdk_dynamic :: "rest_config \<Rightarrow> ('w kube) res"
  sdk_clientset :: "rest_config \<Rightarrow> gerr option"
  sdk_may_watch :: "rest_config \<Rightarrow> gvr \<Rightarrow> string \<Rightarrow> bool res"

text \<open>Predicates of \<open>apimachinery/pkg/api/errors\<close>.\<close>

record api_errors =
  ae_is_conflict :: "gerr \<Rightarrow> bool"
  ae_is_forbidden :: "gerr \<Rightarrow> bool"
  ae_is_unauthorized :: "gerr \<Rightarrow> bool"
  ae_is_not_found :: "gerr \<Rightarrow> bool"

section \<open>apimachinery: accessors of an unstructured object\<close>

text \<open>
  \<open>u_string obj path\<close> and its companions are the \<open>unstructured.Nested...\<close> functions: \<open>None\<close>
  where the field is absent or of another type; the code tells the two apart only in messages
  it logs. \<open>GetLabels\<close> may be nil, and a zero creation timestamp is \<open>None\<close>. The setters are
  those the code calls.
\<close>

record unstr =
  u_name :: "jobj \<Rightarrow> string"
  u_namespace :: "jobj \<Rightarrow> string"
  u_kind :: "jobj \<Rightarrow> string"
  u_labels :: "jobj \<Rightarrow> (string, string) gomap option"
  u_resource_version :: "jobj \<Rightarrow> string"
  u_created :: "jobj \<Rightarrow> int option"
  u_string :: "jobj \<Rightarrow> string list \<Rightarrow> string option"
  u_int64 :: "jobj \<Rightarrow> string list \<Rightarrow> int option"
  u_map :: "jobj \<Rightarrow> string list \<Rightarrow> jobj option"
  u_slice :: "jobj \<Rightarrow> string list \<Rightarrow> jval list option"
  u_string_slice :: "jobj \<Rightarrow> string list \<Rightarrow> string list option"
  u_string_map :: "jobj \<Rightarrow> string list \<Rightarrow> (string, string) gomap option"
  u_field :: "jobj \<Rightarrow> string list \<Rightarrow> jval option"
  u_set_resource_version :: "string \<Rightarrow> jobj \<Rightarrow> jobj"
  u_set_map :: "jobj \<Rightarrow> string list \<Rightarrow> jobj \<Rightarrow> jobj res"

text \<open>What the documentation of the accessors says of the setters.\<close>

definition unstr_laws :: "unstr \<Rightarrow> bool" where
  "unstr_laws U \<longleftrightarrow>
     (\<forall>rv obj. u_resource_version U (u_set_resource_version U rv obj) = rv \<and>
        u_name U (u_set_resource_version U rv obj) = u_name U obj \<and>
        u_map U (u_set_resource_version U rv obj) [''spec''] = u_map U obj [''spec'']) \<and>
     (\<forall>m obj. \<exists>obj'. u_set_map U m [''spec''] obj = Inr obj' \<and> u_map U obj' [''spec''] = Some m \<and>
        u_name U obj' = u_name U obj \<and> u_resource_version U obj' = u_resource_version U obj)"

definition str_or_empty :: "string option \<Rightarrow> string" where
  "str_or_empty o' = (case o' of None \<Rightarrow> '''' | Some s \<Rightarrow> s)"

lemma str_or_empty_simps [simp]: "str_or_empty None = ''''" "str_or_empty (Some s) = s"
  by (simp_all add: str_or_empty_def)

end
