(* ===== verification/Session_Auth.thy ===== *)
theory Session_Auth
  imports Go_Http Config_Load Kube_Sdk
begin

text \<open>
  \<open>internal/auth\<close>: the session cookie (\<open>session.go\<close>), the token handling of the OIDC
  provider (\<open>oidc.go\<close>) and the authentication middleware (\<open>middleware.go\<close>,
  \<open>devmode.go\<close>). The cookie store of gorilla/sessions and the OIDC provider are arguments. A
  middleware does not call its successor but returns the request context it calls it with,
  \<open>None\<close> when it answered itself; the cookies it saved are listed in order.
\<close>

section \<open>session.go\<close>

datatype sval = SvString string | SvStrings "string list" | SvInt int | SvBytes string

record session =
  ses_values :: "(string, sval) gomap"
  ses_max_age :: int

definition sessionKeyToken :: string where "sessionKeyToken = ''id_token''"
definition sessionKeyRefreshToken :: string where "sessionKeyRefreshToken = ''refresh_token''"
definition sessionKeyUser :: string where "sessionKeyUser = ''username''"
definition sessionKeyGroups :: string where "sessionKeyGroups = ''groups''"
definition sessionKeyKubeconfig :: string where "sessionKeyKubeconfig = ''kubeconfig''"
definition sessionKeyBearerToken :: string where "sessionKeyBearerToken = ''bearer_token''"
definition sessionKeyIDTokenExpiry :: string where "sessionKeyIDTokenExpiry = ''id_token_expiry''"

definition aes256KeySize :: nat where "aes256KeySize = 32"
definition sessionMaxAgeSecs :: int where "sessionMaxAgeSecs = 86400"

lemmas session_key_defs =
  sessionKeyToken_def sessionKeyRefreshToken_def sessionKeyUser_def sessionKeyGroups_def
  sessionKeyKubeconfig_def sessionKeyBearerToken_def sessionKeyIDTokenExpiry_def

datatype same_site = SameSiteDefault | SameSiteLax | SameSiteStrict | SameSiteNone

record cookie_options =
  co_path :: string
  co_max_age :: int
  co_http_only :: bool
  co_secure :: bool
  co_same_site :: same_site

record session_store =
  st_hash_key :: "8 word list"
  st_block_key :: "8 word list"
  st_options :: cookie_options

definition pad_or_truncate :: "8 word list \<Rightarrow> nat \<Rightarrow> 8 word list" where
  "pad_or_truncate key n =
     (if n \<le> length key then take n key else key @ replicate (n - length key) 0)"

definition string_bytes :: "string \<Rightarrow> 8 word list" where
  "string_bytes s = map (\<lambda>c. word_of_nat (of_char c)) s"

text \<open>\<open>NewSessionStore\<close>; the signing key is the argument \<open>random_key\<close>.\<close>

definition new_session_store :: "(nat \<Rightarrow> 8 word list) \<Rightarrow> string \<Rightarrow> session_store" where
  "new_session_store random_key secret =
     \<lparr>st_hash_key = random_key aes256KeySize,
      st_block_key = pad_or_truncate (string_bytes secret) aes256KeySize,
      st_options = \<lparr>co_path = ''/'', co_max_age = sessionMaxAgeSecs, co_http_only = True,
        co_secure = True, co_same_site = SameSiteLax\<rparr>\<rparr>"

text \<open>
  The two operations of the cookie store: reading the session out of a request, and writing it
  back, whose error is the argument. A saved session is what the next request carries.
\<close>

record cookie_store =
  cs_get :: "request \<Rightarrow> session res"
  cs_save :: "session \<Rightarrow> gerr option"

definition store_get :: "cookie_store \<Rightarrow> request \<Rightarrow> session res" where
  "store_get st req =
     (case cs_get st req of Inl e \<Rightarrow> Inl (Fmt ''getting session: '' e '''') | Inr s \<Rightarrow> Inr s)"

definition store_save :: "cookie_store \<Rightarrow> session \<Rightarrow> session list \<Rightarrow> session list \<times> gerr option" where
  "store_save st s cookies =
     (case cs_save st s of
        Some e \<Rightarrow> (cookies, Some (Fmt ''saving session: '' e ''''))
      | None \<Rightarrow> (cookies @ [s], None))"

record user_session =
  us_username :: string
  us_groups :: "string list"
  us_id_token :: string
  us_refresh_token :: string
  us_id_token_expiry :: int

definition no_user_session :: user_session where
  "no_user_session = \<lparr>us_username = '''', us_groups = [], us_id_token = '''',
     us_refresh_token = '''', us_id_token_expiry = 0\<rparr>"

definition put_value :: "string \<Rightarrow> sval \<Rightarrow> session \<Rightarrow> session" where
  "put_value k v s = s\<lparr>ses_values := mput k v (ses_values s)\<rparr>"

definition del_value :: "string \<Rightarrow> session \<Rightarrow> session" where
  "del_value k s = s\<lparr>ses_values := mdel k (ses_values s)\<rparr>"

definition set_user :: "user_session \<Rightarrow> session \<Rightarrow> session" where
  "set_user info s =
     put_value sessionKeyIDTokenExpiry (SvInt (us_id_token_expiry info))
       (put_value sessionKeyRefreshToken (SvString (us_refresh_token info))
         (put_value sessionKeyToken (SvString (us_id_token info))
           (put_value sessionKeyGroups (SvStrings (us_groups info))
             (put_value sessionKeyUser (SvString (us_username info)) s))))"

fun sv_string :: "sval option \<Rightarrow> string" where
  "sv_string (Some (SvString x)) = x" | "sv_string _ = ''''"

fun sv_strings :: "sval option \<Rightarrow> string list" where
  "sv_strings (Some (SvStrings x)) = x" | "sv_strings _ = []"

fun sv_int :: "sval option \<Rightarrow> int" where
  "sv_int (Some (SvInt x)) = x" | "sv_int _ = 0"

fun sv_bytes :: "sval option \<Rightarrow> string" where
  "sv_bytes (Some (SvBytes x)) = x" | "sv_bytes _ = ''''"

definition get_user :: "session \<Rightarrow> user_session" where
  "get_user s =
     \<lparr>us_username = sv_string (map_of (ses_values s) sessionKeyUser),
      us_groups = sv_strings (map_of (ses_values s) sessionKeyGroups),
      us_id_token = sv_string (map_of (ses_values s) sessionKeyToken),
      us_refresh_token = sv_string (map_of (ses_values s) sessionKeyRefreshToken),
      us_id_token_expiry = sv_int (map_of (ses_values s) sessionKeyIDTokenExpiry)\<rparr>"

definition set_kubeconfig :: "string \<Rightarrow> session \<Rightarrow> session" where
  "set_kubeconfig b s = put_value sessionKeyKubeconfig (SvBytes b) s"

definition get_kubeconfig :: "session \<Rightarrow> string option" where
  "get_kubeconfig s =
     (let v = sv_bytes (map_of (ses_values s) sessionKeyKubeconfig)
      in if v = '''' then None else Some v)"

definition set_bearer_token :: "string \<Rightarrow> session \<Rightarrow> session" where
  "set_bearer_token t s = put_value sessionKeyBearerToken (SvString t) s"

definition get_bearer_token :: "session \<Rightarrow> string option" where
  "get_bearer_token s =
     (let v = sv_string (map_of (ses_values s) sessionKeyBearerToken)
      in if v = '''' then None else Some v)"

definition session_clear :: "session \<Rightarrow> session" where
  "session_clear s =
     (del_value sessionKeyBearerToken
       (del_value sessionKeyKubeconfig
         (del_value sessionKeyIDTokenExpiry
           (del_value sessionKeyRefreshToken
             (del_value sessionKeyToken
               (del_value sessionKeyGroups
                 (del_value sessionKeyUser s)))))))\<lparr>ses_max_age := -1\<rparr>"

section \<open>oidc.go\<close>

text \<open>\<open>base64.RawURLEncoding.DecodeString\<close>: line breaks are skipped, no padding.\<close>

definition b64_digit :: "char \<Rightarrow> nat option" where
  "b64_digit c =
     (let n = of_char c :: nat in
      if upper_char c then Some (n - 65)
      else if lower_char c then Some (n - 71)
      else if is_digit c then Some (n + 4)
      else if c = CHR ''-'' then Some 62
      else if c = CHR ''_'' then Some 63
      else None)"

fun b64_groups :: "nat list \<Rightarrow> string option" where
  "b64_groups [] = Some ''''"
| "b64_groups [a] = None"
| "b64_groups [a, b] = Some [char_of (a * 4 + b div 16)]"
| "b64_groups [a, b, c] = Some [char_of (a * 4 + b div 16), char_of (b mod 16 * 16 + c div 4)]"
| "b64_groups (a # b # c # d # rest) =
     (case b64_groups rest of
        None \<Rightarrow> None
      | Some t \<Rightarrow> Some ([char_of (a * 4 + b div 16), char_of (b mod 16 * 16 + c div 4),
            char_of (c mod 4 * 64 + d)] @ t))"

definition b64_decode :: "string \<Rightarrow> string res" where
  "b64_decode s =
     (let ds = map b64_digit (filter (\<lambda>c. c \<noteq> CHR 0x0A \<and> c \<noteq> CHR 0x0D) s)
      in if None \<in> set ds then Inl (Opaque ''illegal base64 data'')
         else (case b64_groups (map the ds) of
                 None \<Rightarrow> Inl (Opaque ''illegal base64 data'') | Some t \<Rightarrow> Inr t))"

definition ErrNoIDToken :: gerr where "ErrNoIDToken = Sentinel ''no id_token in token response''"
definition ErrMalformedJWT :: gerr where "ErrMalformedJWT = Sentinel ''malformed JWT''"

record claims =
  cl_username :: string
  cl_email :: string
  cl_groups :: "string list"

text \<open>What \<open>golang.org/x/oauth2\<close> returns: the refresh token and the extra field \<open>id_token\<close>.\<close>

record oauth_token =
  ot_refresh_token :: string
  ot_id_token :: "jval option"

text \<open>
  The OIDC provider as the code calls it: the two exchanges, the verifier of a raw ID token,
  decoding the claims of a verified one, the redirect URL, and reading the \<open>exp\<close> claim of a
  JSON payload.
\<close>

record oidc_provider =
  op_exchange :: "string \<Rightarrow> oauth_token res"
  op_refresh :: "string \<Rightarrow> oauth_token res"
  op_verify :: "string \<Rightarrow> (claims res) res"
  op_auth_code_url :: "string \<Rightarrow> string"

record exchange_result =
  er_claims :: claims
  er_id_token :: string
  er_refresh_token :: string

definition extract_result :: "oidc_provider \<Rightarrow> oauth_token \<Rightarrow> exchange_result res" where
  "extract_result opr token =
     (case Option.bind (ot_id_token token) as_str of
        None \<Rightarrow> Inl ErrNoIDToken
      | Some raw \<Rightarrow>
          (case op_verify opr raw of
             Inl e \<Rightarrow> Inl (Fmt ''verifying id_token: '' e '''')
           | Inr decoded \<Rightarrow>
               (case decoded of
                  Inl e \<Rightarrow> Inl (Fmt ''parsing claims: '' e '''')
                | Inr c \<Rightarrow>
                    Inr \<lparr>er_claims = (if cl_username c = '''' then c\<lparr>cl_username := cl_email c\<rparr> else c),
                         er_id_token = raw, er_refresh_token = ot_refresh_token token\<rparr>)))"

definition oidc_exchange :: "oidc_provider \<Rightarrow> string \<Rightarrow> exchange_result res" where
  "oidc_exchange opr code =
     (case op_exchange opr code of
        Inl e \<Rightarrow> Inl (Fmt ''exchanging auth code: '' e '''')
      | Inr token \<Rightarrow> extract_result opr token)"

definition oidc_refresh :: "oidc_provider \<Rightarrow> string \<Rightarrow> exchange_result res" where
  "oidc_refresh opr rt =
     (case op_refresh opr rt of
        Inl e \<Rightarrow> Inl (Fmt ''refreshing token: '' e '''')
      | Inr token \<Rightarrow> extract_result opr token)"

definition jwtSegments :: nat where "jwtSegments = 3"

text \<open>
  \<open>IDTokenExpiry\<close>, in Unix seconds. \<open>json_exp\<close> is \<open>json.Unmarshal\<close> into
  \<open>jwtExpiryParts\<close>.
\<close>

definition id_token_expiry :: "(string \<Rightarrow> int res) \<Rightarrow> string \<Rightarrow> int res" where
  "id_token_expiry json_exp raw =
     (let parts = split_on CHR ''.'' raw in
      if length parts \<noteq> jwtSegments then Inl ErrMalformedJWT
      else case b64_decode (parts ! 1) of
        Inl e \<Rightarrow> Inl (Fmt ''decoding jwt payload: '' e '''')
      | Inr payload \<Rightarrow>
          (case json_exp payload of
             Inl e \<Rightarrow> Inl (Fmt ''parsing jwt payload: '' e '''')
           | Inr ex \<Rightarrow> if ex = 0 then Inl (Fmt '''' ErrMalformedJWT '': missing exp claim'') else Inr ex))"

text \<open>\<open>time.Time{}.Unix()\<close>, what the code stores when the expiry could not be read.\<close>

definition zero_time_unix :: int where "zero_time_unix = -62135596800"

definition expiry_unix :: "int res \<Rightarrow> int" where
  "expiry_unix r = (case r of Inl e \<Rightarrow> zero_time_unix | Inr t \<Rightarrow> t)"

section \<open>middleware.go\<close>

record user_context =
  uc_username :: string
  uc_groups :: "string list"
  uc_id_token :: string
  uc_kubeconfig :: string
  uc_bearer_token :: string

text \<open>The two values the middleware attaches to a request context.\<close>

record ctx =
  cx_user :: "user_context option"
  cx_mode :: auth_mode

definition empty_ctx :: ctx where "empty_ctx = \<lparr>cx_user = None, cx_mode = ''''\<rparr>"

definition context_with_user :: "user_context \<Rightarrow> ctx \<Rightarrow> ctx" where
  "context_with_user u c = c\<lparr>cx_user := Some u\<rparr>"

definition context_with_auth_mode :: "auth_mode \<Rightarrow> ctx \<Rightarrow> ctx" where
  "context_with_auth_mode m c = c\<lparr>cx_mode := m\<rparr>"

definition user_from_context :: "ctx \<Rightarrow> user_context option" where
  "user_from_context c = cx_user c"

definition mode_from_context :: "ctx \<Rightarrow> auth_mode" where
  "mode_from_context c = cx_mode c"

record 'p auth_out =
  ao_writer :: "'p writer"
  ao_cookies :: "session list"
  ao_next :: "ctx option"

definition pathAuthLogin :: string where "pathAuthLogin = ''/auth/login''"
definition pathAuthKubeconfig :: string where "pathAuthKubeconfig = ''/auth/kubeconfig''"
definition pathAuthToken :: string where "pathAuthToken = ''/auth/token''"

definition usernameTokenMode :: string where "usernameTokenMode = ''token-user''"

text \<open>\<open>refreshLeadTime\<close>, in nanoseconds.\<close>

definition refreshLeadTime :: int where "refreshLeadTime = 60 * 10 ^ 9"

definition is_api_request :: "request \<Rightarrow> bool" where
  "is_api_request req = has_prefix (r_path req) ''/api/''"

definition error_json :: "string \<Rightarrow> string" where
  \<open>error_json msg = ''{"error":"'' @ msg @ ''"}''\<close>

definition reply_error :: "string \<Rightarrow> int \<Rightarrow> 'p writer \<Rightarrow> session list \<Rightarrow> 'p auth_out" where
  "reply_error msg code w cookies =
     \<lparr>ao_writer = http_error (error_json msg) code w, ao_cookies = cookies, ao_next = None\<rparr>"

definition reply_redirect :: "string \<Rightarrow> int \<Rightarrow> 'p writer \<Rightarrow> session list \<Rightarrow> 'p auth_out" where
  "reply_redirect url code w cookies =
     \<lparr>ao_writer = http_redirect url code w, ao_cookies = cookies, ao_next = None\<rparr>"

text \<open>
  \<open>time.Until\<close> of a Unix time, in nanoseconds: the difference saturates at the bounds of a
  \<open>time.Duration\<close>.
\<close>

definition time_until :: "int \<Rightarrow> int \<Rightarrow> int" where
  "time_until now expiry = max int64_min (min int64_max (expiry * 10 ^ 9 - now))"

definition needs_refresh :: "(string \<Rightarrow> int res) \<Rightarrow> int \<Rightarrow> user_session \<Rightarrow> bool" where
  "needs_refresh json_exp now info =
     (let expiry =
        (if us_id_token_expiry info = 0 then
           (case id_token_expiry json_exp (us_id_token info) of
              Inl e \<Rightarrow> us_id_token_expiry info | Inr t \<Rightarrow> t)
         else us_id_token_expiry info)
      in time_until now expiry < refreshLeadTime)"

definition refreshed_session ::
  "(string \<Rightarrow> int res) \<Rightarrow> user_session \<Rightarrow> exchange_result \<Rightarrow> session \<Rightarrow> session" where
  "refreshed_session json_exp info result s =
     set_user
       \<lparr>us_username = cl_username (er_claims result), us_groups = cl_groups (er_claims result),
        us_id_token = er_id_token result,
        us_refresh_token = (if er_refresh_token result = '''' then us_refresh_token info
                            else er_refresh_token result),
        us_id_token_expiry = expiry_unix (id_token_expiry json_exp (er_id_token result))\<rparr> s"

definition persist_refreshed ::
  "(string \<Rightarrow> int res) \<Rightarrow> cookie_store \<Rightarrow> user_session \<Rightarrow> exchange_result \<Rightarrow> session \<Rightarrow> session list" where
  "persist_refreshed json_exp st info result s =
     fst (store_save st (refreshed_session json_exp info result s) [])"

definition clear_and_redirect ::
  "cookie_store \<Rightarrow> request \<Rightarrow> 'p writer \<Rightarrow> session \<Rightarrow> 'p auth_out" where
  "clear_and_redirect st req w s =
     (let cookies = fst (store_save st (session_clear s) []) in
      if is_api_request req then reply_error ''session expired'' 401 w cookies
      else reply_redirect pathAuthLogin 302 w cookies)"

definition errRefreshUnavailable :: gerr where
  "errRefreshUnavailable = Opaque ''refresh unavailable''"

text \<open>
  \<open>refreshIfNeeded\<close>: the answer already given, or the token to use and the cookies saved.
\<close>

definition refresh_if_needed ::
  "(string \<Rightarrow> int res) \<Rightarrow> int \<Rightarrow> cookie_store \<Rightarrow> oidc_provider option \<Rightarrow> request \<Rightarrow> 'p writer \<Rightarrow>
     session \<Rightarrow> user_session \<Rightarrow> ('p auth_out \<times> gerr) + (string \<times> session list)" where
  "refresh_if_needed json_exp now st oidc req w s info =
     (if \<not> needs_refresh json_exp now info then Inr (us_id_token info, [])
      else case oidc of
        None \<Rightarrow> Inl (clear_and_redirect st req w s, errRefreshUnavailable)
      | Some opr \<Rightarrow>
          if us_refresh_token info = '''' then
            Inl (clear_and_redirect st req w s, errRefreshUnavailable)
          else (case oidc_refresh opr (us_refresh_token info) of
             Inl e \<Rightarrow> Inl (clear_and_redirect st req w s, e)
           | Inr result \<Rightarrow>
               Inr (er_id_token result, persist_refreshed json_exp st info result s)))"

definition serve_oidc ::
  "(string \<Rightarrow> int res) \<Rightarrow> int \<Rightarrow> cookie_store \<Rightarrow> oidc_provider option \<Rightarrow> auth_mode \<Rightarrow> request \<Rightarrow> ctx \<Rightarrow>
     'p writer \<Rightarrow> session \<Rightarrow> user_session \<Rightarrow> 'p auth_out" where
  "serve_oidc json_exp now st oidc mode req c w s info =
     (if us_username info = '''' then reply_error ''not authenticated'' 401 w []
      else
        let proceed = (\<lambda>tok cookies.
              \<lparr>ao_writer = w, ao_cookies = cookies,
               ao_next = Some (context_with_auth_mode mode (context_with_user
                 \<lparr>uc_username = us_username info, uc_groups = us_groups info, uc_id_token = tok,
                  uc_kubeconfig = '''', uc_bearer_token = ''''\<rparr> c))\<rparr>)
        in if mode = AuthModePassthrough then
             (case refresh_if_needed json_exp now st oidc req w s info of
                Inl (out, e) \<Rightarrow> out
              | Inr (tok, cookies) \<Rightarrow> proceed tok cookies)
           else proceed (us_id_token info) [])"

definition serve_byok :: "request \<Rightarrow> ctx \<Rightarrow> 'p writer \<Rightarrow> session \<Rightarrow> user_session \<Rightarrow> 'p auth_out" where
  "serve_byok req c w s info =
     (case get_kubeconfig s of
        None \<Rightarrow>
          if is_api_request req then reply_error ''kubeconfig not uploaded'' 401 w []
          else reply_redirect pathAuthKubeconfig 302 w []
      | Some kc \<Rightarrow>
          \<lparr>ao_writer = w, ao_cookies = [],
           ao_next = Some (context_with_auth_mode AuthModeBYOK (context_with_user
             \<lparr>uc_username = (if us_username info = '''' then ''kubeconfig-user'' else us_username info),
              uc_groups = us_groups info, uc_id_token = '''', uc_kubeconfig = kc,
              uc_bearer_token = ''''\<rparr> c))\<rparr>)"

definition serve_token :: "request \<Rightarrow> ctx \<Rightarrow> 'p writer \<Rightarrow> session \<Rightarrow> user_session \<Rightarrow> 'p auth_out" where
  "serve_token req c w s info =
     (case get_bearer_token s of
        None \<Rightarrow>
          if is_api_request req then reply_error ''token not provided'' 401 w []
          else reply_redirect pathAuthToken 302 w []
      | Some t \<Rightarrow>
          \<lparr>ao_writer = w, ao_cookies = [],
           ao_next = Some (context_with_auth_mode AuthModeToken (context_with_user
             \<lparr>uc_username = (if us_username info = '''' then usernameTokenMode else us_username info),
              uc_groups = us_groups info, uc_id_token = '''', uc_kubeconfig = '''',
              uc_bearer_token = t\<rparr> c))\<rparr>)"

definition require_auth ::
  "(string \<Rightarrow> int res) \<Rightarrow> int \<Rightarrow> cookie_store \<Rightarrow> oidc_provider option \<Rightarrow> auth_mode \<Rightarrow> request \<Rightarrow> ctx \<Rightarrow>
     'p writer \<Rightarrow> 'p auth_out" where
  "require_auth json_exp now st oidc mode req c w =
     (case store_get st req of
        Inl e \<Rightarrow> reply_error ''invalid session'' 401 w []
      | Inr s \<Rightarrow>
          let info = get_user s in
          if mode = AuthModeBYOK then serve_byok req c w s info
          else if mode = AuthModeToken then serve_token req c w s info
          else serve_oidc json_exp now st oidc mode req c w s info)"

section \<open>devmode.go\<close>

text \<open>\<open>DevAuth\<close> attaches the user and leaves the mode of the context alone.\<close>

definition dev_auth :: "string \<Rightarrow> ctx \<Rightarrow> 'p writer \<Rightarrow> 'p auth_out" where
  "dev_auth username c w =
     \<lparr>ao_writer = w, ao_cookies = [],
      ao_next = Some (context_with_user
        \<lparr>uc_username = username, uc_groups = [''system:masters''], uc_id_token = '''',
         uc_kubeconfig = '''', uc_bearer_token = ''''\<rparr> c)\<rparr>"

section \<open>Lemmas on sessions\<close>

lemma put_value_sel [simp]:
  "map_of (ses_values (put_value k v s)) k' = (if k' = k then Some v else map_of (ses_values s) k')"
  "ses_max_age (put_value k v s) = ses_max_age s"
  by (simp_all add: put_value_def)

lemma del_value_sel [simp]:
  "map_of (ses_values (del_value k s)) k' = (if k' = k then None else map_of (ses_values s) k')"
  "ses_max_age (del_value k s) = ses_max_age s"
  by (simp_all add: del_value_def)

lemma get_user_set_user [simp]: "get_user (set_user info s) = info"
  by (simp add: get_user_def set_user_def session_key_defs)

lemma session_clear_value:
  "map_of (ses_values (session_clear s)) k =
     (if k \<in> {sessionKeyUser, sessionKeyGroups, sessionKeyToken, sessionKeyRefreshToken,
         sessionKeyIDTokenExpiry, sessionKeyKubeconfig, sessionKeyBearerToken}
      then None else map_of (ses_values s) k)"
  by (simp add: session_clear_def)

lemma get_user_clear [simp]: "get_user (session_clear s) = no_user_session"
  by (simp add: get_user_def session_clear_value no_user_session_def)

lemma max_age_clear [simp]: "ses_max_age (session_clear s) = -1"
  by (simp add: session_clear_def)

lemma length_pad_or_truncate: "length (pad_or_truncate key n) = n"
  by (simp add: pad_or_truncate_def)

text \<open>
  The contract of the two credentials a session can hold (a kubeconfig, a bearer token): what
  is stored comes back unless it is empty, storing it and storing the user do not disturb each
  other, and clearing the session forgets it.
\<close>

locale credential_slot =
  fixes put :: "string \<Rightarrow> session \<Rightarrow> session"
    and get :: "session \<Rightarrow> string option"
  assumes get_put: "get (put v s) = (if v = '''' then None else Some v)"
    and get_set_user: "get (set_user info s) = get s"
    and get_clear: "get (session_clear s) = None"
    and get_nonempty: "get s = Some v \<Longrightarrow> v \<noteq> ''''"
    and user_put: "get_user (put v s) = get_user s"
begin

lemma signed_in: "v \<noteq> '''' \<Longrightarrow> get (set_user info (put v s)) = Some v"
  by (simp add: get_set_user get_put)

lemma signed_out: "get (session_clear (set_user info (put v s))) = None"
  by (rule get_clear)

lemma replaced: "v \<noteq> '''' \<Longrightarrow> get (put v (put v' s)) = Some v"
  by (simp add: get_put)

end

interpretation kc_slot: credential_slot set_kubeconfig get_kubeconfig
  by unfold_locales
    (auto simp: set_kubeconfig_def get_kubeconfig_def session_clear_value set_user_def get_user_def
      session_key_defs Let_def split: if_splits)

interpretation bt_slot: credential_slot set_bearer_token get_bearer_token
  by unfold_locales
    (auto simp: set_bearer_token_def get_bearer_token_def session_clear_value set_user_def get_user_def
      session_key_defs Let_def split: if_splits)

lemma bearer_put_kubeconfig [simp]: "get_bearer_token (set_kubeconfig b s) = get_bearer_token s"
  by (simp add: get_bearer_token_def set_kubeconfig_def session_key_defs)

lemma kubeconfig_put_bearer [simp]: "get_kubeconfig (set_bearer_token b s) = get_kubeconfig s"
  by (simp add: get_kubeconfig_def set_bearer_token_def session_key_defs)

section \<open>Lemmas on the middleware\<close>

lemma reply_error_sel [simp]:
  "ao_next (reply_error m c w cs) = None" "ao_cookies (reply_error m c w cs) = cs"
  "w_code w = None \<Longrightarrow> w_code (ao_writer (reply_error m c w cs)) = Some c"
  by (simp_all add: reply_error_def)

lemma reply_redirect_sel [simp]:
  "ao_next (reply_redirect u c w cs) = None" "ao_cookies (reply_redirect u c w cs) = cs"
  "w_code w = None \<Longrightarrow> w_code (ao_writer (reply_redirect u c w cs)) = Some c"
  by (simp_all add: reply_redirect_def)

lemma clear_and_redirect_sel:
  "ao_next (clear_and_redirect st req w s) = None"
  "ao_cookies (clear_and_redirect st req w s) =
     (if cs_save st (session_clear s) = None then [session_clear s] else [])"
  "w_code w = None \<Longrightarrow> w_code (ao_writer (clear_and_redirect st req w s)) =
     Some (if is_api_request req then 401 else 302)"
  by (simp_all add: clear_and_redirect_def store_save_def split: option.splits)

lemma context_sel [simp]:
  "cx_user (context_with_auth_mode m c) = cx_user c" "cx_mode (context_with_auth_mode m c) = m"
  "cx_user (context_with_user u c) = Some u" "cx_mode (context_with_user u c) = cx_mode c"
  by (simp_all add: context_with_auth_mode_def context_with_user_def)

lemma refresh_if_needed_Inl:
  "refresh_if_needed json_exp now st oidc req w s info = Inl (out, e) \<Longrightarrow>
     out = clear_and_redirect st req w s"
  by (auto simp: refresh_if_needed_def split: if_splits option.splits sum.splits)

lemma oidc_refresh_Inr:
  "oidc_refresh opr rt = Inr r \<Longrightarrow> \<exists>c. op_verify opr (er_id_token r) = Inr (Inr c)"
  by (auto simp: oidc_refresh_def extract_result_def split: sum.splits option.splits)

lemma serve_byok_next:
  "ao_next (serve_byok req c w s info) =
     map_option (\<lambda>kc. context_with_auth_mode AuthModeBYOK (context_with_user
       \<lparr>uc_username = (if us_username info = '''' then ''kubeconfig-user'' else us_username info),
        uc_groups = us_groups info, uc_id_token = '''', uc_kubeconfig = kc,
        uc_bearer_token = ''''\<rparr> c)) (get_kubeconfig s)"
  by (simp add: serve_byok_def split: option.split)

lemma serve_token_next:
  "ao_next (serve_token req c w s info) =
     map_option (\<lambda>t. context_with_auth_mode AuthModeToken (context_with_user
       \<lparr>uc_username = (if us_username info = '''' then usernameTokenMode else us_username info),
        uc_groups = us_groups info, uc_id_token = '''', uc_kubeconfig = '''',
        uc_bearer_token = t\<rparr> c)) (get_bearer_token s)"
  by (simp add: serve_token_def split: option.split)

lemma serve_oidc_next:
  assumes "ao_next (serve_oidc json_exp now st oidc mode req c w s info) = Some c'"
  obtains tok cookies where "us_username info \<noteq> ''''"
    "serve_oidc json_exp now st oidc mode req c w s info =
       \<lparr>ao_writer = w, ao_cookies = cookies, ao_next = Some c'\<rparr>"
    "c' = context_with_auth_mode mode (context_with_user
       \<lparr>uc_username = us_username info, uc_groups = us_groups info, uc_id_token = tok,
        uc_kubeconfig = '''', uc_bearer_token = ''''\<rparr> c)"
    "mode = AuthModePassthrough \<Longrightarrow>
       refresh_if_needed json_exp now st oidc req w s info = Inr (tok, cookies)"
proof (cases "mode = AuthModePassthrough")
  case True
  with assms show ?thesis
    by (auto simp: serve_oidc_def Let_def clear_and_redirect_sel split: if_splits sum.splits prod.splits
        dest!: refresh_if_needed_Inl intro: that)
next
  case False
  with assms that show ?thesis by (auto simp: serve_oidc_def Let_def split: if_splits)
qed

lemma serve_oidc_stops:
  assumes "ao_next (serve_oidc json_exp now st oidc mode req c w s info) = None" "w_code w = None"
  shows "w_code (ao_writer (serve_oidc json_exp now st oidc mode req c w s info)) \<in> {Some 401, Some 302}"
  using assms
  by (auto simp: serve_oidc_def Let_def clear_and_redirect_sel split: if_splits sum.splits prod.splits
      dest!: refresh_if_needed_Inl)

section \<open>Properties\<close>


definition sample_store :: "session \<Rightarrow> cookie_store" where
  "sample_store s = \<lparr>cs_get = (\<lambda>_. Inr s), cs_save = (\<lambda>_. None)\<rparr>"

definition sample_session :: session where
  "sample_session = set_user no_user_session (set_bearer_token ''abc'' \<lparr>ses_values = [], ses_max_age = 86400\<rparr>)"



definition sample_oidc :: oidc_provider where
  "sample_oidc = \<lparr>op_exchange = (\<lambda>_. Inl (Opaque ''unused'')),
     op_refresh = (\<lambda>rt. if rt = ''r1'' then Inr \<lparr>ot_refresh_token = '''', ot_id_token = Some (JStr ''h.p.s'')\<rparr>
                       else Inl (Opaque ''invalid_grant'')),
     op_verify = (\<lambda>_. Inr (Inr \<lparr>cl_username = '''', cl_email = ''a@b'', cl_groups = [''g'']\<rparr>)),
     op_auth_code_url = (\<lambda>s. ''https://kc/auth?state='' @ s)\<rparr>"

definition sample_stale :: session where
  "sample_stale = set_user \<lparr>us_username = ''ann'', us_groups = [''g''], us_id_token = ''old'',
     us_refresh_token = ''r1'', us_id_token_expiry = 10\<rparr> \<lparr>ses_values = [], ses_max_age = 86400\<rparr>"


end
