(* ===== verification/Auth_Handlers.thy ===== *)
theory Auth_Handlers
  imports Session_Auth
begin

text \<open>
  \<open>internal/auth\<close>: the sign-in handlers. \<open>handler.go\<close> is the OIDC login, its callback and
  logout; \<open>token.go\<close> accepts a pasted bearer token, \<open>byok.go\<close> an uploaded kubeconfig. A
  handler returns the response and the cookies it saved. What the two uploads call in
  client-go is in the records \<open>clientcmd\<close> and \<open>review_api\<close>.
\<close>

section \<open>handler.go\<close>

record auth_handler =
  ah_oidc :: "oidc_provider option"
  ah_store :: cookie_store
  ah_mode :: auth_mode
  ah_base_cfg :: "rest_config option"

definition stateKeyName :: string where "stateKeyName = ''oauth_state''"
definition stateBytes :: nat where "stateBytes = 32"

definition generate_state :: "(nat \<Rightarrow> (8 word list) res) \<Rightarrow> string res" where
  "generate_state rand =
     (case rand stateBytes of Inl e \<Rightarrow> Inl e | Inr b \<Rightarrow> Inr (hex_encode b))"

text \<open>
  \<open>HandleLogin\<close>; the route exists only in the modes that have a provider, the pointer is
  dereferenced without a check.
\<close>

definition handle_login ::
  "(nat \<Rightarrow> (8 word list) res) \<Rightarrow> oidc_provider \<Rightarrow> auth_handler \<Rightarrow> request \<Rightarrow> 'p writer \<Rightarrow> 'p auth_out" where
  "handle_login rand opr hnd req w =
     (case generate_state rand of
        Inl e \<Rightarrow> reply_error ''internal error'' 500 w []
      | Inr state \<Rightarrow>
          (case store_get (ah_store hnd) req of
             Inl e \<Rightarrow> reply_error ''session error'' 500 w []
           | Inr s \<Rightarrow>
               (case store_save (ah_store hnd) (put_value stateKeyName (SvString state) s) [] of
                  (cookies, Some e) \<Rightarrow> reply_error ''session error'' 500 w cookies
                | (cookies, None) \<Rightarrow> reply_redirect (op_auth_code_url opr state) 302 w cookies)))"

text \<open>\<open>validateCallbackState\<close>: the answer already given, or the session without its nonce.\<close>

definition validate_callback_state ::
  "auth_handler \<Rightarrow> request \<Rightarrow> 'p writer \<Rightarrow> 'p auth_out + session" where
  "validate_callback_state hnd req w =
     (case store_get (ah_store hnd) req of
        Inl e \<Rightarrow> Inl (reply_error ''session error'' 500 w [])
      | Inr s \<Rightarrow>
          let expected = sv_string (map_of (ses_values s) stateKeyName);
              actual = query_get req ''state''
          in if expected = '''' \<or> actual \<noteq> expected then
               Inl (reply_error ''invalid oauth state'' 400 w [])
             else Inr (del_value stateKeyName s))"

definition handle_callback ::
  "(string \<Rightarrow> int res) \<Rightarrow> oidc_provider \<Rightarrow> auth_handler \<Rightarrow> request \<Rightarrow> 'p writer \<Rightarrow> 'p auth_out" where
  "handle_callback json_exp opr hnd req w =
     (case validate_callback_state hnd req w of
        Inl out \<Rightarrow> out
      | Inr s \<Rightarrow>
          let code = query_get req ''code'' in
          if code = '''' then reply_error ''missing authorization code'' 400 w []
          else (case oidc_exchange opr code of
             Inl e \<Rightarrow> reply_error ''authentication failed'' 500 w []
           | Inr result \<Rightarrow>
               let s' = set_user
                     \<lparr>us_username = cl_username (er_claims result),
                      us_groups = cl_groups (er_claims result),
                      us_id_token = er_id_token result, us_refresh_token = er_refresh_token result,
                      us_id_token_expiry = expiry_unix (id_token_expiry json_exp (er_id_token result))\<rparr> s
               in (case store_save (ah_store hnd) s' [] of
                     (cookies, Some e) \<Rightarrow> reply_error ''session error'' 500 w cookies
                   | (cookies, None) \<Rightarrow> reply_redirect ''/'' 302 w cookies)))"

definition sign_in_path :: "auth_handler \<Rightarrow> string" where
  "sign_in_path hnd =
     (let m = ah_mode hnd in
      if m = AuthModeBYOK then pathAuthKubeconfig
      else if m = AuthModeToken then pathAuthToken
      else if m = AuthModePassthrough \<or> m = AuthModeImpersonationLegacy then pathAuthLogin
      else if m = AuthModeDev then ''/''
      else pathAuthLogin)"

definition handle_logout :: "auth_handler \<Rightarrow> request \<Rightarrow> 'p writer \<Rightarrow> 'p auth_out" where
  "handle_logout hnd req w =
     (let redirect_to = sign_in_path hnd in
      case store_get (ah_store hnd) req of
        Inl e \<Rightarrow> reply_redirect redirect_to 302 w []
      | Inr s \<Rightarrow>
          reply_redirect redirect_to 302 w (fst (store_save (ah_store hnd) (session_clear s) [])))"

section \<open>token.go\<close>

definition tokenFormField :: string where "tokenFormField = ''token''"
definition tokenMaxBytes :: int where "tokenMaxBytes = 1500"

definition ErrTokenEmpty :: gerr where "ErrTokenEmpty = Sentinel ''paste a Kubernetes Bearer token''"
definition ErrTokenTooLarge :: gerr where
  "ErrTokenTooLarge = Sentinel
     ''token is larger than 1.5 KB; paste a single Bearer token rather than a kubeconfig blob''"
definition ErrTokenUnreachable :: gerr where
  "ErrTokenUnreachable = Sentinel ''apiserver rejected the token''"
definition ErrTokenProbeMisconfigured :: gerr where
  "ErrTokenProbeMisconfigured = Sentinel
     ''probe base config missing; wire k8sCfg into auth.NewHandler''"

text \<open>
  The form is a template; what reaches the browser is its name and the inline error. The
  renderer writes the status 200 with its first byte.
\<close>

definition render_form :: "string \<Rightarrow> string \<Rightarrow> 'p writer \<Rightarrow> session list \<Rightarrow> 'p auth_out" where
  "render_form name msg w cookies =
     \<lparr>ao_writer = write_body (BForm name msg)
        (set_header ''Cache-Control'' ''no-store, private''
          (set_header ''Content-Type'' ''text/html; charset=utf-8'' w)),
      ao_cookies = cookies, ao_next = None\<rparr>"

definition render_token_form :: "string \<Rightarrow> 'p writer \<Rightarrow> 'p auth_out" where
  "render_token_form msg w = render_form ''TokenUpload'' msg w []"

definition handle_token_upload_form :: "'p writer \<Rightarrow> 'p auth_out" where
  "handle_token_upload_form w = render_token_form '''' w"

text \<open>\<open>%w: %v\<close> keeps the sentinel in the chain and only the text of the cause.\<close>

definition wrap_detail :: "gerr \<Rightarrow> gerr \<Rightarrow> gerr" where
  "wrap_detail sentinel e = Fmt '''' sentinel ('': '' @ err_text e)"

definition probe_token :: "review_api \<Rightarrow> rest_config option \<Rightarrow> string \<Rightarrow> gerr option" where
  "probe_token api base_cfg token =
     (case base_cfg of
        None \<Rightarrow> Some ErrTokenProbeMisconfigured
      | Some base \<Rightarrow>
          let cfg = base\<lparr>rc_bearer_token := token, rc_bearer_token_file := ''''\<rparr> in
          (case ra_new_for_config api cfg of
             Some e \<Rightarrow> Some (wrap_detail ErrTokenUnreachable e)
           | None \<Rightarrow>
               (case ra_create_review api cfg of
                  Some e \<Rightarrow> Some (wrap_detail ErrTokenUnreachable e) | None \<Rightarrow> None)))"

definition user_facing_probe_error :: "gerr \<Rightarrow> string" where
  "user_facing_probe_error e =
     (if errors_is e ErrTokenUnreachable then err_text ErrTokenUnreachable else err_text e)"

definition persist_token_session ::
  "auth_handler \<Rightarrow> request \<Rightarrow> string \<Rightarrow> 'p writer \<Rightarrow> 'p auth_out" where
  "persist_token_session hnd req token w =
     (case store_get (ah_store hnd) req of
        Inl e \<Rightarrow> reply_error ''session error'' 500 w []
      | Inr s \<Rightarrow>
          (case store_save (ah_store hnd)
              (set_user (no_user_session\<lparr>us_username := usernameTokenMode\<rparr>) (set_bearer_token token s)) [] of
             (cookies, Some e) \<Rightarrow> reply_error ''session error'' 500 w cookies
           | (cookies, None) \<Rightarrow> reply_redirect ''/'' 303 w cookies))"

text \<open>
  \<open>HandleTokenUpload\<close>: the body is capped at twice the token bound before it is parsed; a body
  over the cap is one of the reasons of \<open>r_form_err\<close>.
\<close>

definition handle_token_upload :: "review_api \<Rightarrow> auth_handler \<Rightarrow> request \<Rightarrow> 'p writer \<Rightarrow> 'p auth_out" where
  "handle_token_upload api hnd req w =
     (case r_form_err req of
        Some e \<Rightarrow> render_token_form (''Invalid upload: '' @ err_text e) w
      | None \<Rightarrow>
          let token = trim_space (form_value req tokenFormField) in
          if token = '''' then render_token_form (err_text ErrTokenEmpty) w
          else if int (length token) > tokenMaxBytes then render_token_form (err_text ErrTokenTooLarge) w
          else (case probe_token api (ah_base_cfg hnd) token of
             Some e \<Rightarrow> render_token_form (user_facing_probe_error e) w
           | None \<Rightarrow> persist_token_session hnd req token w))"

section \<open>byok.go\<close>

definition kubeconfigFormField :: string where "kubeconfigFormField = ''kubeconfig''"
definition kubeconfigMaxBytes :: int where "kubeconfigMaxBytes = 32 * 1024"

definition ErrKubeconfigTooLarge :: gerr where
  "ErrKubeconfigTooLarge = Sentinel
     (''kubeconfig is larger than 32 KB; strip unused contexts with ''
      @ ''`kubectl config view --minify --flatten`'')"
definition ErrKubeconfigExecPlugin :: gerr where
  "ErrKubeconfigExecPlugin = Sentinel
     (''exec plugins are not supported; generate a static token with ''
      @ ''`kubectl create token` and reference it directly'')"
definition ErrKubeconfigNoContext :: gerr where
  "ErrKubeconfigNoContext = Sentinel ''kubeconfig has no usable current-context''"
definition ErrKubeconfigUnreachable :: gerr where
  "ErrKubeconfigUnreachable = Sentinel ''cluster is not reachable from the cozytempl pod''"

definition render_kubeconfig_form :: "string \<Rightarrow> 'p writer \<Rightarrow> 'p auth_out" where
  "render_kubeconfig_form msg w = render_form ''KubeconfigUpload'' msg w []"

definition handle_kubeconfig_upload_form :: "'p writer \<Rightarrow> 'p auth_out" where
  "handle_kubeconfig_upload_form w = render_kubeconfig_form '''' w"

text \<open>
  The uploaded file: \<open>req.FormFile\<close> fails or gives a reader, whose contents the bounded
  \<open>ReadAll\<close> cuts one byte past the limit, or fails.
\<close>

type_synonym upload = "(string res) res"

definition read_kubeconfig_upload :: "upload \<Rightarrow> string res" where
  "read_kubeconfig_upload up =
     (case up of
        Inl e \<Rightarrow> Inl (Fmt ''no kubeconfig file in form: '' e '''')
      | Inr file \<Rightarrow>
          (case file of
             Inl e \<Rightarrow> Inl (Fmt ''reading uploaded file: '' e '''')
           | Inr content \<Rightarrow>
               let bytes = take (nat (kubeconfigMaxBytes + 1)) content in
               if int (length bytes) > kubeconfigMaxBytes then Inl ErrKubeconfigTooLarge
               else Inr bytes))"

definition reject_exec_plugin_users :: "kubeconfig \<Rightarrow> gerr option" where
  "reject_exec_plugin_users cfg =
     (if kf_current_context cfg = '''' then Some ErrKubeconfigNoContext
      else case map_of (kf_contexts cfg) (kf_current_context cfg) of
        None \<Rightarrow> Some ErrKubeconfigNoContext
      | Some user \<Rightarrow>
          (case map_of (kf_auth_infos cfg) user of
             None \<Rightarrow> Some ErrKubeconfigNoContext
           | Some ai \<Rightarrow>
               if ai_exec ai \<or> ai_auth_provider ai then Some ErrKubeconfigExecPlugin else None))"

definition probe_kubeconfig :: "review_api \<Rightarrow> rest_config \<Rightarrow> gerr option" where
  "probe_kubeconfig api cfg =
     (case ra_new_for_config api cfg of
        Some e \<Rightarrow> Some (wrap_detail ErrKubeconfigUnreachable e)
      | None \<Rightarrow>
          (case ra_create_review api cfg of
             Some e \<Rightarrow> Some (wrap_detail ErrKubeconfigUnreachable e) | None \<Rightarrow> None))"

definition validate_kubeconfig_bytes :: "clientcmd \<Rightarrow> review_api \<Rightarrow> string \<Rightarrow> gerr option" where
  "validate_kubeconfig_bytes cc api raw =
     (case cc_load cc raw of
        Inl e \<Rightarrow> Some (Fmt ''parsing kubeconfig: '' e '''')
      | Inr cfg \<Rightarrow>
          (case reject_exec_plugin_users cfg of
             Some e \<Rightarrow> Some e
           | None \<Rightarrow>
               (case cc_rest_config cc raw of
                  Inl e \<Rightarrow> Some (Fmt ''building rest config: '' e '''')
                | Inr rc \<Rightarrow> probe_kubeconfig api rc)))"

definition sanitize_kubeconfig_error :: "gerr \<Rightarrow> string" where
  "sanitize_kubeconfig_error e =
     (if errors_is e ErrKubeconfigUnreachable then err_text ErrKubeconfigUnreachable else err_text e)"

definition handle_kubeconfig_upload ::
  "clientcmd \<Rightarrow> review_api \<Rightarrow> auth_handler \<Rightarrow> request \<Rightarrow> upload \<Rightarrow> 'p writer \<Rightarrow> 'p auth_out" where
  "handle_kubeconfig_upload cc api hnd req up w =
     (case r_form_err req of
        Some e \<Rightarrow> render_kubeconfig_form (''Invalid upload: '' @ err_text e) w
      | None \<Rightarrow>
          (case read_kubeconfig_upload up of
             Inl e \<Rightarrow> render_kubeconfig_form (err_text e) w
           | Inr bytes \<Rightarrow>
               (case validate_kubeconfig_bytes cc api bytes of
                  Some e \<Rightarrow> render_kubeconfig_form (sanitize_kubeconfig_error e) w
                | None \<Rightarrow>
                    (case store_get (ah_store hnd) req of
                       Inl e \<Rightarrow> reply_error ''session error'' 500 w []
                     | Inr s \<Rightarrow>
                         (case store_save (ah_store hnd)
                             (set_user (no_user_session\<lparr>us_username := ''kubeconfig-user''\<rparr>)
                               (set_kubeconfig bytes s)) [] of
                            (cookies, Some e) \<Rightarrow> reply_error ''session error'' 500 w cookies
                          | (cookies, None) \<Rightarrow> reply_redirect ''/'' 303 w cookies)))))"

section \<open>Lemmas\<close>

lemma render_form_sel [simp]:
  "ao_cookies (render_form n m w cs) = cs" "ao_next (render_form n m w cs) = None"
  "w_body (ao_writer (render_form n m w cs)) = w_body w @ [BForm n m]"
  by (simp_all add: render_form_def)

lemma render_token_form_sel [simp]: "ao_cookies (render_token_form m w) = []"
  by (simp add: render_token_form_def)

lemma render_kubeconfig_form_sel [simp]: "ao_cookies (render_kubeconfig_form m w) = []"
  by (simp add: render_kubeconfig_form_def)

lemma store_save_cases:
  "store_save st s [] = (if cs_save st s = None then ([s], None)
     else ([], Some (Fmt ''saving session: '' (the (cs_save st s)) '''')))"
  by (simp add: store_save_def split: option.split)

lemma validate_callback_state_Inr:
  "validate_callback_state hnd req w = Inr s \<longleftrightarrow>
     (\<exists>s0. store_get (ah_store hnd) req = Inr s0 \<and> query_get req ''state'' \<noteq> '''' \<and>
        sv_string (map_of (ses_values s0) stateKeyName) = query_get req ''state'' \<and>
        s = del_value stateKeyName s0)"
  by (auto simp: validate_callback_state_def Let_def split: sum.splits)

lemma validate_callback_state_Inl:
  "validate_callback_state hnd req w = Inl out \<Longrightarrow> ao_cookies out = [] \<and>
     (w_code w = None \<longrightarrow> w_code (ao_writer out) \<in> {Some 400, Some 500})"
  by (auto simp: validate_callback_state_def Let_def split: sum.splits if_splits)

text \<open>The two probes answer with their sentinel or with success.\<close>

lemma probe_token_unreachable:
  assumes "probe_token api (Some base) token = Some e"
  shows "errors_is e ErrTokenUnreachable"
proof -
  have "errors_is (wrap_detail ErrTokenUnreachable x) ErrTokenUnreachable" for x
    by (simp add: wrap_detail_def ErrTokenUnreachable_def)
  with assms show ?thesis by (auto simp: probe_token_def Let_def split: option.splits)
qed

lemma probe_kubeconfig_unreachable:
  assumes "probe_kubeconfig api cfg = Some e"
  shows "errors_is e ErrKubeconfigUnreachable"
proof -
  have "errors_is (wrap_detail ErrKubeconfigUnreachable x) ErrKubeconfigUnreachable" for x
    by (simp add: wrap_detail_def ErrKubeconfigUnreachable_def)
  with assms show ?thesis by (auto simp: probe_kubeconfig_def split: option.splits)
qed

lemma reject_exec_plugin_None:
  "reject_exec_plugin_users cfg = None \<Longrightarrow>
     \<exists>user ai. map_of (kf_contexts cfg) (kf_current_context cfg) = Some user \<and>
       map_of (kf_auth_infos cfg) user = Some ai \<and> \<not> ai_exec ai \<and> \<not> ai_auth_provider ai"
  by (auto simp: reject_exec_plugin_users_def split: option.splits if_splits)

lemma read_kubeconfig_upload_Inr:
  "read_kubeconfig_upload up = Inr b \<Longrightarrow> up = Inr (Inr b) \<and> int (length b) \<le> kubeconfigMaxBytes"
  by (auto simp: read_kubeconfig_upload_def kubeconfigMaxBytes_def Let_def split: sum.splits if_splits)

lemma probe_token_None:
  "probe_token api base_cfg token = None \<longleftrightarrow>
     (\<exists>base. base_cfg = Some base \<and>
        ra_new_for_config api (base\<lparr>rc_bearer_token := token, rc_bearer_token_file := ''''\<rparr>) = None \<and>
        ra_create_review api (base\<lparr>rc_bearer_token := token, rc_bearer_token_file := ''''\<rparr>) = None)"
  by (auto simp: probe_token_def Let_def split: option.splits)

lemma handle_token_upload_cookie:
  assumes "s' \<in> set (ao_cookies (handle_token_upload api hnd req w))"
  obtains s token where "token = trim_space (form_value req tokenFormField)" "token \<noteq> ''''"
    "int (length token) \<le> tokenMaxBytes" "probe_token api (ah_base_cfg hnd) token = None"
    "s' = set_user (no_user_session\<lparr>us_username := usernameTokenMode\<rparr>) (set_bearer_token token s)"
  using assms
  by (auto simp: handle_token_upload_def persist_token_session_def Let_def store_save_cases
      intro: that split: option.splits sum.splits if_splits)

lemma handle_kubeconfig_upload_cookie:
  assumes "s' \<in> set (ao_cookies (handle_kubeconfig_upload cc api hnd req up w))"
  obtains s b where "read_kubeconfig_upload up = Inr b" "validate_kubeconfig_bytes cc api b = None"
    "s' = set_user (no_user_session\<lparr>us_username := ''kubeconfig-user''\<rparr>) (set_kubeconfig b s)"
  using assms
  by (auto simp: handle_kubeconfig_upload_def store_save_cases
      intro: that split: option.splits sum.splits if_splits)

section \<open>Properties\<close>

text \<open>
  C19: the OAuth state nonce. The callback signs a user in (saves any session at all) only when
  the session carries a non-empty nonce that equals the \<open>state\<close> parameter, a code is present
  and the provider exchanged it for a verified ID token; the session it saves belongs to the
  user of that token and no longer holds the nonce, so the same callback cannot be replayed
  against it. In every other case no cookie is written and the answer is an error.
\<close>

theorem callback_requires_nonce:
  assumes "w_code w = None"
  shows "let out = handle_callback json_exp opr hnd req w in
    (\<forall>s'\<in>set (ao_cookies out). \<exists>s r cl.
        store_get (ah_store hnd) req = Inr s \<and> query_get req ''state'' \<noteq> '''' \<and>
        sv_string (map_of (ses_values s) stateKeyName) = query_get req ''state'' \<and>
        query_get req ''code'' \<noteq> '''' \<and> oidc_exchange opr (query_get req ''code'') = Inr r \<and>
        op_verify opr (er_id_token r) = Inr (Inr cl) \<and>
        us_username (get_user s') = cl_username (er_claims r) \<and>
        us_id_token (get_user s') = er_id_token r \<and>
        map_of (ses_values s') stateKeyName = None) \<and>
    (ao_cookies out = [] \<longrightarrow> w_code (ao_writer out) \<in> {Some 400, Some 500})"
proof (cases "validate_callback_state hnd req w")
  case (Inl out)
  with validate_callback_state_Inl [OF Inl] assms show ?thesis
    by (simp add: handle_callback_def)
next
  case (Inr s)
  then obtain s0 where s0: "store_get (ah_store hnd) req = Inr s0" "query_get req ''state'' \<noteq> ''''"
    "sv_string (map_of (ses_values s0) stateKeyName) = query_get req ''state''"
    "s = del_value stateKeyName s0"
    by (auto simp: validate_callback_state_Inr)
  show ?thesis
  proof (cases "query_get req ''code'' = ''''")
    case True
    with Inr assms show ?thesis by (simp add: handle_callback_def)
  next
    case code: False
    show ?thesis
    proof (cases "oidc_exchange opr (query_get req ''code'')")
      case (Inl e)
      with Inr code assms show ?thesis by (simp add: handle_callback_def)
    next
      case r: (Inr r)
      then obtain cl where "op_verify opr (er_id_token r) = Inr (Inr cl)"
        by (auto simp: oidc_exchange_def extract_result_def split: sum.splits option.splits)
      moreover have "map_of (ses_values (set_user info s)) stateKeyName = None" for info
        by (simp add: set_user_def s0(4) stateKeyName_def session_key_defs)
      ultimately show ?thesis
        using Inr code r s0 assms
        by (auto simp: handle_callback_def Let_def store_save_cases)
    qed
  qed
qed

definition sample_handler :: "session \<Rightarrow> auth_handler" where
  "sample_handler s = \<lparr>ah_oidc = None, ah_store = sample_store s, ah_mode = AuthModeToken,
     ah_base_cfg = Some \<lparr>rc_host = ''https://10.96.0.1'', rc_bearer_token = ''sa'',
       rc_bearer_token_file = ''/var/run/token'', rc_username = '''', rc_password = '''',
       rc_impersonate = no_impersonation, rc_timeout = 0, rc_rest = ''''\<rparr>\<rparr>"

theorem callback_requires_nonce_witness:
  "w_code (ao_writer (handle_callback (\<lambda>_. Inr 5) sample_oidc (sample_handler sample_session)
     blank_request (new_writer :: string writer))) \<in> {Some 400, Some 500}"
proof -
  have "ao_cookies (handle_callback (\<lambda>_. Inr 5) sample_oidc (sample_handler sample_session)
     blank_request (new_writer :: string writer)) = []" by code_simp
  then show ?thesis
    using callback_requires_nonce [of "new_writer :: string writer" "\<lambda>_. Inr 5" sample_oidc
        "sample_handler sample_session" blank_request] by (simp add: Let_def)
qed

text \<open>
  Login and callback fit together. The session that \<open>HandleLogin\<close> saves carries the very
  state it put in the redirect URL, and a callback that presents this session with this state
  passes the check, while one with any other state is refused.
\<close>

theorem login_callback_roundtrip:
  assumes "handle_login rand opr hnd req w = \<lparr>ao_writer = w', ao_cookies = [s'], ao_next = n\<rparr>"
    and "\<And>k b. rand k = Inr b \<Longrightarrow> length b = k"
    and "store_get (ah_store hnd) req' = Inr s'"
  shows "\<exists>state. sent_header w' ''Location'' = Some (op_auth_code_url opr state) \<and>
     (validate_callback_state hnd req' v = Inr (del_value stateKeyName s') \<longleftrightarrow>
        query_get req' ''state'' = state)"
proof -
  from assms(1) obtain state s where st: "generate_state rand = Inr state"
    "s' = put_value stateKeyName (SvString state) s"
    "w' = http_redirect (op_auth_code_url opr state) 302 w"
    by (auto simp: handle_login_def store_save_cases reply_error_def reply_redirect_def
        split: sum.splits if_splits)
  from st(1) obtain b where b: "rand stateBytes = Inr b" "state = hex_encode b"
    by (auto simp: generate_state_def split: sum.splits)
  have "b \<noteq> []" using assms(2) [OF b(1)] by (auto simp: stateBytes_def)
  then have "state \<noteq> ''''" using b(2) by (cases b) (auto simp: hex_encode_def)
  with st assms(3) show ?thesis
    by (intro exI [of _ state]) (auto simp: validate_callback_state_Inr)
qed

definition sample_blank :: session where
  "sample_blank = \<lparr>ses_values = [], ses_max_age = 86400\<rparr>"

definition sample_login_session :: session where
  "sample_login_session =
     put_value stateKeyName (SvString (hex_encode (replicate 32 1))) sample_blank"

text \<open>The cookie of a browser: none at first, then the one the login set.\<close>

definition sample_browser :: auth_handler where
  "sample_browser = \<lparr>ah_oidc = Some sample_oidc,
     ah_store = \<lparr>cs_get = (\<lambda>r. Inr (if r_path r = ''/auth/callback'' then sample_login_session
                   else sample_blank)), cs_save = (\<lambda>_. None)\<rparr>,
     ah_mode = AuthModePassthrough, ah_base_cfg = None\<rparr>"

lemma sample_login:
  "handle_login (\<lambda>k. Inr (replicate k 1)) sample_oidc sample_browser blank_request
     (new_writer :: string writer) =
     \<lparr>ao_writer = http_redirect (op_auth_code_url sample_oidc (hex_encode (replicate 32 1))) 302 new_writer,
      ao_cookies = [sample_login_session], ao_next = None\<rparr>"
  by (simp add: handle_login_def generate_state_def stateBytes_def store_get_def sample_browser_def
      store_save_cases blank_request_def sample_login_session_def reply_redirect_def)

theorem login_callback_roundtrip_witness:
  "\<exists>state. sent_header (http_redirect (op_auth_code_url sample_oidc (hex_encode (replicate 32 1))) 302
       (new_writer :: string writer)) ''Location'' = Some (op_auth_code_url sample_oidc state)"
proof -
  have "store_get (ah_store sample_browser) (blank_request\<lparr>r_path := ''/auth/callback''\<rparr>) =
      Inr sample_login_session"
    by (simp add: store_get_def sample_browser_def)
  from login_callback_roundtrip [OF sample_login _ this, of "new_writer :: string writer"]
  show ?thesis by (auto simp del: http_redirect_sel)
qed

text \<open>
  A pasted token is stored only after it was trimmed, found non-empty and within the size
  bound, and probed: the review was created through a configuration whose bearer token is the
  pasted one and whose token file is cleared, so the process's own credential did not answer
  for it. The next request carrying the saved session passes \<open>RequireAuth\<close> in token mode with
  exactly that token.
\<close>

theorem token_upload_signs_in:
  assumes "s' \<in> set (ao_cookies (handle_token_upload api hnd req w))"
    and "store_get st req' = Inr s'"
  shows "let token = trim_space (form_value req tokenFormField) in
    token \<noteq> '''' \<and> length token \<le> 1500 \<and>
    (\<exists>base. ah_base_cfg hnd = Some base \<and>
       ra_create_review api (base\<lparr>rc_bearer_token := token, rc_bearer_token_file := ''''\<rparr>) = None) \<and>
    (\<exists>c' u. ao_next (require_auth json_exp now st oidc AuthModeToken req' c v) = Some c' \<and>
       user_from_context c' = Some u \<and> uc_bearer_token u = token \<and> uc_username u = ''token-user'')"
proof -
  from assms(1) obtain s token where t: "token = trim_space (form_value req tokenFormField)" "token \<noteq> ''''"
    "int (length token) \<le> tokenMaxBytes" "probe_token api (ah_base_cfg hnd) token = None"
    "s' = set_user (no_user_session\<lparr>us_username := usernameTokenMode\<rparr>) (set_bearer_token token s)"
    by (rule handle_token_upload_cookie)
  have "get_bearer_token s' = Some token" using t(2,5) by (simp add: bt_slot.signed_in)
  then have "ao_next (require_auth json_exp now st oidc AuthModeToken req' c v) =
      ao_next (serve_token req' c v s' (get_user s'))" and "get_bearer_token s' = Some token"
    using assms(2) by (simp_all add: require_auth_def Let_def)
  with t show ?thesis
    by (auto simp: serve_token_next user_from_context_def probe_token_None tokenMaxBytes_def
        usernameTokenMode_def Let_def no_user_session_def)
qed

definition sample_api :: review_api where
  "sample_api = \<lparr>ra_new_for_config = (\<lambda>_. None),
     ra_create_review = (\<lambda>c. if rc_bearer_token c = ''good'' then None else Some (Opaque ''401''))\<rparr>"

definition sample_paste :: request where
  "sample_paste = blank_request\<lparr>r_method := ''POST'', r_path := ''/auth/token'',
     r_form := [(''token'', ['' good''])]\<rparr>"

definition sample_signed_in :: session where
  "sample_signed_in = set_user (no_user_session\<lparr>us_username := usernameTokenMode\<rparr>)
     (set_bearer_token ''good'' sample_blank)"

theorem token_upload_signs_in_witness:
  "\<exists>c' u. ao_next (require_auth (\<lambda>_. Inr 0) 0 (sample_store sample_signed_in) None AuthModeToken
     blank_request empty_ctx (new_writer :: string writer)) = Some c' \<and> user_from_context c' = Some u \<and>
     uc_bearer_token u = ''good''"
proof -
  have "ao_cookies (handle_token_upload sample_api (sample_handler sample_blank) sample_paste
      (new_writer :: string writer)) = [sample_signed_in]"
    by code_simp
  then have 1: "sample_signed_in \<in> set (ao_cookies (handle_token_upload sample_api
      (sample_handler sample_blank) sample_paste (new_writer :: string writer)))" by simp
  have 2: "store_get (sample_store sample_signed_in) blank_request = Inr sample_signed_in"
    by (simp add: store_get_def sample_store_def)
  have 3: "trim_space (form_value sample_paste tokenFormField) = ''good''" by code_simp
  show ?thesis
    using token_upload_signs_in [OF 1 2, of "\<lambda>_. Inr 0" 0 None empty_ctx "new_writer :: string writer"] 3
    by (auto simp: Let_def)
qed

text \<open>
  An uploaded kubeconfig is stored only if it is within the size bound, parses, resolves its
  current context to a user without exec or auth-provider plugin, and its cluster answered the
  review; the saved session passes \<open>RequireAuth\<close> in byok mode with exactly the uploaded bytes.
\<close>

theorem kubeconfig_upload_signs_in:
  assumes "s' \<in> set (ao_cookies (handle_kubeconfig_upload cc api hnd req up w))"
    and "store_get st req' = Inr s'" and "up \<noteq> Inr (Inr '''')"
  shows "\<exists>b cfg rc user ai. up = Inr (Inr b) \<and> length b \<le> 32768 \<and> cc_load cc b = Inr cfg \<and>
    map_of (kf_contexts cfg) (kf_current_context cfg) = Some user \<and>
    map_of (kf_auth_infos cfg) user = Some ai \<and> \<not> ai_exec ai \<and> \<not> ai_auth_provider ai \<and>
    cc_rest_config cc b = Inr rc \<and> ra_create_review api rc = None \<and>
    (\<exists>c' u. ao_next (require_auth json_exp now st oidc AuthModeBYOK req' c v) = Some c' \<and>
       user_from_context c' = Some u \<and> uc_kubeconfig u = b \<and> uc_username u = ''kubeconfig-user'')"
proof -
  from assms(1) obtain s b where b: "read_kubeconfig_upload up = Inr b"
    "validate_kubeconfig_bytes cc api b = None"
    "s' = set_user (no_user_session\<lparr>us_username := ''kubeconfig-user''\<rparr>) (set_kubeconfig b s)"
    by (rule handle_kubeconfig_upload_cookie)
  have up: "up = Inr (Inr b)" "int (length b) \<le> kubeconfigMaxBytes"
    using read_kubeconfig_upload_Inr [OF b(1)] by simp_all
  have "get_kubeconfig s' = Some b" using b(3) up(1) assms(3) by (auto simp: kc_slot.signed_in)
  then have auth: "\<exists>c' u. ao_next (require_auth json_exp now st oidc AuthModeBYOK req' c v) = Some c' \<and>
       user_from_context c' = Some u \<and> uc_kubeconfig u = b \<and> uc_username u = ''kubeconfig-user''"
    using assms(2) b(3)
    by (auto simp: require_auth_def Let_def serve_byok_next user_from_context_def no_user_session_def)
  from b(2) obtain cfg rc where v: "cc_load cc b = Inr cfg" "reject_exec_plugin_users cfg = None"
    "cc_rest_config cc b = Inr rc" "ra_create_review api rc = None"
    by (auto simp: validate_kubeconfig_bytes_def probe_kubeconfig_def split: sum.splits option.splits)
  from reject_exec_plugin_None [OF v(2)] v up auth show ?thesis
    by (auto simp: kubeconfigMaxBytes_def)
qed

definition sample_clientcmd :: clientcmd where
  "sample_clientcmd =
     \<lparr>cc_load = (\<lambda>b. Inr \<lparr>kf_current_context = ''c'', kf_contexts = [(''c'', ''u'')],
        kf_auth_infos = [(''u'', \<lparr>ai_exec = (b = ''exec''), ai_auth_provider = False\<rparr>)]\<rparr>),
      cc_rest_config = (\<lambda>b. Inr \<lparr>rc_host = ''h'', rc_bearer_token = ''good'', rc_bearer_token_file = '''',
        rc_username = '''', rc_password = '''', rc_impersonate = no_impersonation, rc_timeout = 0,
        rc_rest = ''''\<rparr>)\<rparr>"

definition sample_byok_session :: session where
  "sample_byok_session = set_user (no_user_session\<lparr>us_username := ''kubeconfig-user''\<rparr>)
     (set_kubeconfig ''static'' sample_blank)"

theorem kubeconfig_upload_signs_in_witness:
  "\<exists>c' u. ao_next (require_auth (\<lambda>_. Inr 0) 0 (sample_store sample_byok_session) None AuthModeBYOK
     blank_request empty_ctx (new_writer :: string writer)) = Some c' \<and> user_from_context c' = Some u \<and>
     uc_kubeconfig u = ''static''"
proof -
  have "ao_cookies (handle_kubeconfig_upload sample_clientcmd sample_api (sample_handler sample_blank)
      blank_request (Inr (Inr ''static'')) (new_writer :: string writer)) = [sample_byok_session]"
  proof -
    have "read_kubeconfig_upload (Inr (Inr ''static'')) = Inr ''static''"
      by (simp add: read_kubeconfig_upload_def kubeconfigMaxBytes_def Let_def)
    moreover have "validate_kubeconfig_bytes sample_clientcmd sample_api ''static'' = None"
      by code_simp
    ultimately show ?thesis
      by (simp add: handle_kubeconfig_upload_def blank_request_def sample_handler_def sample_store_def
          store_get_def store_save_cases sample_byok_session_def)
  qed
  then have 1: "sample_byok_session \<in> set (ao_cookies (handle_kubeconfig_upload sample_clientcmd sample_api
      (sample_handler sample_blank) blank_request (Inr (Inr ''static'')) (new_writer :: string writer)))"
    by simp
  have 2: "store_get (sample_store sample_byok_session) blank_request = Inr sample_byok_session"
    by (simp add: store_get_def sample_store_def)
  have 3: "(Inr (Inr ''static'') :: upload) \<noteq> Inr (Inr '''')" by simp
  show ?thesis
    using kubeconfig_upload_signs_in [OF 1 2 3, of "\<lambda>_. Inr 0" 0 None empty_ctx "new_writer :: string writer"]
    by auto
qed

text \<open>
  A failed probe tells the browser nothing about the cluster. Whatever error the clientset
  or the review returned, whatever configuration the process holds, the response to a rejected
  token is the form with one fixed message; likewise for a kubeconfig that parses and whose
  cluster cannot be reached.
\<close>

theorem probe_failure_is_opaque:
  "(\<forall>token e base. probe_token api (Some base) token = Some e \<longrightarrow>
      user_facing_probe_error e = ''apiserver rejected the token'') \<and>
   (\<forall>raw e cfg rc. cc_load cc raw = Inr cfg \<longrightarrow> reject_exec_plugin_users cfg = None \<longrightarrow>
      cc_rest_config cc raw = Inr rc \<longrightarrow> validate_kubeconfig_bytes cc api raw = Some e \<longrightarrow>
      sanitize_kubeconfig_error e = ''cluster is not reachable from the cozytempl pod'')"
  using probe_token_unreachable probe_kubeconfig_unreachable
  by (auto simp: user_facing_probe_error_def sanitize_kubeconfig_error_def validate_kubeconfig_bytes_def
      ErrTokenUnreachable_def ErrKubeconfigUnreachable_def)

theorem probe_failure_is_opaque_witness:
  "user_facing_probe_error (wrap_detail ErrTokenUnreachable (Opaque ''dial tcp 10.96.0.1:443'')) =
     ''apiserver rejected the token''"
proof -
  have "probe_token (sample_api\<lparr>ra_new_for_config := (\<lambda>_. Some (Opaque ''dial tcp 10.96.0.1:443''))\<rparr>)
      (ah_base_cfg (sample_handler sample_blank)) ''t'' =
      Some (wrap_detail ErrTokenUnreachable (Opaque ''dial tcp 10.96.0.1:443''))"
    by code_simp
  then show ?thesis
    using probe_failure_is_opaque [of "sample_api\<lparr>ra_new_for_config := (\<lambda>_. Some (Opaque ''dial tcp 10.96.0.1:443''))\<rparr>"
        sample_clientcmd, THEN conjunct1]
    unfolding sample_handler_def auth_handler.simps by blast
qed

text \<open>
  Signing out locks the browser out. When logout could read and save the session, the next
  request that carries the saved session is refused by \<open>RequireAuth\<close> in every mode that
  authenticates, whatever the session held before, and the cookie is expired; the redirect goes
  to the sign-in page of the active mode.
\<close>

theorem logout_locks_out:
  assumes "store_get (ah_store hnd) req = Inr s" "cs_save (ah_store hnd) (session_clear s) = None"
    and "store_get st req' = Inr (last (ao_cookies (handle_logout hnd req w)))"
  shows "ao_next (require_auth json_exp now st oidc mode req' c v) = None
    \<and> ses_max_age (last (ao_cookies (handle_logout hnd req w))) = -1
    \<and> sent_header (ao_writer (handle_logout hnd req w)) ''Location'' = Some (sign_in_path hnd)"
proof -
  have "ao_cookies (handle_logout hnd req w) = [session_clear s]"
    using assms(1,2) by (simp add: handle_logout_def store_save_cases)
  then have "store_get st req' = Inr (session_clear s)" using assms(3) by simp
  then show ?thesis
    using assms(1,2)
    by (simp add: require_auth_def Let_def serve_byok_next serve_token_next kc_slot.get_clear
        bt_slot.get_clear serve_oidc_def no_user_session_def handle_logout_def store_save_cases
        reply_redirect_def)
qed

theorem logout_locks_out_witness:
  "ao_next (require_auth (\<lambda>_. Inr 0) 0 (sample_store (session_clear sample_signed_in)) None AuthModeToken
     blank_request empty_ctx (new_writer :: string writer)) = None"
proof -
  have l: "last (ao_cookies (handle_logout (sample_handler sample_signed_in) blank_request
      (new_writer :: string writer))) = session_clear sample_signed_in"
    by code_simp
  have 1: "store_get (ah_store (sample_handler sample_signed_in)) blank_request = Inr sample_signed_in"
    by (simp add: sample_handler_def store_get_def sample_store_def)
  have 2: "cs_save (ah_store (sample_handler sample_signed_in)) (session_clear sample_signed_in) = None"
    by (simp add: sample_handler_def sample_store_def)
  have 3: "store_get (sample_store (session_clear sample_signed_in)) blank_request =
      Inr (last (ao_cookies (handle_logout (sample_handler sample_signed_in) blank_request
        (new_writer :: string writer))))"
    unfolding l by (simp add: sample_store_def store_get_def)
  show ?thesis using logout_locks_out [OF 1 2 3] by blast
qed

end
