(* ===== verification/Kube_Client.thy ===== *)
theory Kube_Client
  imports Session_Auth
begin

text \<open>
  \<open>internal/k8s\<close>: the client that acts for a user (\<open>client.go\<close>), the guard of the values that
  go into label selectors (\<open>labels.go\<close>), and the per-user watch proxy (\<open>watchproxy.go\<close>). The
  libraries behind them are the record \<open>sdk\<close>.
\<close>

section \<open>client.go\<close>

definition clientTimeout :: int where "clientTimeout = 10 * 10 ^ 9"

definition ErrUnknownAuthMode :: gerr where "ErrUnknownAuthMode = Sentinel ''unknown auth mode''"
definition ErrEmptyUserCredential :: gerr where
  "ErrEmptyUserCredential = Sentinel ''empty user credential''"

definition build_user_rest_config' ::
  "'w sdk \<Rightarrow> rest_config \<Rightarrow> user_context \<Rightarrow> auth_mode \<Rightarrow> rest_config res" where
  "build_user_rest_config' sdk base usr mode =
     (if mode = AuthModePassthrough then
        Inr (base\<lparr>rc_bearer_token := uc_id_token usr, rc_bearer_token_file := '''',
               rc_impersonate := no_impersonation\<rparr>)
      else if mode = AuthModeBYOK then
        (case sdk_rest_config sdk (uc_kubeconfig usr) of
           Inl e \<Rightarrow> Inl (Fmt ''building rest config from uploaded kubeconfig: '' e '''')
         | Inr cfg \<Rightarrow> Inr cfg)
      else if mode = AuthModeToken then
        (if uc_bearer_token usr = '''' then Inl ErrEmptyUserCredential
         else Inr (base\<lparr>rc_bearer_token := uc_bearer_token usr, rc_bearer_token_file := '''',
                rc_impersonate := no_impersonation\<rparr>))
      else if mode = AuthModeImpersonationLegacy then
        Inr (base\<lparr>rc_impersonate :=
               no_impersonation\<lparr>im_user := uc_username usr, im_groups := uc_groups usr\<rparr>\<rparr>)
      else if mode = AuthModeDev then Inr base
      else Inl (Fmt '''' ErrUnknownAuthMode ('': '' @ go_quote mode)))"

definition build_user_rest_config ::
  "'w sdk \<Rightarrow> rest_config \<Rightarrow> user_context \<Rightarrow> auth_mode \<Rightarrow> rest_config res" where
  "build_user_rest_config sdk base usr mode =
     (case build_user_rest_config' sdk base usr mode of
        Inl e \<Rightarrow> Inl e
      | Inr cfg \<Rightarrow> Inr (cfg\<lparr>rc_timeout := clientTimeout\<rparr>))"

definition new_user_client ::
  "'w sdk \<Rightarrow> rest_config \<Rightarrow> user_context \<Rightarrow> auth_mode \<Rightarrow> ('w kube) res" where
  "new_user_client sdk base usr mode =
     (case build_user_rest_config sdk base usr mode of
        Inl e \<Rightarrow> Inl e
      | Inr cfg \<Rightarrow>
          (case sdk_dynamic sdk cfg of
             Inl e \<Rightarrow> Inl (Fmt ''creating user client: '' e '''')
           | Inr c \<Rightarrow> Inr c))"

text \<open>
  What every service of the package holds or calls: the libraries, the base configuration and
  mode it was built with, \<open>time.Parse\<close> of an RFC 3339 time, and \<open>json.Unmarshal\<close> into
  \<open>any\<close>.
\<close>

record 'w kenv =
  ke_sdk :: "'w sdk"
  ke_base :: rest_config
  ke_mode :: auth_mode
  ke_unstr :: unstr
  ke_errors :: api_errors
  ke_parse_time :: "string \<Rightarrow> int option"
  ke_json :: "string \<Rightarrow> jval res"

text \<open>Calls in sequence: the error of the first one is wrapped and ends the sequence.\<close>

type_synonym ('w, 'a) kop = "'w \<Rightarrow> 'w \<times> 'a res"

definition kret :: "'a \<Rightarrow> ('w, 'a) kop" where "kret x w = (w, Inr x)"
definition kfail :: "gerr \<Rightarrow> ('w, 'a) kop" where "kfail e w = (w, Inl e)"

definition kthen :: "('w, 'a) kop \<Rightarrow> (gerr \<Rightarrow> gerr) \<Rightarrow> ('a \<Rightarrow> ('w, 'b) kop) \<Rightarrow> ('w, 'b) kop" where
  "kthen m wrap f w = (case m w of (w', Inl e) \<Rightarrow> (w', Inl (wrap e)) | (w', Inr x) \<Rightarrow> f x w')"

definition user_client :: "'w kenv \<Rightarrow> user_context \<Rightarrow> ('w kube) res" where
  "user_client E usr = new_user_client (ke_sdk E) (ke_base E) usr (ke_mode E)"

definition with_client :: "'w kenv \<Rightarrow> user_context \<Rightarrow> ('w kube \<Rightarrow> ('w, 'a) kop) \<Rightarrow> ('w, 'a) kop" where
  "with_client E usr f w = (case user_client E usr of Inl e \<Rightarrow> (w, Inl e) | Inr c \<Rightarrow> f c w)"

lemmas kop_defs = kret_def kfail_def kthen_def with_client_def

section \<open>labels.go\<close>

definition cozyAppKindLabel :: string where
  "cozyAppKindLabel = ''apps.cozystack.io/application.kind''"
definition cozyAppNameLabel :: string where
  "cozyAppNameLabel = ''apps.cozystack.io/application.name''"

definition label_mid :: "char \<Rightarrow> bool" where
  "label_mid c = (alnum c \<or> c \<in> set ''-_.'')"

text \<open>\<open>^[a-z0-9A-Z]([-a-z0-9A-Z_.]*[a-z0-9A-Z])?$\<close>\<close>

definition labelValueRegex :: rexp where
  "labelValueRegex = bounded_word alnum label_mid"

definition maxLabelValueLength :: nat where "maxLabelValueLength = 63"

definition is_valid_label_value :: "string \<Rightarrow> bool" where
  "is_valid_label_value s =
     (if s = '''' \<or> length s > maxLabelValueLength then False else matches labelValueRegex s)"

interpretation label_rule: name_rule is_valid_label_value alnum label_mid "\<lambda>n. n \<le> maxLabelValueLength"
  by unfold_locales (auto simp: is_valid_label_value_def labelValueRegex_def label_mid_def)

section \<open>watchproxy.go\<close>

definition watch_authorize :: "'w sdk \<Rightarrow> rest_config \<Rightarrow> gvr \<Rightarrow> string \<Rightarrow> bool res" where
  "watch_authorize sdk cfg g ns =
     (case sdk_clientset sdk cfg of
        Some e \<Rightarrow> Inl (Fmt ''building clientset for watch SSAR: '' e '''')
      | None \<Rightarrow>
          (case sdk_may_watch sdk cfg g ns of
             Inl e \<Rightarrow> Inl (Fmt (''watch SSAR for '' @ g_group g @ ''/'' @ g_resource g @ '' in '' @ ns
                          @ '': '') e '''')
           | Inr allowed \<Rightarrow> Inr allowed))"

text \<open>
  \<open>Stream\<close> opens the watch with the timeout removed; \<open>open_watch\<close> is the client's
  \<open>Watch\<close> call on that configuration.
\<close>

definition watch_stream ::
  "'w sdk \<Rightarrow> (rest_config \<Rightarrow> gvr \<Rightarrow> string \<Rightarrow> 's res) \<Rightarrow> rest_config \<Rightarrow> gvr \<Rightarrow> string \<Rightarrow> 's res" where
  "watch_stream sdk open_watch user_cfg g ns =
     (let cfg = user_cfg\<lparr>rc_timeout := 0\<rparr> in
      case sdk_dynamic sdk cfg of
        Inl e \<Rightarrow> Inl (Fmt ''building dynamic client for watch: '' e '''')
      | Inr c \<Rightarrow>
          (case open_watch cfg g ns of
             Inl e \<Rightarrow> Inl (Fmt (''opening watch for '' @ g_group g @ ''/'' @ g_resource g @ '' in '' @ ns
                          @ '': '') e '''')
           | Inr s \<Rightarrow> Inr s))"

section \<open>Lemmas\<close>

lemma label_no_comma: "is_valid_label_value s \<Longrightarrow> CHR '','' \<notin> set s"
  using label_rule.rejects [of "CHR '',''"] by (auto simp: label_mid_def char_class_defs less_eq_char_def)

lemma label_no_equals: "is_valid_label_value s \<Longrightarrow> CHR ''='' \<notin> set s"
  using label_rule.rejects [of "CHR ''=''"] by (auto simp: label_mid_def char_class_defs less_eq_char_def)

lemma label_no_slash: "is_valid_label_value s \<Longrightarrow> CHR ''/'' \<notin> set s"
  using label_rule.rejects [of "CHR ''/''"] by (auto simp: label_mid_def char_class_defs less_eq_char_def)

text \<open>
  Token and passthrough mode exchange the token and leave the rest: a base configuration that
  authenticates otherwise (a user name and password, or, in the fields the code does not name, a
  client certificate) still does.
\<close>

lemma other_credentials_kept:
  assumes "build_user_rest_config sdk base usr mode = Inr cfg" "mode \<in> {AuthModeToken, AuthModePassthrough}"
  shows "rc_username cfg = rc_username base \<and> rc_password cfg = rc_password base \<and> rc_rest cfg = rc_rest base"
  using assms by (auto simp: build_user_rest_config_def build_user_rest_config'_def split: if_splits sum.splits)

section \<open>Properties\<close>


definition sample_base :: rest_config where
  "sample_base = \<lparr>rc_host = ''h'', rc_bearer_token = ''sa'', rc_bearer_token_file = ''/token'',
     rc_username = '''', rc_password = '''', rc_impersonate = no_impersonation\<lparr>im_user := ''root''\<rparr>,
     rc_timeout = 0, rc_rest = ''''\<rparr>"

definition sample_user :: user_context where
  "sample_user = \<lparr>uc_username = ''token-user'', uc_groups = [], uc_id_token = '''', uc_kubeconfig = '''',
     uc_bearer_token = ''abc''\<rparr>"

definition sample_sdk :: "unit sdk" where
  "sample_sdk = \<lparr>sdk_rest_config = (\<lambda>_. Inl (Opaque ''bad'')), sdk_dynamic = (\<lambda>_. Inl (Opaque ''none'')),
     sdk_clientset = (\<lambda>_. None), sdk_may_watch = (\<lambda>_ _ _. Inr True)\<rparr>"


text \<open>
  No value that passes the guard can change the meaning of a label selector. The selector
  \<open>name-label=value\<close> still splits into exactly one requirement, which splits at its equals sign
  into exactly the label and the value; and the guard accepts a value with any character
  outside the Kubernetes set never.
\<close>

theorem label_selector_injection_free:
  assumes "is_valid_label_value v"
  shows "split_on CHR '','' (cozyAppNameLabel @ ''='' @ v) = [cozyAppNameLabel @ ''='' @ v]
    \<and> split_on CHR ''='' (cozyAppNameLabel @ ''='' @ v) = [cozyAppNameLabel, v]
    \<and> v \<noteq> '''' \<and> length v \<le> 63 \<and> (\<forall>c\<in>set v. alnum c \<or> c \<in> {CHR ''-'', CHR ''_'', CHR ''.''})"
proof -
  have "CHR ''='' \<notin> set cozyAppNameLabel" "CHR '','' \<notin> set cozyAppNameLabel"
    by (simp_all add: cozyAppNameLabel_def)
  moreover have "v \<noteq> ''''" "length v \<le> maxLabelValueLength"
    using assms label_rule.accepts_nonempty label_rule.accepts_fits by auto
  moreover have "\<forall>c\<in>set v. label_mid c" using assms label_rule.accepts_chars by blast
  ultimately show ?thesis
    using label_no_comma [OF assms] label_no_equals [OF assms]
    by (auto simp: split_on_single split_on_append maxLabelValueLength_def label_mid_def)
qed

theorem label_selector_injection_free_witness:
  "split_on CHR ''='' (cozyAppNameLabel @ ''='' @ ''my-db'') = [cozyAppNameLabel, ''my-db'']"
proof -
  have "is_valid_label_value ''my-db''" by code_simp
  from label_selector_injection_free [OF this] show ?thesis by simp
qed

end
