(* ===== verification/Form_Definitions.thy ===== *)
theory Form_Definitions
  imports Kube_Client
begin

text \<open>
  \<open>internal/k8s/formdefinition.go\<close> and \<open>formdefinition_merge.go\<close>: the FormDefinition objects
  that overlay the generated forms, how several of them are folded, and what the renderer reads
  from the result. Objects that do not parse are skipped.
\<close>

section \<open>formdefinition.go\<close>

definition ErrInvalidFormDefinition :: gerr where
  "ErrInvalidFormDefinition = Sentinel ''invalid FormDefinition''"

definition form_def_gvr :: gvr where
  "form_def_gvr = mk_gvr ''cozytempl.cozystack.io'' ''v1alpha1'' ''formdefinitions''"

record form_field_override =
  fo_path :: string
  fo_label :: string
  fo_hint :: string
  fo_placeholder :: string
  fo_order :: "int option"
  fo_hidden :: bool

record form_definition =
  fd_kind :: string
  fd_fields :: "form_field_override list"

text \<open>\<open>int(f)\<close> of a float64 given by its bits; out of range as the amd64 instruction answers.\<close>

definition float_to_int :: "64 word \<Rightarrow> int" where
  "float_to_int w =
     (let n = uint w; e = n div 2 ^ 52 mod 2 ^ 11; m = n mod 2 ^ 52;
          mag = (if e < 1023 then 0
                 else if e < 1075 then (2 ^ 52 + m) div 2 ^ nat (1075 - e)
                 else (2 ^ 52 + m) * 2 ^ nat (e - 1075));
          v = (if 2 ^ 63 \<le> n then - mag else mag)
      in if e \<ge> 1086 then int64_min else v)"

definition parse_field_override :: "jobj \<Rightarrow> form_field_override option" where
  "parse_field_override entry =
     (let path = str_at entry ''path'' in
      if path = '''' then None
      else Some \<lparr>fo_path = path, fo_label = str_at entry ''label'', fo_hint = str_at entry ''hint'',
        fo_placeholder = str_at entry ''placeholder'',
        fo_order = (case map_of entry ''order'' of
             Some (JInt n) \<Rightarrow> Some n | Some (JFloat f) \<Rightarrow> Some (float_to_int f) | _ \<Rightarrow> None),
        fo_hidden = (map_of entry ''hidden'' = Some (JBool True))\<rparr>)"

definition parse_form_definition :: "unstr \<Rightarrow> jobj \<Rightarrow> form_definition res" where
  "parse_form_definition U obj =
     (case u_map U obj [''spec''] of
        None \<Rightarrow> Inl (Fmt '''' ErrInvalidFormDefinition ('': '' @ u_name U obj @ '': missing spec''))
      | Some spec \<Rightarrow>
          let kind = str_at spec ''kind'' in
          if kind = '''' then
            Inl (Fmt '''' ErrInvalidFormDefinition ('': '' @ u_name U obj @ '': missing spec.kind''))
          else
            let rawFields = (case Option.bind (map_of spec ''fields'') as_list of None \<Rightarrow> [] | Some xs \<Rightarrow> xs)
            in Inr \<lparr>fd_kind = kind,
                 fd_fields = List.map_filter (\<lambda>raw. Option.bind (as_map raw) parse_field_override) rawFields\<rparr>)"

text \<open>\<open>names\<close> in list order, \<open>byName\<close> a map, then one definition per sorted name.\<close>

definition by_name :: "unstr \<Rightarrow> jobj list \<Rightarrow> (string, jobj) gomap" where
  "by_name U items = fold (\<lambda>obj m. mput (u_name U obj) obj m) items []"

definition res_to_option :: "'a res \<Rightarrow> 'a option" where
  "res_to_option r = (case r of Inl e \<Rightarrow> None | Inr x \<Rightarrow> Some x)"

definition form_definitions_from_list :: "unstr \<Rightarrow> jobj list \<Rightarrow> form_definition list" where
  "form_definitions_from_list U items =
     List.map_filter (\<lambda>name. Option.bind (map_of (by_name U items) name)
         (\<lambda>obj. res_to_option (parse_form_definition U obj)))
       (sort_strings (map (u_name U) items))"

definition list_form_definitions :: "unstr \<Rightarrow> 'w kube \<Rightarrow> 'w \<Rightarrow> 'w \<times> form_definition list res" where
  "list_form_definitions U client w =
     (case k_list client form_def_gvr '''' no_options w of
        (w', Inl e) \<Rightarrow> (w', Inl (Fmt ''listing FormDefinitions: '' e ''''))
      | (w', Inr l) \<Rightarrow> (w', Inr (form_definitions_from_list U (kl_items l))))"

definition get_overrides_for_kind ::
  "unstr \<Rightarrow> 'w sdk \<Rightarrow> rest_config \<Rightarrow> auth_mode \<Rightarrow> user_context \<Rightarrow> string \<Rightarrow> 'w \<Rightarrow>
     'w \<times> form_field_override list res" where
  "get_overrides_for_kind U sdk base mode usr kind w =
     (if kind = '''' then (w, Inr [])
      else case new_user_client sdk base usr mode of
        Inl e \<Rightarrow> (w, Inl e)
      | Inr client \<Rightarrow>
          (case list_form_definitions U client w of
             (w', Inl e) \<Rightarrow> (w', Inr [])
           | (w', Inr defs) \<Rightarrow>
               (w', Inr (concat (map fd_fields (filter (\<lambda>d. fd_kind d = kind) defs))))))"

definition form_definition_list ::
  "unstr \<Rightarrow> 'w sdk \<Rightarrow> rest_config \<Rightarrow> auth_mode \<Rightarrow> user_context \<Rightarrow> 'w \<Rightarrow> 'w \<times> form_definition list res" where
  "form_definition_list U sdk base mode usr w =
     (case new_user_client sdk base usr mode of
        Inl e \<Rightarrow> (w, Inl e) | Inr client \<Rightarrow> list_form_definitions U client w)"

section \<open>formdefinition_merge.go\<close>

text \<open>The nil map of the source reads like the empty one.\<close>

definition overrides_by_path :: "form_field_override list \<Rightarrow> (string, form_field_override) gomap" where
  "overrides_by_path overrides =
     fold (\<lambda>o' m. if fo_path o' = '''' then m else mput (fo_path o') o' m) overrides []"

definition apply_label_override :: "(string, form_field_override) gomap \<Rightarrow> string \<Rightarrow> string \<Rightarrow> string" where
  "apply_label_override overrides path fallback =
     (case map_of overrides path of
        None \<Rightarrow> fallback | Some o' \<Rightarrow> if fo_label o' = '''' then fallback else fo_label o')"

definition apply_hint_override :: "(string, form_field_override) gomap \<Rightarrow> string \<Rightarrow> string \<Rightarrow> string" where
  "apply_hint_override overrides path fallback =
     (case map_of overrides path of
        None \<Rightarrow> fallback | Some o' \<Rightarrow> if fo_hint o' = '''' then fallback else fo_hint o')"

definition apply_placeholder_override ::
  "(string, form_field_override) gomap \<Rightarrow> string \<Rightarrow> string \<Rightarrow> string" where
  "apply_placeholder_override overrides path fallback =
     (case map_of overrides path of
        None \<Rightarrow> fallback | Some o' \<Rightarrow> if fo_placeholder o' = '''' then fallback else fo_placeholder o')"

definition is_hidden :: "(string, form_field_override) gomap \<Rightarrow> string \<Rightarrow> bool" where
  "is_hidden overrides path = (case map_of overrides path of None \<Rightarrow> False | Some o' \<Rightarrow> fo_hidden o')"

definition order_for :: "(string, form_field_override) gomap \<Rightarrow> string \<Rightarrow> int option" where
  "order_for overrides path = Option.bind (map_of overrides path) fo_order"

section \<open>Lemmas\<close>

text \<open>The last entry of a list with a given property.\<close>

lemma overrides_by_path_fold:
  "path \<noteq> '''' \<Longrightarrow>
     map_of (fold (\<lambda>o' m. if fo_path o' = '''' then m else mput (fo_path o') o' m) overrides m) path =
     (case find (\<lambda>o'. fo_path o' = path) (rev overrides) of None \<Rightarrow> map_of m path | Some o' \<Rightarrow> Some o')"
proof (induction overrides arbitrary: m rule: rev_induct)
  case (snoc x xs)
  then show ?case by simp
qed simp

lemma map_of_overrides_by_path:
  "path \<noteq> '''' \<Longrightarrow> map_of (overrides_by_path overrides) path =
     find (\<lambda>o'. fo_path o' = path) (rev overrides)"
  by (simp add: overrides_by_path_def overrides_by_path_fold split: option.split)

lemma map_of_by_name:
  "map_of (by_name U items) n = find (\<lambda>obj. u_name U obj = n) (rev items)"
proof -
  have "map_of (fold (\<lambda>obj m. mput (u_name U obj) obj m) items m) n =
      (case find (\<lambda>obj. u_name U obj = n) (rev items) of None \<Rightarrow> map_of m n | Some x \<Rightarrow> Some x)" for m
    by (induction items arbitrary: m rule: rev_induct) simp_all
  then show ?thesis by (simp add: by_name_def split: option.split)
qed

lemma find_distinct:
  "distinct (map f xs) \<Longrightarrow> x \<in> set xs \<Longrightarrow> find (\<lambda>y. f y = f x) xs = Some x"
  by (induction xs) (auto simp: image_iff)

lemma find_perm_distinct:
  assumes "distinct (map f xs)" "mset xs = mset ys"
  shows "find (\<lambda>x. f x = n) xs = find (\<lambda>x. f x = n) ys"
proof -
  have d: "distinct (map f ys)" using assms by (metis mset_eq_imp_distinct_iff mset_map)
  have s: "set xs = set ys" using assms(2) by (metis mset_eq_setD)
  show ?thesis
  proof (cases "\<exists>x\<in>set xs. f x = n")
    case True
    then obtain x where x: "x \<in> set xs" "f x = n" by blast
    then have "x \<in> set ys" using s by simp
    then have "find (\<lambda>y. f y = f x) ys = Some x" by (rule find_distinct [OF d])
    with find_distinct [OF assms(1) x(1)] x(2) show ?thesis by simp
  next
    case False
    then have "find (\<lambda>x. f x = n) xs = None" "find (\<lambda>x. f x = n) ys = None"
      using s by (simp_all add: find_None_iff)
    then show ?thesis by simp
  qed
qed

text \<open>
  The three text overrides share one contract: the override's text where there is an override
  of the path with a non-empty text, the fallback otherwise.
\<close>

locale text_override =
  fixes pick :: "form_field_override \<Rightarrow> string"
    and apply_override :: "(string, form_field_override) gomap \<Rightarrow> string \<Rightarrow> string \<Rightarrow> string"
  assumes apply_iff: "apply_override ov path fallback =
      (case map_of ov path of None \<Rightarrow> fallback
       | Some o' \<Rightarrow> if pick o' = '''' then fallback else pick o')"
begin

lemma no_overlay: "apply_override [] path fallback = fallback"
  by (simp add: apply_iff)

lemma never_blank: "fallback \<noteq> '''' \<Longrightarrow> apply_override ov path fallback \<noteq> ''''"
  by (simp add: apply_iff split: option.split)

lemma last_wins:
  "path \<noteq> '''' \<Longrightarrow> fo_path o' = path \<Longrightarrow> pick o' \<noteq> '''' \<Longrightarrow>
     apply_override (overrides_by_path (xs @ [o'])) path fallback = pick o'"
  by (simp add: apply_iff map_of_overrides_by_path)

lemma other_paths:
  "path \<noteq> '''' \<Longrightarrow> fo_path o' \<noteq> path \<Longrightarrow>
     apply_override (overrides_by_path (xs @ [o'])) path fallback =
     apply_override (overrides_by_path xs) path fallback"
  by (simp add: apply_iff map_of_overrides_by_path)

end

interpretation label_text: text_override fo_label apply_label_override
  by unfold_locales (simp add: apply_label_override_def)

interpretation hint_text: text_override fo_hint apply_hint_override
  by unfold_locales (simp add: apply_hint_override_def)

interpretation placeholder_text: text_override fo_placeholder apply_placeholder_override
  by unfold_locales (simp add: apply_placeholder_override_def)

section \<open>Properties\<close>

text \<open>
  Which FormDefinition wins. The overlays of a kind are folded in the order of their
  names, whatever order the API server listed them in: with distinct names any permutation of
  the list gives the same definitions, the folded map holds for each path the last override of
  that path, and so the override of the object with the greatest name decides label, hint,
  placeholder, order and visibility.
\<close>

theorem form_definitions_last_name_wins:
  assumes "distinct (map (u_name U) items)" "mset items' = mset items"
  shows "form_definitions_from_list U items' = form_definitions_from_list U items
    \<and> (path \<noteq> '''' \<longrightarrow> map_of (overrides_by_path (concat (map fd_fields defs))) path =
         find (\<lambda>o'. fo_path o' = path) (concat (map (\<lambda>d. rev (fd_fields d)) (rev defs))))"
proof -
  have "sort_strings (map (u_name U) items') = sort_strings (map (u_name U) items)"
    unfolding sort_strings_sort using assms(2)
    by (metis mset_map mset_sort properties_for_sort sorted_sort)
  moreover have "map_of (by_name U items') n = map_of (by_name U items) n" for n
  proof -
    have "distinct (map (u_name U) (rev items))" using assms(1) by (simp flip: rev_map)
    moreover have "mset (rev items) = mset (rev items')" using assms(2) by simp
    ultimately show ?thesis unfolding map_of_by_name by (metis find_perm_distinct)
  qed
  moreover have "rev (concat (map fd_fields defs)) = concat (map (\<lambda>d. rev (fd_fields d)) (rev defs))"
    by (simp add: rev_concat rev_map comp_def)
  ultimately show ?thesis
    by (simp add: form_definitions_from_list_def map_of_overrides_by_path)
qed

text \<open>The accessors of an object laid out as the API server sends it.\<close>

fun plain_map :: "jobj \<Rightarrow> string list \<Rightarrow> jobj option" where
  "plain_map m [] = Some m"
| "plain_map m (k # ks) = (case map_of m k of Some (JMap n) \<Rightarrow> plain_map n ks | _ \<Rightarrow> None)"

definition plain_field :: "jobj \<Rightarrow> string list \<Rightarrow> jval option" where
  "plain_field m p =
     (if p = [] then Some (JMap m)
      else Option.bind (plain_map m (butlast p)) (\<lambda>n. map_of n (last p)))"

definition plain_string_map :: "jobj \<Rightarrow> (string, string) gomap" where
  "plain_string_map m = List.map_filter (\<lambda>(k, v). map_option (Pair k) (as_str v)) m"

definition plain_unstr :: unstr where
  "plain_unstr =
     \<lparr>u_name = (\<lambda>o'. str_or_empty (Option.bind (plain_field o' [''metadata'', ''name'']) as_str)),
      u_namespace = (\<lambda>o'. str_or_empty (Option.bind (plain_field o' [''metadata'', ''namespace'']) as_str)),
      u_kind = (\<lambda>o'. str_at o' ''kind''),
      u_labels = (\<lambda>o'. map_option plain_string_map (plain_map o' [''metadata'', ''labels''])),
      u_resource_version = (\<lambda>o'. str_or_empty
           (Option.bind (plain_field o' [''metadata'', ''resourceVersion'']) as_str)),
      u_created = (\<lambda>o'. None),
      u_string = (\<lambda>o' p. Option.bind (plain_field o' p) as_str),
      u_int64 = (\<lambda>o' p. case plain_field o' p of Some (JInt n) \<Rightarrow> Some n | _ \<Rightarrow> None),
      u_map = (\<lambda>o' p. Option.bind (plain_field o' p) as_map),
      u_slice = (\<lambda>o' p. Option.bind (plain_field o' p) as_list),
      u_string_slice = (\<lambda>o' p. map_option (List.map_filter as_str) (Option.bind (plain_field o' p) as_list)),
      u_string_map = (\<lambda>o' p. map_option plain_string_map (Option.bind (plain_field o' p) as_map)),
      u_field = plain_field,
      u_set_resource_version = (\<lambda>rv o'. mput ''metadata''
           (JMap (mput ''resourceVersion'' (JStr rv)
             (case plain_map o' [''metadata''] of None \<Rightarrow> [] | Some m \<Rightarrow> m))) o'),
      u_set_map = (\<lambda>v p o'. case p of [k] \<Rightarrow> Inr (mput k (JMap v) o') | _ \<Rightarrow> Inl (Opaque ''path''))\<rparr>"

definition sample_form_def :: "string \<Rightarrow> string \<Rightarrow> jobj" where
  "sample_form_def name label =
     [(''metadata'', JMap [(''name'', JStr name)]),
      (''spec'', JMap [(''kind'', JStr ''Postgres''),
         (''fields'', JList [JMap [(''path'', JStr ''replicas''), (''label'', JStr label)]])])]"

theorem form_definitions_last_name_wins_witness:
  "form_definitions_from_list plain_unstr [sample_form_def ''b'' ''Nodes'', sample_form_def ''a'' ''Count''] =
   form_definitions_from_list plain_unstr [sample_form_def ''a'' ''Count'', sample_form_def ''b'' ''Nodes'']"
proof -
  have "distinct (map (u_name plain_unstr) [sample_form_def ''a'' ''Count'', sample_form_def ''b'' ''Nodes''])"
    by code_simp
  moreover have "mset [sample_form_def ''b'' ''Nodes'', sample_form_def ''a'' ''Count''] =
      mset [sample_form_def ''a'' ''Count'', sample_form_def ''b'' ''Nodes'']" by simp
  ultimately show ?thesis by (rule form_definitions_last_name_wins [THEN conjunct1])
qed

text \<open>The sample accessors keep the laws of the setters.\<close>

lemma plain_unstr_laws: "unstr_laws plain_unstr"
proof -
  have s: "plain_field (mput ''metadata'' v obj) [''spec''] = plain_field obj [''spec'']" for v obj
    by (simp add: plain_field_def)
  have n: "plain_field (mput ''metadata'' (JMap (mput ''resourceVersion'' (JStr rv)
        (case plain_map obj [''metadata''] of None \<Rightarrow> [] | Some m \<Rightarrow> m))) obj) [''metadata'', ''name''] =
      plain_field obj [''metadata'', ''name'']" for rv obj
    by (auto simp: plain_field_def split: option.splits jval.splits)
  have m: "plain_field (mput ''spec'' v obj) [''metadata'', k] = plain_field obj [''metadata'', k]"
    for v obj k by (simp add: plain_field_def)
  have r: "plain_field (mput ''metadata'' (JMap (mput ''resourceVersion'' v m)) obj)
      [''metadata'', ''resourceVersion''] = Some v" for v obj m
    by (simp add: plain_field_def)
  show ?thesis
    unfolding unstr_laws_def
    by (simp add: plain_unstr_def s n m r) (auto simp: plain_field_def split: option.splits jval.splits)
qed

end
