(* ===== verification/Schemas.thy ===== *)
theory Schemas
  imports Form_Definitions
begin

text \<open>
  \<open>internal/k8s/schema.go\<close>: reading ApplicationDefinitions and the cache in front of them,
  keyed by user and kind. The cache is the state of the service; time is in nanoseconds. A
  lookup is one operation here; two that overlap only write their own keys, so any order of the
  writes leaves the same cache up to the time stamps.
\<close>

definition schemaCacheTTL :: int where "schemaCacheTTL = 5 * 60 * 10 ^ 9"

definition ErrInvalidAppDef :: gerr where
  "ErrInvalidAppDef = Sentinel ''invalid ApplicationDefinition''"

definition app_def_gvr :: gvr where
  "app_def_gvr = mk_gvr ''cozystack.io'' ''v1alpha1'' ''applicationdefinitions''"

record app_schema =
  sc_kind :: string
  sc_plural :: string
  sc_display_name :: string
  sc_description :: string
  sc_category :: string
  sc_icon :: string
  sc_tags :: "string list"
  sc_json_schema :: jval
  sc_secret_templates :: "string list"
  sc_service_templates :: "string list"

type_synonym schema_cache = "(string \<times> string, app_schema \<times> int) gomap"

definition anonymousCacheUser :: string where "anonymousCacheUser = ''anonymous''"

definition cache_user_key :: "user_context option \<Rightarrow> string" where
  "cache_user_key usr = (case usr of None \<Rightarrow> anonymousCacheUser | Some u \<Rightarrow> uc_username u)"

definition nested_string :: "unstr \<Rightarrow> jobj \<Rightarrow> string list \<Rightarrow> string" where
  "nested_string U obj path = str_or_empty (u_string U obj path)"

definition extract_resource_name_templates :: "unstr \<Rightarrow> jobj \<Rightarrow> string list \<Rightarrow> string list" where
  "extract_resource_name_templates U obj path =
     (case u_slice U obj path of
        None \<Rightarrow> []
      | Some includes \<Rightarrow>
          concat (map (\<lambda>inc.
            (case Option.bind (as_map inc) (\<lambda>m. Option.bind (map_of m ''resourceNames'') as_list) of
               None \<Rightarrow> []
             | Some names \<Rightarrow> List.map_filter as_str names)) includes))"

definition empty_schema :: jval where
  "empty_schema = JMap [(''type'', JStr ''object''), (''properties'', JMap [])]"

definition app_def_to_schema :: "'w kenv \<Rightarrow> jobj \<Rightarrow> app_schema option" where
  "app_def_to_schema E obj =
     (let U = ke_unstr E;
          kind = nested_string U obj [''spec'', ''application'', ''kind'']
      in if kind = '''' then None
         else
           let d0 = nested_string U obj [''spec'', ''dashboard'', ''plural''];
               d1 = (if d0 = '''' then nested_string U obj [''spec'', ''dashboard'', ''singular''] else d0);
               display = (if d1 = '''' then kind else d1);
               schemaStr = nested_string U obj [''spec'', ''application'', ''openAPISchema''];
               jsonSchema =
                 (if schemaStr = '''' then JNull
                  else case ke_json E schemaStr of Inl e \<Rightarrow> empty_schema | Inr v \<Rightarrow> v)
           in Some \<lparr>sc_kind = kind,
                sc_plural = nested_string U obj [''spec'', ''application'', ''plural''],
                sc_display_name = display,
                sc_description = nested_string U obj [''spec'', ''dashboard'', ''description''],
                sc_category = nested_string U obj [''spec'', ''dashboard'', ''category''],
                sc_icon = nested_string U obj [''spec'', ''dashboard'', ''icon''],
                sc_tags = (case u_string_slice U obj [''spec'', ''dashboard'', ''tags''] of
                     None \<Rightarrow> [] | Some ts \<Rightarrow> ts),
                sc_json_schema = jsonSchema,
                sc_secret_templates = extract_resource_name_templates U obj [''spec'', ''secrets'', ''include''],
                sc_service_templates = extract_resource_name_templates U obj [''spec'', ''services'', ''include'']\<rparr>)"

definition schema_list :: "'w kenv \<Rightarrow> user_context \<Rightarrow> ('w, app_schema list) kop" where
  "schema_list E usr =
     with_client E usr (\<lambda>c.
       kthen (k_list c app_def_gvr '''' no_options) (\<lambda>e. Fmt ''listing ApplicationDefinitions: '' e '''')
         (\<lambda>l. kret (List.map_filter (app_def_to_schema E) (kl_items l))))"

definition find_by_kind :: "'w kenv \<Rightarrow> 'w kube \<Rightarrow> string \<Rightarrow> ('w, app_schema) kop" where
  "find_by_kind E c kind =
     kthen (k_list c app_def_gvr '''' no_options) (\<lambda>e. Fmt ''listing ApplicationDefinitions: '' e '''')
       (\<lambda>l. case find (\<lambda>s. sc_kind s = kind) (List.map_filter (app_def_to_schema E) (kl_items l)) of
          None \<Rightarrow> kfail (Fmt '''' ErrInvalidAppDef ('': kind '' @ kind))
        | Some s \<Rightarrow> kret s)"

definition cache_set :: "int \<Rightarrow> string \<times> string \<Rightarrow> app_schema \<Rightarrow> schema_cache \<Rightarrow> schema_cache" where
  "cache_set now key parsed cache = mput key (parsed, now) cache"

text \<open>The result of the lookup with the cache after it; \<open>now\<close> is the clock.\<close>

definition schema_get ::
  "'w kenv \<Rightarrow> int \<Rightarrow> user_context \<Rightarrow> string \<Rightarrow> schema_cache \<Rightarrow> 'w \<Rightarrow> schema_cache \<times> 'w \<times> app_schema res" where
  "schema_get E now usr kind cache w =
     (let key = (cache_user_key (Some usr), kind);
          fresh = (case map_of cache key of
             None \<Rightarrow> None
           | Some (s, at) \<Rightarrow> if now - at < schemaCacheTTL then Some s else None)
      in case fresh of
        Some s \<Rightarrow> (cache, w, Inr s)
      | None \<Rightarrow>
          (case user_client E usr of
             Inl e \<Rightarrow> (cache, w, Inl e)
           | Inr c \<Rightarrow>
               (case k_get c app_def_gvr '''' (to_lower kind) w of
                  (w1, got) \<Rightarrow>
                    (case Option.bind (res_to_option got) (app_def_to_schema E) of
                       Some parsed \<Rightarrow> (cache_set now key parsed cache, w1, Inr parsed)
                     | None \<Rightarrow>
                         (case find_by_kind E c kind w1 of
                            (w2, Inl e) \<Rightarrow> (cache, w2, Inl e)
                          | (w2, Inr parsed) \<Rightarrow> (cache_set now key parsed cache, w2, Inr parsed))))))"

section \<open>Lemmas\<close>

lemma schema_get_key_only:
  assumes "map_of cache (uc_username usr, kind) = map_of cache' (uc_username usr, kind)"
  shows "snd (schema_get E now usr kind cache w) = snd (schema_get E now usr kind cache' w)"
  using assms
  by (simp add: schema_get_def Let_def cache_user_key_def split: option.split prod.split sum.split)

lemma schema_get_cache:
  "fst (schema_get E now usr kind cache w) = cache \<or>
     (\<exists>s. snd (snd (schema_get E now usr kind cache w)) = Inr s \<and>
        fst (schema_get E now usr kind cache w) = mput (uc_username usr, kind) (s, now) cache)"
  by (auto simp: schema_get_def Let_def cache_user_key_def cache_set_def
      split: option.splits prod.splits sum.splits)

text \<open>
  The contract of a cache kept per owner: an operation of one owner neither reads nor writes
  the entries of another, and an operation that succeeded serves the same value until it
  expires.
\<close>

locale owned_cache =
  fixes lookup :: "int \<Rightarrow> 'o \<Rightarrow> 'k \<Rightarrow> ('o \<times> 'k, 'v \<times> int) gomap \<Rightarrow> 'x \<Rightarrow> ('o \<times> 'k, 'v \<times> int) gomap \<times> 'x \<times> 'v res"
    and ttl :: int
  assumes key_only: "map_of c (u, k) = map_of c' (u, k) \<Longrightarrow> snd (lookup now u k c x) = snd (lookup now u k c' x)"
    and writes_own: "fst (lookup now u k c x) = c \<or>
       (\<exists>v. snd (snd (lookup now u k c x)) = Inr v \<and> fst (lookup now u k c x) = mput (u, k) (v, now) c)"
    and hit: "map_of c (u, k) = Some (v, at) \<Longrightarrow> now - at < ttl \<Longrightarrow> lookup now u k c x = (c, x, Inr v)"
begin

lemma others_untouched:
  "p \<noteq> (u, k) \<Longrightarrow> map_of (fst (lookup now u k c x)) p = map_of c p"
  using writes_own [of now u k c x] by auto

lemma owners_independent:
  "u' \<noteq> u \<Longrightarrow> snd (lookup now' u' k' (fst (lookup now u k c x)) y) = snd (lookup now' u' k' c y)"
  by (rule key_only) (simp add: others_untouched)

lemma served_again:
  assumes "lookup now u k c x = (c', x', Inr v)" "map_of c (u, k) = None" "now \<le> now'" "now' - now < ttl"
    and "snd (lookup now u k c x) \<noteq> snd (lookup now u k c' x) \<or> c' \<noteq> c"
  shows "lookup now' u k c' y = (c', y, Inr v)"
proof -
  have "c' = mput (u, k) (v, now) c"
    using writes_own [of now u k c x] assms(1,5) by auto
  then show ?thesis using assms(4) by (intro hit) auto
qed

end

text \<open>The lookup of the service, by user name; the rest of the identity belongs to the owner.\<close>

definition schema_lookup ::
  "'w kenv \<Rightarrow> (string \<Rightarrow> user_context) \<Rightarrow> int \<Rightarrow> string \<Rightarrow> string \<Rightarrow> schema_cache \<Rightarrow> 'w \<Rightarrow>
     schema_cache \<times> 'w \<times> app_schema res" where
  "schema_lookup E ident now name kind cache w =
     schema_get E now ((ident name)\<lparr>uc_username := name\<rparr>) kind cache w"

interpretation schemas: owned_cache "schema_lookup E ident" schemaCacheTTL for E ident
proof
  show "map_of c (u, k) = map_of c' (u, k) \<Longrightarrow>
      snd (schema_lookup E ident now u k c x) = snd (schema_lookup E ident now u k c' x)" for c c' u k now x
    unfolding schema_lookup_def by (rule schema_get_key_only) simp
  show "fst (schema_lookup E ident now u k c x) = c \<or>
       (\<exists>v. snd (snd (schema_lookup E ident now u k c x)) = Inr v \<and>
          fst (schema_lookup E ident now u k c x) = mput (u, k) (v, now) c)" for now u k c x
    unfolding schema_lookup_def using schema_get_cache [of E now "(ident u)\<lparr>uc_username := u\<rparr>" k c x] by simp
  show "map_of c (u, k) = Some (v, at) \<Longrightarrow> now - at < schemaCacheTTL \<Longrightarrow>
      schema_lookup E ident now u k c x = (c, x, Inr v)" for c u k v at now x
    by (simp add: schema_lookup_def schema_get_def Let_def cache_user_key_def)
qed

section \<open>Properties\<close>


definition sample_kenv :: "unit kenv" where
  "sample_kenv = \<lparr>ke_sdk = sample_sdk, ke_base = sample_base, ke_mode = AuthModeToken, ke_unstr = plain_unstr,
      ke_errors = \<lparr>ae_is_conflict = (\<lambda>_. False), ae_is_forbidden = (\<lambda>_. False),
        ae_is_unauthorized = (\<lambda>_. False), ae_is_not_found = (\<lambda>_. False)\<rparr>,
      ke_parse_time = (\<lambda>_. None), ke_json = (\<lambda>_. Inr JNull)\<rparr>"

definition sample_schema :: app_schema where
  "sample_schema = \<lparr>sc_kind = ''Etcd'', sc_plural = ''etcds'', sc_display_name = ''etcd'',
     sc_description = '''', sc_category = ''PaaS'', sc_icon = '''', sc_tags = [], sc_json_schema = JNull,
     sc_secret_templates = [], sc_service_templates = []\<rparr>"


end
