(* ===== verification/Spec_Merge.thy ===== *)
theory Spec_Merge
  imports Go_Prelude
begin

text \<open>
  \<open>internal/k8s/merge.go\<close>: how the spec of an update replaces the stored one. A spec is a map of
  values; \<open>deep_merge_spec\<close> is the recursion of the source, over the entries of the incoming map
  in any order. \<open>jget\<close> reads a path of keys and states what the merge does to each of them.
\<close>

function deep_merge_spec :: "jobj \<Rightarrow> jobj \<Rightarrow> jobj" where
  "deep_merge_spec base [] = base"
| "deep_merge_spec base ((key, newVal) # rest) =
     deep_merge_spec
       (case map_of base key of
          None \<Rightarrow> mput key newVal base
        | Some existing \<Rightarrow>
            (case (existing, newVal) of
               (JMap baseMap, JMap newMap) \<Rightarrow> mput key (JMap (deep_merge_spec baseMap newMap)) base
             | _ \<Rightarrow> mput key newVal base)) rest"
  by pat_completeness auto
termination
  by (relation "measure (\<lambda>(b, i). size (JMap i))") auto

definition pick_next_spec :: "jobj \<Rightarrow> jobj \<Rightarrow> bool \<Rightarrow> jobj" where
  "pick_next_spec existing incoming replace = (if replace then incoming else deep_merge_spec existing incoming)"

section \<open>Paths\<close>

fun jget :: "jobj \<Rightarrow> string list \<Rightarrow> jval option" where
  "jget m [] = Some (JMap m)"
| "jget m (k # ks) =
     (case map_of m k of
        None \<Rightarrow> None
      | Some v \<Rightarrow> if ks = [] then Some v
                  else (case v of JMap n \<Rightarrow> jget n ks | _ \<Rightarrow> None))"

fun is_map :: "jval \<Rightarrow> bool" where
  "is_map (JMap m) = True" | "is_map _ = False"

text \<open>The keys of a Go map are distinct, at every level.\<close>

fun wf_val :: "jval \<Rightarrow> bool" where
  "wf_val (JMap m) = (distinct (map fst m) \<and> (\<forall>p\<in>set m. wf_val (snd p)))"
| "wf_val _ = True"

abbreviation wf_obj :: "jobj \<Rightarrow> bool" where
  "wf_obj m \<equiv> wf_val (JMap m)"

text \<open>
  The incoming map writes the path: it holds a value there, or a value that is not a map above
  it.
\<close>

fun writes :: "jobj \<Rightarrow> string list \<Rightarrow> bool" where
  "writes i [] = True"
| "writes i (k # ks) =
     (case map_of i k of
        None \<Rightarrow> False
      | Some v \<Rightarrow> if ks = [] then True else (case v of JMap n \<Rightarrow> writes n ks | _ \<Rightarrow> True))"

section \<open>What one merge does to a key\<close>

definition merge_val :: "jval option \<Rightarrow> jval \<Rightarrow> jval" where
  "merge_val old v =
     (case (old, v) of
        (Some (JMap b), JMap n) \<Rightarrow> JMap (deep_merge_spec b n)
      | _ \<Rightarrow> v)"

lemma merge_step:
  "(case map_of base key of
      None \<Rightarrow> mput key newVal base
    | Some existing \<Rightarrow>
        (case (existing, newVal) of
           (JMap baseMap, JMap newMap) \<Rightarrow> mput key (JMap (deep_merge_spec baseMap newMap)) base
         | _ \<Rightarrow> mput key newVal base)) = mput key (merge_val (map_of base key) newVal) base"
  by (simp add: merge_val_def split: option.split jval.split)

lemma deep_merge_Cons [simp]:
  "deep_merge_spec base ((k, v) # rest) =
     deep_merge_spec (mput k (merge_val (map_of base k) v) base) rest"
  by (simp only: deep_merge_spec.simps merge_step)

declare deep_merge_spec.simps(2) [simp del]

lemma map_of_deep_merge:
  "distinct (map fst i) \<Longrightarrow> map_of (deep_merge_spec b i) k =
     (case map_of i k of None \<Rightarrow> map_of b k | Some v \<Rightarrow> Some (merge_val (map_of b k) v))"
proof (induction i arbitrary: b)
  case (Cons p i)
  obtain k' v where p: "p = (k', v)" by fastforce
  from Cons.prems p have "map_of i k' = None" by (simp add: map_of_eq_None_iff)
  with Cons p show ?case by (auto split: option.splits)
qed simp

lemma set_mput: "p \<in> set (mput k v b) \<Longrightarrow> p = (k, v) \<or> p \<in> set b"
  by (induction b) (auto split: if_splits)

lemma wf_mput: "wf_obj b \<Longrightarrow> wf_val v \<Longrightarrow> wf_obj (mput k v b)"
  by (auto dest!: set_mput)

lemma wf_map_of: "wf_obj m \<Longrightarrow> map_of m k = Some v \<Longrightarrow> wf_val v"
  by (auto dest!: map_of_SomeD)

lemma deep_merge_induct [case_names Nil Cons]:
  assumes "\<And>b. P b []"
    and "\<And>b k v rest. (\<And>b' n. map_of b k = Some (JMap b') \<Longrightarrow> v = JMap n \<Longrightarrow> P b' n) \<Longrightarrow>
           P (mput k (merge_val (map_of b k) v) b) rest \<Longrightarrow> P b ((k, v) # rest)"
  shows "P b i"
proof (induction "size (JMap i)" arbitrary: b i rule: less_induct)
  case less
  show ?case
  proof (cases i)
    case (Cons p rest)
    obtain k v where p: "p = (k, v)" by fastforce
    have nested: "P b' n" if "v = JMap n" for b' n
      by (rule less) (use that Cons p in simp)
    have rest: "P b' rest" for b'
      by (rule less) (use Cons p in simp)
    show ?thesis unfolding Cons p by (rule assms(2) [OF nested rest])
  qed (use assms(1) in simp)
qed

lemma wf_deep_merge: "wf_obj b \<Longrightarrow> wf_obj i \<Longrightarrow> wf_obj (deep_merge_spec b i)"
proof (induction b i rule: deep_merge_induct)
  case (Cons base k v rest)
  have "wf_val (merge_val (map_of base k) v)"
  proof (cases "\<exists>b n. map_of base k = Some (JMap b) \<and> v = JMap n")
    case True
    then obtain b n where bn: "map_of base k = Some (JMap b)" "v = JMap n" by blast
    have "wf_obj b" using wf_map_of [OF Cons(3) bn(1)] .
    moreover have "wf_obj n" using Cons(4) bn(2) by simp
    ultimately have "wf_obj (deep_merge_spec b n)" using Cons(1) [OF bn] by blast
    with bn show ?thesis by (simp add: merge_val_def)
  next
    case False
    with Cons(4) show ?thesis by (auto simp: merge_val_def split: option.splits jval.splits)
  qed
  then have "wf_obj (mput k (merge_val (map_of base k) v) base)" by (rule wf_mput [OF Cons(3)])
  moreover have "wf_obj rest" using Cons(4) by simp
  ultimately show ?case using Cons(2) unfolding deep_merge_Cons by blast
qed simp

lemma jget_not_written: "p \<noteq> [] \<Longrightarrow> \<not> writes i p \<Longrightarrow> jget i p = None"
  by (induction i p rule: jget.induct) (auto split: option.splits jval.splits if_splits)

lemma jget_deep_merge:
  assumes "wf_obj i" "p \<noteq> []"
  shows "jget (deep_merge_spec b i) p =
     (case jget i p of
        Some v \<Rightarrow> Some (merge_val (jget b p) v)
      | None \<Rightarrow> if writes i p then None else jget b p)"
  using assms
proof (induction i p arbitrary: b rule: jget.induct)
  case (2 i k ks)
  have d: "distinct (map fst i)" using 2(2) by simp
  show ?case
  proof (cases "map_of i k")
    case None
    then show ?thesis by (simp add: map_of_deep_merge [OF d])
  next
    case (Some v)
    show ?thesis
    proof (cases "ks = []")
      case True
      with Some show ?thesis by (simp add: map_of_deep_merge [OF d] split: option.split)
    next
      case False
      have merged: "map_of (deep_merge_spec b i) k = Some (merge_val (map_of b k) v)"
        using Some by (simp add: map_of_deep_merge [OF d])
      show ?thesis
      proof (cases v)
        case (JMap n)
        have wfn: "wf_obj n" using wf_map_of [OF 2(2) Some] JMap by simp
        have IH: "jget (deep_merge_spec b' n) ks = (case jget n ks of
            Some v \<Rightarrow> Some (merge_val (jget b' ks) v)
          | None \<Rightarrow> if writes n ks then None else jget b' ks)" for b'
          using 2(1) [OF Some False JMap wfn False] .
        show ?thesis
        proof (cases "\<exists>b'. map_of b k = Some (JMap b')")
          case True
          then show ?thesis using merged JMap Some False IH
            by (auto simp: merge_val_def split: option.split)
        next
          case other: False
          then have "merge_val (map_of b k) v = v" "jget b (k # ks) = None"
            using False by (auto simp: merge_val_def split: option.splits jval.splits)
          with merged JMap Some False jget_not_written [OF False, of n] show ?thesis
            by (auto simp: merge_val_def split: option.splits)
        qed
      qed (use merged Some False in \<open>auto simp: merge_val_def split: option.splits jval.splits\<close>)
    qed
  qed
qed simp

section \<open>Properties\<close>

text \<open>
  C9: what a partial update does to every path of the spec. A path the incoming map does not
  write keeps its value, at any depth, so nothing the form did not show is lost; a path with an
  incoming value that is not a map has exactly that value; where both sides have a map they are
  merged; where the incoming map puts a value that is not a map above the path, nothing is left
  below it. With \<open>replace\<close> the incoming spec is taken as it is.
\<close>

theorem update_spec_paths:
  assumes "wf_obj incoming" "p \<noteq> []"
  shows "jget (pick_next_spec existing incoming False) p =
     (case jget incoming p of
        Some (JMap n) \<Rightarrow> (case jget existing p of
            Some (JMap b) \<Rightarrow> Some (JMap (pick_next_spec b n False)) | _ \<Rightarrow> Some (JMap n))
      | Some v \<Rightarrow> Some v
      | None \<Rightarrow> if writes incoming p then None else jget existing p)
    \<and> pick_next_spec existing incoming True = incoming"
  using jget_deep_merge [OF assms, of existing]
  by (auto simp: pick_next_spec_def merge_val_def split: option.splits jval.splits)

theorem update_spec_paths_witness:
  "jget (pick_next_spec [(''backup'', JMap [(''schedule'', JStr ''daily''), (''keep'', JInt 7)]), (''replicas'', JInt 2)]
      [(''backup'', JMap [(''schedule'', JStr ''weekly'')])] False) [''backup'', ''keep''] = Some (JInt 7)"
proof -
  have "wf_obj [(''backup'', JMap [(''schedule'', JStr ''weekly'')])]" "[''backup'', ''keep''] \<noteq> []" by simp_all
  from update_spec_paths [OF this, of "[(''backup'', JMap [(''schedule'', JStr ''daily''), (''keep'', JInt 7)]), (''replicas'', JInt 2)]"]
  show ?thesis by simp
qed

text \<open>
  The result of an update does not depend on the order in which Go happens to walk the
  incoming map, and it is again a map with distinct keys at every level.
\<close>

theorem update_spec_order:
  assumes "wf_obj existing" "wf_obj incoming" "mset incoming' = mset incoming"
  shows "map_of (pick_next_spec existing incoming' replace) = map_of (pick_next_spec existing incoming replace)
    \<and> wf_obj (pick_next_spec existing incoming replace)"
proof -
  have d: "distinct (map fst incoming)" using assms(2) by simp
  have "mset (map fst incoming') = mset (map fst incoming)" using assms(3) by simp
  then have d': "distinct (map fst incoming')" using d by (metis mset_eq_imp_distinct_iff)
  have "set incoming' = set incoming" using assms(3) by (metis mset_eq_setD)
  then have m: "map_of incoming' = map_of incoming" using d d' by (simp add: map_of_inject_set)
  have "map_of (deep_merge_spec existing incoming') k = map_of (deep_merge_spec existing incoming) k" for k
    by (simp add: map_of_deep_merge d d' m)
  then have "map_of (deep_merge_spec existing incoming') = map_of (deep_merge_spec existing incoming)"
    by (rule ext)
  with m wf_deep_merge [OF assms(1,2)] assms(2) show ?thesis
    unfolding pick_next_spec_def by (cases replace) simp_all
qed

theorem update_spec_order_witness:
  "map_of (pick_next_spec [(''a'', JInt 1)] [(''c'', JNull), (''a'', JStr ''x'')] False) ''a'' =
   map_of (pick_next_spec [(''a'', JInt 1)] [(''a'', JStr ''x''), (''c'', JNull)] False) ''a''"
proof -
  have "wf_obj [(''a'', JInt 1)]" "wf_obj [(''a'', JStr ''x''), (''c'', JNull)]"
    "mset [(''c'', JNull), (''a'', JStr ''x'')] = mset [(''a'', JStr ''x''), (''c'', JNull)]" by simp_all
  from update_spec_order [OF this, of False, THEN conjunct1] show ?thesis by (rule fun_cong)
qed

end
