(* ===== verification/Applications.thy ===== *)
theory Applications
  imports Schemas Spec_Merge
begin

text \<open>
  \<open>internal/k8s/application.go\<close> with the types of \<open>types.go\<close> it returns: the Cozystack
  applications of a tenant, read through their HelmReleases and written through their own CRDs.
  Every operation is a sequence of cluster calls; the cluster state is threaded through, so
  other writers may act between two calls.
\<close>

section \<open>types.go\<close>

datatype app_status = AppStatusReady | AppStatusReconciling | AppStatusFailed | AppStatusUnknown

fun app_status_text :: "app_status \<Rightarrow> string" where
  "app_status_text AppStatusReady = ''Ready''"
| "app_status_text AppStatusReconciling = ''Reconciling''"
| "app_status_text AppStatusFailed = ''Failed''"
| "app_status_text AppStatusUnknown = ''Unknown''"

record condition =
  cn_type :: string
  cn_status :: string
  cn_reason :: string
  cn_message :: string
  cn_transition :: "int option"

text \<open>\<open>None\<close> is the nil map of \<open>ConnectionInfo\<close> and the zero time of \<open>CreatedAt\<close>.\<close>

record application =
  ap_name :: string
  ap_kind :: string
  ap_tenant :: string
  ap_status :: app_status
  ap_conditions :: "condition list"
  ap_spec :: jobj
  ap_connection_info :: "(string, string) gomap option"
  ap_created :: "int option"

record create_application_request =
  cr_name :: string
  cr_kind :: string
  cr_spec :: jobj

record update_application_request =
  ur_spec :: jobj
  ur_resource_version :: string
  ur_replace_spec :: bool

record application_list =
  al_items :: "application list"
  al_truncated :: bool

record spec_snapshot =
  sn_spec :: jobj
  sn_kind :: string
  sn_resource_version :: string

section \<open>application.go: objects\<close>

definition cozyAppGroup :: string where "cozyAppGroup = ''apps.cozystack.io''"
definition ErrAppNotFound :: gerr where "ErrAppNotFound = Sentinel ''application not found''"
definition ErrConflict :: gerr where
  "ErrConflict = Sentinel ''resource was modified by another writer''"

definition conflictMessageFragment :: string where
  "conflictMessageFragment = ''the object has been modified''"

definition is_conflict_error :: "'w kenv \<Rightarrow> gerr \<Rightarrow> bool" where
  "is_conflict_error E e =
     (ae_is_conflict (ke_errors E) e \<or> contains (err_text e) conflictMessageFragment)"

definition AppListLimit :: int where "AppListLimit = 500"

definition helm_release_gvr :: gvr where
  "helm_release_gvr = mk_gvr ''helm.toolkit.fluxcd.io'' ''v2'' ''helmreleases''"

definition secrets_gvr :: gvr where "secrets_gvr = mk_gvr '''' ''v1'' ''secrets''"

definition knownPlurals :: "(string, string) gomap" where
  "knownPlurals =
     [(''postgres'', ''postgreses''), (''redis'', ''redises''), (''kubernetes'', ''kuberneteses''),
      (''nats'', ''natses''), (''seaweedfs'', ''seaweedfses''), (''clickhouse'', ''clickhouses''),
      (''mongodb'', ''mongodbs''), (''mariadb'', ''mariadbs''), (''kafka'', ''kafkas''),
      (''rabbitmq'', ''rabbitmqs''), (''etcd'', ''etcds''), (''harbor'', ''harbors''),
      (''qdrant'', ''qdrants''), (''openbao'', ''openbaos''), (''tenant'', ''tenants''),
      (''bucket'', ''buckets''), (''ingress'', ''ingresses''), (''httpcache'', ''httpcaches''),
      (''tcpbalancer'', ''tcpbalancers''), (''monitoring'', ''monitorings''),
      (''vminstance'', ''vminstances''), (''vmdisk'', ''vmdisks''), (''vpn'', ''vpns''),
      (''virtualprivatecloud'', ''virtualprivateclouds''), (''minecraftserver'', ''minecraftservers''),
      (''minecraftplugin'', ''minecraftplugins''), (''foundationdb'', ''foundationdbs''),
      (''info'', ''infos'')]"

definition app_gvr :: "string \<Rightarrow> gvr" where
  "app_gvr kind =
     (let plural = to_lower kind
      in mk_gvr cozyAppGroup ''v1alpha1''
           (case map_of knownPlurals plural of Some known \<Rightarrow> known | None \<Rightarrow> plural @ ''s''))"

text \<open>The loop over the conditions stops at the first one of type \<open>Ready\<close>.\<close>

fun status_of_conditions :: "jval list \<Rightarrow> app_status" where
  "status_of_conditions [] = AppStatusUnknown"
| "status_of_conditions (cond # rest) =
     (case as_map cond of
        None \<Rightarrow> status_of_conditions rest
      | Some m \<Rightarrow>
          if str_at m ''type'' = ''Ready'' then
            (if str_at m ''status'' = ''True'' then AppStatusReady
             else if str_at m ''reason'' \<in> {''Progressing'', ''ArtifactFailed''} then AppStatusReconciling
             else AppStatusFailed)
          else status_of_conditions rest)"

definition extract_status :: "unstr \<Rightarrow> jobj \<Rightarrow> app_status" where
  "extract_status U obj =
     (case u_slice U obj [''status'', ''conditions''] of
        None \<Rightarrow> AppStatusUnknown | Some conds \<Rightarrow> status_of_conditions conds)"

definition extract_conditions :: "'w kenv \<Rightarrow> jobj \<Rightarrow> condition list" where
  "extract_conditions E obj =
     (case u_slice (ke_unstr E) obj [''status'', ''conditions''] of
        None \<Rightarrow> []
      | Some raw \<Rightarrow>
          List.map_filter (\<lambda>c. map_option (\<lambda>m.
            \<lparr>cn_type = str_at m ''type'', cn_status = str_at m ''status'',
             cn_reason = str_at m ''reason'', cn_message = str_at m ''message'',
             cn_transition = Option.bind (Option.bind (map_of m ''lastTransitionTime'') as_str)
                (ke_parse_time E)\<rparr>) (as_map c)) raw)"

definition spec_or_empty :: "jobj option \<Rightarrow> jobj" where
  "spec_or_empty o' = (case o' of None \<Rightarrow> [] | Some m \<Rightarrow> m)"

definition created_at :: "int \<Rightarrow> int option \<Rightarrow> int option" where
  "created_at now c = (case c of None \<Rightarrow> Some now | Some t \<Rightarrow> Some t)"

definition zero_application :: application where
  "zero_application = \<lparr>ap_name = '''', ap_kind = '''', ap_tenant = '''', ap_status = AppStatusUnknown,
     ap_conditions = [], ap_spec = [], ap_connection_info = None, ap_created = None\<rparr>"

definition helm_release_to_application :: "'w kenv \<Rightarrow> int \<Rightarrow> jobj \<Rightarrow> string \<Rightarrow> application" where
  "helm_release_to_application E now obj tenant =
     (let U = ke_unstr E in
      case u_labels U obj of
        None \<Rightarrow> zero_application\<lparr>ap_tenant := tenant\<rparr>
      | Some labels \<Rightarrow>
          \<lparr>ap_name = mget_or '''' labels cozyAppNameLabel, ap_kind = mget_or '''' labels cozyAppKindLabel,
           ap_tenant = tenant, ap_status = extract_status U obj,
           ap_conditions = extract_conditions E obj,
           ap_spec = spec_or_empty (u_map U obj [''spec'', ''values'']), ap_connection_info = None,
           ap_created = created_at now (u_created U obj)\<rparr>)"

definition crd_to_application :: "'w kenv \<Rightarrow> int \<Rightarrow> jobj \<Rightarrow> string \<Rightarrow> application" where
  "crd_to_application E now obj tenant =
     (let U = ke_unstr E in
      \<lparr>ap_name = u_name U obj, ap_kind = u_kind U obj, ap_tenant = tenant,
       ap_status = extract_status U obj, ap_conditions = extract_conditions E obj,
       ap_spec = spec_or_empty (u_map U obj [''spec'']), ap_connection_info = None,
       ap_created = created_at now (u_created U obj)\<rparr>)"

section \<open>application.go: credentials of an application\<close>

text \<open>\<open>base64.StdEncoding\<close>: padded, with the two characters of the standard alphabet.\<close>

definition b64_std_digit :: "char \<Rightarrow> nat option" where
  "b64_std_digit c =
     (if c = CHR ''+'' then Some 62 else if c = CHR ''/'' then Some 63
      else if c = CHR ''-'' \<or> c = CHR ''_'' then None else b64_digit c)"

definition base64_decode :: "string \<Rightarrow> string res" where
  "base64_decode s =
     (let t = filter (\<lambda>c. c \<noteq> CHR 0x0A \<and> c \<noteq> CHR 0x0D) s;
          body = (if has_suffix t ''=='' then take (length t - 2) t
                  else if has_suffix t ''='' then take (length t - 1) t else t);
          ds = map b64_std_digit body
      in if length t mod 4 \<noteq> 0 \<or> None \<in> set ds then Inl (Opaque ''illegal base64 data'')
         else (case b64_groups (map the ds) of
                 None \<Rightarrow> Inl (Opaque ''illegal base64 data'') | Some r \<Rightarrow> Inr r))"

text \<open>The loop over \<open>data\<close> stores every string value, decoded where it decodes.\<close>

definition secret_entry :: "string \<times> jval \<Rightarrow> (string, string) gomap \<Rightarrow> (string, string) gomap" where
  "secret_entry p dest =
     (case as_str (snd p) of
        None \<Rightarrow> dest
      | Some str \<Rightarrow> mput (fst p) (case base64_decode str of Inl e \<Rightarrow> str | Inr d \<Rightarrow> d) dest)"

definition read_secret_into ::
  "'w kenv \<Rightarrow> 'w kube \<Rightarrow> string \<Rightarrow> string \<Rightarrow> (string, string) gomap \<Rightarrow> 'w \<Rightarrow> 'w \<times> (string, string) gomap" where
  "read_secret_into E c tenant secretName dest w =
     (case k_get c secrets_gvr tenant secretName w of
        (w', Inl e) \<Rightarrow> (w', dest)
      | (w', Inr obj) \<Rightarrow>
          (case u_map (ke_unstr E) obj [''data''] of
             None \<Rightarrow> (w', dest) | Some data \<Rightarrow> (w', fold secret_entry data dest)))"

definition connection_secret :: "string \<Rightarrow> string \<Rightarrow> bool" where
  "connection_secret prefix secName =
     (has_prefix secName prefix \<and> \<not> contains secName ''sh.helm.release'' \<and>
      trim_prefix secName prefix \<notin> {''ca'', ''server'', ''replication'', ''init-script''})"

definition read_secrets ::
  "'w kenv \<Rightarrow> 'w kube \<Rightarrow> string \<Rightarrow> string list \<Rightarrow> (string, string) gomap \<Rightarrow> 'w \<Rightarrow> 'w \<times> (string, string) gomap" where
  "read_secrets E c tenant names dest w =
     fold (\<lambda>n (w, dest). read_secret_into E c tenant n dest w) names (w, dest)"

definition find_secrets_by_prefix ::
  "'w kenv \<Rightarrow> 'w kube \<Rightarrow> string \<Rightarrow> string \<Rightarrow> (string, string) gomap \<Rightarrow> 'w \<Rightarrow> 'w \<times> (string, string) gomap" where
  "find_secrets_by_prefix E c tenant prefix dest w =
     (case k_list c secrets_gvr tenant no_options w of
        (w', Inl e) \<Rightarrow> (w', dest)
      | (w', Inr l) \<Rightarrow>
          read_secrets E c tenant
            (filter (connection_secret prefix) (map (u_name (ke_unstr E)) (kl_items l))) dest w')"

definition get_connection_info ::
  "'w kenv \<Rightarrow> int \<Rightarrow> 'w kube \<Rightarrow> user_context \<Rightarrow> string \<Rightarrow> string \<Rightarrow> string \<Rightarrow> schema_cache \<Rightarrow> 'w \<Rightarrow>
     schema_cache \<times> 'w \<times> (string, string) gomap option" where
  "get_connection_info E now c usr tenant name kind cache w =
     (case schema_get E now usr kind cache w of
        (cache', w1, r) \<Rightarrow>
          let names = (case r of Inl e \<Rightarrow> []
                       | Inr s \<Rightarrow> map (\<lambda>tmpl. replace_all tmpl ''{{ .name }}'' name) (sc_secret_templates s))
          in (case read_secrets E c tenant names [] w1 of
                (w2, found) \<Rightarrow>
                  (case (if found = [] then
                           find_secrets_by_prefix E c tenant (to_lower kind @ ''-'' @ name @ ''-'') [] w2
                         else (w2, found)) of
                     (w3, found') \<Rightarrow> (cache', w3, if found' = [] then None else Some found'))))"

section \<open>application.go: the service\<close>

definition name_selector :: "string \<Rightarrow> list_options" where
  "name_selector name = no_options\<lparr>lo_label_selector := cozyAppNameLabel @ ''='' @ name\<rparr>"

definition invalid_name :: "string \<Rightarrow> gerr" where
  "invalid_name name = Fmt '''' ErrAppNotFound ('': invalid application name '' @ go_quote name)"

definition find_app_kind :: "'w kenv \<Rightarrow> 'w kube \<Rightarrow> string \<Rightarrow> string \<Rightarrow> ('w, string) kop" where
  "find_app_kind E c tenant name =
     (if \<not> is_valid_label_value name then kfail (invalid_name name)
      else kthen (k_list c helm_release_gvr tenant (name_selector name))
             (\<lambda>e. Fmt ''finding application kind: '' e '''')
             (\<lambda>l. case kl_items l of
                [] \<Rightarrow> kfail (Fmt '''' ErrAppNotFound ('': '' @ name @ '' in '' @ tenant))
              | obj # _ \<Rightarrow> kret (case u_labels (ke_unstr E) obj of
                  None \<Rightarrow> '''' | Some labels \<Rightarrow> mget_or '''' labels cozyAppKindLabel)))"

definition app_list :: "'w kenv \<Rightarrow> int \<Rightarrow> user_context \<Rightarrow> string \<Rightarrow> ('w, application_list) kop" where
  "app_list E now usr tenant =
     with_client E usr (\<lambda>c.
       kthen (k_list c helm_release_gvr tenant
                (no_options\<lparr>lo_label_selector := cozyAppKindLabel, lo_limit := AppListLimit\<rparr>))
         (\<lambda>e. Fmt (''listing applications in '' @ tenant @ '': '') e '''')
         (\<lambda>l. kret \<lparr>al_items = map (\<lambda>obj. helm_release_to_application E now obj tenant) (kl_items l),
                al_truncated = (kl_continue l \<noteq> '''')\<rparr>))"

definition app_get ::
  "'w kenv \<Rightarrow> int \<Rightarrow> user_context \<Rightarrow> string \<Rightarrow> string \<Rightarrow> schema_cache \<Rightarrow> 'w \<Rightarrow>
     schema_cache \<times> 'w \<times> application res" where
  "app_get E now usr tenant name cache w =
     (if \<not> is_valid_label_value name then (cache, w, Inl (invalid_name name))
      else case user_client E usr of
        Inl e \<Rightarrow> (cache, w, Inl e)
      | Inr c \<Rightarrow>
          (case k_list c helm_release_gvr tenant (name_selector name) w of
             (w1, Inl e) \<Rightarrow>
               (cache, w1, Inl (Fmt (''getting application '' @ tenant @ ''/'' @ name @ '': '') e ''''))
           | (w1, Inr l) \<Rightarrow>
               (case kl_items l of
                  [] \<Rightarrow> (cache, w1, Inl (Fmt '''' ErrAppNotFound ('': '' @ name @ '' in '' @ tenant)))
                | obj # _ \<Rightarrow>
                    let app = helm_release_to_application E now obj tenant
                    in (case get_connection_info E now c usr tenant name (ap_kind app) cache w1 of
                          (cache', w2, info) \<Rightarrow> (cache', w2, Inr (app\<lparr>ap_connection_info := info\<rparr>))))))"

definition app_create ::
  "'w kenv \<Rightarrow> int \<Rightarrow> user_context \<Rightarrow> string \<Rightarrow> create_application_request \<Rightarrow> ('w, application) kop" where
  "app_create E now usr tenant req =
     with_client E usr (\<lambda>c.
       kthen (k_create c (app_gvr (cr_kind req)) tenant
           [(''apiVersion'', JStr (cozyAppGroup @ ''/v1alpha1'')), (''kind'', JStr (cr_kind req)),
            (''metadata'', JMap [(''name'', JStr (cr_name req)), (''namespace'', JStr tenant)]),
            (''spec'', JMap (cr_spec req))])
         (\<lambda>e. Fmt (''creating '' @ cr_kind req @ '' '' @ tenant @ ''/'' @ cr_name req @ '': '') e '''')
         (\<lambda>created. kret (crd_to_application E now created tenant)))"

definition app_get_spec_snapshot ::
  "'w kenv \<Rightarrow> user_context \<Rightarrow> string \<Rightarrow> string \<Rightarrow> ('w, spec_snapshot) kop" where
  "app_get_spec_snapshot E usr tenant name =
     (if \<not> is_valid_label_value name then kfail (invalid_name name)
      else with_client E usr (\<lambda>c.
        kthen (find_app_kind E c tenant name) (\<lambda>e. e) (\<lambda>kind.
          kthen (k_get c (app_gvr kind) tenant name)
            (\<lambda>e. Fmt (''getting '' @ kind @ '' '' @ tenant @ ''/'' @ name @ '': '') e '''')
            (\<lambda>obj. kret \<lparr>sn_spec = spec_or_empty (u_map (ke_unstr E) obj [''spec'']), sn_kind = kind,
                sn_resource_version = u_resource_version (ke_unstr E) obj\<rparr>))))"

text \<open>
  \<open>Update\<close> is the reads that end with the object to write, and the write itself.
\<close>

definition app_update_prepare ::
  "'w kenv \<Rightarrow> 'w kube \<Rightarrow> string \<Rightarrow> string \<Rightarrow> update_application_request \<Rightarrow> ('w, string \<times> jobj) kop" where
  "app_update_prepare E c tenant name req =
     kthen (find_app_kind E c tenant name) (\<lambda>e. e) (\<lambda>kind.
       kthen (k_get c (app_gvr kind) tenant name)
         (\<lambda>e. Fmt (''getting '' @ kind @ '' for update: '') e '''')
         (\<lambda>obj.
           let U = ke_unstr E;
               nextSpec = pick_next_spec (spec_or_empty (u_map U obj [''spec''])) (ur_spec req)
                 (ur_replace_spec req)
           in case u_set_map U nextSpec [''spec''] obj of
                Inl e \<Rightarrow> kfail (Fmt ''setting spec: '' e '''')
              | Inr obj' \<Rightarrow>
                  kret (kind, if ur_resource_version req \<noteq> ''''
                              then u_set_resource_version U (ur_resource_version req) obj' else obj')))"

definition app_update ::
  "'w kenv \<Rightarrow> int \<Rightarrow> user_context \<Rightarrow> string \<Rightarrow> string \<Rightarrow> update_application_request \<Rightarrow> ('w, application) kop" where
  "app_update E now usr tenant name req =
     with_client E usr (\<lambda>c.
       kthen (app_update_prepare E c tenant name req) (\<lambda>e. e) (\<lambda>(kind, obj).
         kthen (k_update c (app_gvr kind) tenant obj)
           (\<lambda>e. if is_conflict_error E e then ErrConflict
                else Fmt (''updating '' @ kind @ '' '' @ tenant @ ''/'' @ name @ '': '') e '''')
           (\<lambda>updated. kret (crd_to_application E now updated tenant))))"

definition app_delete :: "'w kenv \<Rightarrow> user_context \<Rightarrow> string \<Rightarrow> string \<Rightarrow> ('w, unit) kop" where
  "app_delete E usr tenant name =
     with_client E usr (\<lambda>c.
       kthen (find_app_kind E c tenant name) (\<lambda>e. e) (\<lambda>kind w.
         (case k_delete c (app_gvr kind) tenant name w of
            (w', Some e) \<Rightarrow>
              (w', Inl (Fmt (''deleting '' @ kind @ '' '' @ tenant @ ''/'' @ name @ '': '') e ''''))
          | (w', None) \<Rightarrow> (w', Inr ()))))"

section \<open>Lemmas\<close>

lemma kthen_Inr:
  "kthen m wrap f w = (w', Inr x) \<longleftrightarrow> (\<exists>w1 y. m w = (w1, Inr y) \<and> f y w1 = (w', Inr x))"
  by (auto simp: kthen_def split: prod.splits sum.splits)

lemma kret_Inr [simp]: "kret x w = (w', Inr y) \<longleftrightarrow> w' = w \<and> y = x"
  by (auto simp: kret_def)

lemma kfail_Inr [simp]: "kfail e w \<noteq> (w', Inr y)"
  by (simp add: kfail_def)

lemma find_app_kind_invalid:
  "\<not> is_valid_label_value name \<Longrightarrow> find_app_kind E c tenant name w = (w, Inl (invalid_name name))"
  by (simp add: find_app_kind_def kfail_def)

lemma app_update_prepare_Inr:
  assumes "app_update_prepare E c tenant name req w = (w2, Inr (kind, obj'))"
    and "unstr_laws (ke_unstr E)"
  obtains w1 obj where "find_app_kind E c tenant name w = (w1, Inr kind)"
    "k_get c (app_gvr kind) tenant name w1 = (w2, Inr obj)"
    "u_map (ke_unstr E) obj' [''spec''] = Some (pick_next_spec
        (spec_or_empty (u_map (ke_unstr E) obj [''spec''])) (ur_spec req) (ur_replace_spec req))"
    "u_resource_version (ke_unstr E) obj' =
       (if ur_resource_version req = '''' then u_resource_version (ke_unstr E) obj
        else ur_resource_version req)"
    "u_name (ke_unstr E) obj' = u_name (ke_unstr E) obj"
proof -
  let ?U = "ke_unstr E"
  from assms(1) obtain w1 k w' obj where fk: "find_app_kind E c tenant name w = (w1, Inr k)"
    and g: "k_get c (app_gvr k) tenant name w1 = (w', Inr obj)"
    and o: "(case u_set_map ?U (pick_next_spec (spec_or_empty (u_map ?U obj [''spec''])) (ur_spec req)
          (ur_replace_spec req)) [''spec''] obj of
        Inl e \<Rightarrow> kfail (Fmt ''setting spec: '' e '''')
      | Inr obj' \<Rightarrow> kret (k, if ur_resource_version req \<noteq> ''''
          then u_set_resource_version ?U (ur_resource_version req) obj' else obj')) w' = (w2, Inr (kind, obj'))"
    by (auto simp: app_update_prepare_def kthen_Inr Let_def)
  let ?next = "pick_next_spec (spec_or_empty (u_map ?U obj [''spec''])) (ur_spec req) (ur_replace_spec req)"
  from assms(2) obtain x where x: "u_set_map ?U ?next [''spec''] obj = Inr x"
    "u_map ?U x [''spec''] = Some ?next" "u_name ?U x = u_name ?U obj"
    "u_resource_version ?U x = u_resource_version ?U obj"
    unfolding unstr_laws_def by metis
  from o x(1) have obj': "obj' = (if ur_resource_version req \<noteq> ''''
      then u_set_resource_version ?U (ur_resource_version req) x else x)" and e: "k = kind" "w' = w2"
    by simp_all
  note k = fk [unfolded e] g [unfolded e]
  have "u_map ?U obj' [''spec''] = Some ?next" "u_name ?U obj' = u_name ?U obj"
    "u_resource_version ?U obj' = (if ur_resource_version req = '''' then u_resource_version ?U obj
        else ur_resource_version req)"
    using assms(2) x unfolding obj' unstr_laws_def by simp_all
  with k that show ?thesis by blast
qed

text \<open>
  What the API server promises about a write that names a resource version: when the stored
  object has another one, the write is refused with a conflict and changes nothing.
\<close>

definition refuses_stale ::
  "'w kenv \<Rightarrow> 'w kube \<Rightarrow> ('w \<Rightarrow> gvr \<Rightarrow> string \<Rightarrow> string \<Rightarrow> string) \<Rightarrow> bool" where
  "refuses_stale E c stored \<longleftrightarrow>
     (\<forall>g ns obj w. u_resource_version (ke_unstr E) obj \<noteq> '''' \<longrightarrow>
        stored w g ns (u_name (ke_unstr E) obj) \<noteq> u_resource_version (ke_unstr E) obj \<longrightarrow>
        (\<exists>e. k_update c g ns obj w = (w, Inl e) \<and> is_conflict_error E e))"

text \<open>A small API server: one Postgres whose version counts the writes.\<close>

definition sample_kube :: "nat kube" where
  "sample_kube =
     \<lparr>k_list = (\<lambda>g ns opts w. (w, Inr \<lparr>kl_items = [[(''metadata'', JMap [(''name'', JStr ''postgres-db''),
          (''labels'', JMap [(cozyAppKindLabel, JStr ''Postgres''), (cozyAppNameLabel, JStr ''db'')])])]],
          kl_continue = ''''\<rparr>)),
      k_get = (\<lambda>g ns n w. (w, Inr [(''kind'', JStr ''Postgres''), (''metadata'', JMap [(''name'', JStr n),
          (''resourceVersion'', JStr (show_nat w))]), (''spec'', JMap [(''replicas'', JInt 2)])])),
      k_create = (\<lambda>g ns obj w. (w, Inr obj)),
      k_update = (\<lambda>g ns obj w. if u_resource_version plain_unstr obj = show_nat w then (Suc w, Inr obj)
                    else (w, Inl (ApiStatus 409 ''the object has been modified''))),
      k_delete = (\<lambda>g ns n w. (w, None))\<rparr>"

definition sample_app_env :: "nat kenv" where
  "sample_app_env = \<lparr>ke_sdk = \<lparr>sdk_rest_config = (\<lambda>_. Inl (Opaque ''bad'')),
       sdk_dynamic = (\<lambda>_. Inr sample_kube), sdk_clientset = (\<lambda>_. None), sdk_may_watch = (\<lambda>_ _ _. Inr True)\<rparr>,
     ke_base = sample_base, ke_mode = AuthModeToken, ke_unstr = plain_unstr,
     ke_errors = \<lparr>ae_is_conflict = (\<lambda>e. errors_as_status e = Some 409), ae_is_forbidden = (\<lambda>_. False),
       ae_is_unauthorized = (\<lambda>_. False), ae_is_not_found = (\<lambda>_. False)\<rparr>,
     ke_parse_time = (\<lambda>_. None), ke_json = (\<lambda>_. Inr JNull)\<rparr>"

definition sample_edit :: "string \<Rightarrow> update_application_request" where
  "sample_edit rv = \<lparr>ur_spec = [(''size'', JStr ''10Gi'')], ur_resource_version = rv, ur_replace_spec = False\<rparr>"

lemma sample_kube_refuses_stale: "refuses_stale sample_app_env sample_kube (\<lambda>w g ns n. show_nat w)"
  by (auto simp: refuses_stale_def sample_app_env_def sample_kube_def is_conflict_error_def)

lemma sample_client: "user_client sample_app_env sample_user = Inr sample_kube"
  by (simp add: user_client_def new_user_client_def build_user_rest_config_def build_user_rest_config'_def
      sample_app_env_def sample_user_def)

section \<open>Properties\<close>


definition sample_put :: jobj where
  "sample_put = [(''kind'', JStr ''Postgres''), (''metadata'', JMap [(''name'', JStr ''db''),
     (''resourceVersion'', JStr ''3'')]), (''spec'', JMap [(''replicas'', JInt 2), (''size'', JStr ''10Gi'')])]"

lemma sample_prepare:
  "app_update_prepare sample_app_env sample_kube ''tenant-a'' ''db'' (sample_edit ''3'') n =
     (n, Inr (''Postgres'', sample_put))"
proof -
  have "is_valid_label_value ''db''" by code_simp
  then show ?thesis
    by (simp add: app_update_prepare_def kop_defs find_app_kind_def sample_kube_def sample_app_env_def
        plain_unstr_def plain_field_def plain_string_map_def cozyAppKindLabel_def cozyAppNameLabel_def
        mget_or_def sample_edit_def pick_next_spec_def spec_or_empty_def Let_def sample_put_def
        List.map_filter_def merge_val_def)
qed


lemma app_update_stale:
  assumes "unstr_laws (ke_unstr E)" and "user_client E usr = Inr c" and "refuses_stale E c stored"
    and "app_update_prepare E c tenant name req w = (w2, Inr (kind, obj'))"
    and "ur_resource_version req \<noteq> ''''"
    and "stored w2 (app_gvr kind) tenant (u_name (ke_unstr E) obj') \<noteq> ur_resource_version req"
  shows "app_update E now usr tenant name req w = (w2, Inl ErrConflict)"
proof -
  have "u_resource_version (ke_unstr E) obj' = ur_resource_version req"
    using app_update_prepare_Inr [OF assms(4,1)] assms(5) by metis
  with assms(3,5,6) obtain e where "k_update c (app_gvr kind) tenant obj' w2 = (w2, Inl e)"
    "is_conflict_error E e"
    unfolding refuses_stale_def by metis
  with assms(2,4) show ?thesis by (simp add: app_update_def kop_defs)
qed

text \<open>
  No lost update. When the caller pinned the version it saw and another writer changed the
  object before the write, whatever happened in between, \<open>Update\<close> reports the conflict and
  leaves the cluster as the other writer left it.
\<close>

theorem update_refuses_stale_version:
  assumes "unstr_laws (ke_unstr E)" and "user_client E usr = Inr c" and "refuses_stale E c stored"
    and "app_update_prepare E c tenant name req w = (w2, Inr (kind, obj'))"
    and "ur_resource_version req \<noteq> ''''"
    and "stored w2 (app_gvr kind) tenant (u_name (ke_unstr E) obj') \<noteq> ur_resource_version req"
  shows "app_update E now usr tenant name req w = (w2, Inl ErrConflict)"
  using assms by (rule app_update_stale)

theorem update_refuses_stale_version_witness:
  "app_update sample_app_env 0 sample_user ''tenant-a'' ''db'' (sample_edit ''3'') 7 = (7, Inl ErrConflict)"
proof -
  have "unstr_laws (ke_unstr sample_app_env)" by (simp add: sample_app_env_def plain_unstr_laws)
  moreover have "ur_resource_version (sample_edit ''3'') \<noteq> ''''" by (simp add: sample_edit_def)
  moreover have "show_nat 7 \<noteq> ur_resource_version (sample_edit ''3'')"
    by code_simp
  ultimately show ?thesis
    by (intro update_refuses_stale_version [OF _ sample_client sample_kube_refuses_stale sample_prepare])
qed

text \<open>
  A name that is not a valid label value never reaches the cluster. Reading, snapshotting,
  updating and deleting an application under such a name fail without one call, leaving the
  cluster (and the schema cache) as it was.
\<close>

theorem invalid_app_name_is_inert:
  assumes "\<not> is_valid_label_value name"
  shows "app_get E now usr tenant name cache w = (cache, w, Inl (invalid_name name))
    \<and> app_get_spec_snapshot E usr tenant name w = (w, Inl (invalid_name name))
    \<and> (\<exists>e. app_update E now usr tenant name req w = (w, Inl e))
    \<and> (\<exists>e. app_delete E usr tenant name w = (w, Inl e))"
  using assms
  by (simp add: app_get_def app_get_spec_snapshot_def app_update_def app_update_prepare_def app_delete_def
      kop_defs find_app_kind_invalid split: sum.split)

theorem invalid_app_name_is_inert_witness:
  "app_get_spec_snapshot sample_app_env sample_user ''tenant-a'' ''db,app=x'' 7 =
     (7, Inl (invalid_name ''db,app=x''))"
proof -
  have "\<not> is_valid_label_value ''db,app=x''" by code_simp
  from invalid_app_name_is_inert [OF this, THEN conjunct2, THEN conjunct1] show ?thesis .
qed

text \<open>
  The fallback by name prefix selects the secrets of every application whose name continues
  the prefix: those of \<open>db-prod\<close> are shown as credentials of \<open>db\<close>.
\<close>

theorem prefix_fallback_crosses_applications:
  "connection_secret (to_lower ''Postgres'' @ ''-'' @ ''db'' @ ''-'') ''postgres-db-prod-credentials''"
  by code_simp

end
