(* ===== verification/Tenants.thy ===== *)
theory Tenants
  imports Applications
begin

text \<open>
  \<open>internal/k8s/tenant.go\<close>: the tenants of the cluster. A Tenant object lives in its parent's
  workload namespace; its own workload namespace is the one its status names.
\<close>

section \<open>Objects\<close>

record tenant =
  tn_name :: string
  tn_namespace :: string
  tn_parent_namespace :: string
  tn_display_name :: string
  tn_parent :: string
  tn_children :: "string list"
  tn_child_count :: int
  tn_app_count :: int
  tn_status :: string
  tn_version :: string

record create_tenant_request =
  ct_name :: string
  ct_parent :: string
  ct_spec :: jobj

definition tenantNamespacePrefix :: string where "tenantNamespacePrefix = ''tenant-''"
definition rootTenantName :: string where "rootTenantName = ''root''"

definition namespace_gvr :: gvr where "namespace_gvr = mk_gvr '''' ''v1'' ''namespaces''"
definition tenant_crd_gvr :: gvr where "tenant_crd_gvr = mk_gvr cozyAppGroup ''v1alpha1'' ''tenants''"

definition ErrProtectedTenant :: gerr where "ErrProtectedTenant = Sentinel ''tenant is protected''"
definition ErrNamespaceRequired :: gerr where "ErrNamespaceRequired = Sentinel ''namespace required''"

definition is_root_tenant :: "string \<Rightarrow> bool" where
  "is_root_tenant nameOrNamespace =
     (nameOrNamespace = rootTenantName \<or> nameOrNamespace = tenantNamespacePrefix @ rootTenantName)"

definition crd_to_tenant :: "unstr \<Rightarrow> jobj \<Rightarrow> tenant" where
  "crd_to_tenant U obj =
     (let parentNamespace = u_namespace U obj;
          statusNS = nested_string U obj [''status'', ''namespace''];
          ns = (if statusNS \<noteq> '''' then statusNS else parentNamespace);
          st = app_status_text (extract_status U obj)
      in \<lparr>tn_name = u_name U obj, tn_namespace = ns, tn_parent_namespace = parentNamespace,
          tn_display_name = u_name U obj,
          tn_parent = (if parentNamespace = ns then '''' else parentNamespace),
          tn_children = [], tn_child_count = 0, tn_app_count = 0,
          tn_status = (if st = app_status_text AppStatusReady then ''Active'' else st),
          tn_version = nested_string U obj [''status'', ''version'']\<rparr>)"

definition find_tenant_obj :: "unstr \<Rightarrow> jobj list \<Rightarrow> string \<Rightarrow> jobj option" where
  "find_tenant_obj U items name =
     (case find (\<lambda>o'. u_name U o' = name) items of
        Some o' \<Rightarrow> Some o'
      | None \<Rightarrow> find (\<lambda>o'. let ns = nested_string U o' [''status'', ''namespace''] in
            ns \<noteq> '''' \<and> (ns = name \<or> ns = tenantNamespacePrefix @ name)) items)"

definition find_children :: "unstr \<Rightarrow> jobj list \<Rightarrow> string \<Rightarrow> string list" where
  "find_children U items parentNS =
     map (u_name U) (filter (\<lambda>o'. u_namespace U o' = parentNS \<and> u_name U o' \<noteq> rootTenantName) items)"

section \<open>The service\<close>

definition app_selector :: list_options where
  "app_selector = no_options\<lparr>lo_label_selector := cozyAppKindLabel\<rparr>"

definition count_apps :: "'w kube \<Rightarrow> tenant \<Rightarrow> 'w \<Rightarrow> 'w \<times> tenant" where
  "count_apps c t w =
     (case k_list c helm_release_gvr (tn_namespace t) app_selector w of
        (w', Inl e) \<Rightarrow> (w', t)
      | (w', Inr l) \<Rightarrow> (w', t\<lparr>tn_app_count := int (length (kl_items l))\<rparr>))"

fun count_apps_all :: "'w kube \<Rightarrow> tenant list \<Rightarrow> 'w \<Rightarrow> 'w \<times> tenant list" where
  "count_apps_all c [] w = (w, [])"
| "count_apps_all c (t # ts) w =
     (case count_apps c t w of (w1, t') \<Rightarrow>
        (case count_apps_all c ts w1 of (w2, ts') \<Rightarrow> (w2, t' # ts')))"

text \<open>\<open>childCounts[tenants[idx].Name]++\<close> for the tenants that have a parent.\<close>

definition child_counts :: "tenant list \<Rightarrow> (string, int) gomap" where
  "child_counts ts =
     fold (\<lambda>t m. if tn_parent t \<noteq> '''' then mput (tn_name t) (mget_or 0 m (tn_name t) + 1) m else m) ts []"

definition with_child_counts :: "tenant list \<Rightarrow> tenant list" where
  "with_child_counts ts = map (\<lambda>t. t\<lparr>tn_child_count := mget_or 0 (child_counts ts) (tn_name t)\<rparr>) ts"

definition tenant_list :: "'w kenv \<Rightarrow> user_context \<Rightarrow> ('w, tenant list) kop" where
  "tenant_list E usr =
     with_client E usr (\<lambda>c.
       kthen (k_list c tenant_crd_gvr '''' no_options) (\<lambda>e. Fmt ''listing tenants: '' e '''')
         (\<lambda>l w. case count_apps_all c (map (crd_to_tenant (ke_unstr E)) (kl_items l)) w of
            (w', ts) \<Rightarrow> (w', Inr (with_child_counts ts))))"

definition tenant_list_minimal :: "'w kenv \<Rightarrow> user_context \<Rightarrow> ('w, tenant list) kop" where
  "tenant_list_minimal E usr =
     with_client E usr (\<lambda>c.
       kthen (k_list c tenant_crd_gvr '''' no_options) (\<lambda>e. Fmt ''listing tenants: '' e '''')
         (\<lambda>l. kret (map (crd_to_tenant (ke_unstr E)) (kl_items l))))"

definition tenant_get :: "'w kenv \<Rightarrow> user_context \<Rightarrow> string \<Rightarrow> ('w, tenant) kop" where
  "tenant_get E usr name =
     with_client E usr (\<lambda>c.
       kthen (k_list c tenant_crd_gvr '''' no_options) (\<lambda>e. Fmt ''listing tenants: '' e '''')
         (\<lambda>l. case find_tenant_obj (ke_unstr E) (kl_items l) name of
            None \<Rightarrow> kfail (Fmt '''' ErrAppNotFound ('': '' @ name))
          | Some obj \<Rightarrow> (\<lambda>w.
              let t = crd_to_tenant (ke_unstr E) obj;
                  ch = find_children (ke_unstr E) (kl_items l) (tn_namespace t)
              in (case count_apps c (t\<lparr>tn_children := ch, tn_child_count := int (length ch)\<rparr>) w of
                    (w', t') \<Rightarrow> (w', Inr t')))))"

definition tenant_get_spec_snapshot ::
  "'w kenv \<Rightarrow> user_context \<Rightarrow> string \<Rightarrow> string \<Rightarrow> ('w, spec_snapshot) kop" where
  "tenant_get_spec_snapshot E usr ns name =
     (if ns = '''' then kfail ErrNamespaceRequired
      else with_client E usr (\<lambda>c.
        kthen (k_get c tenant_crd_gvr ns name)
          (\<lambda>e. Fmt (''getting tenant '' @ ns @ ''/'' @ name @ '': '') e '''')
          (\<lambda>obj. kret \<lparr>sn_spec = spec_or_empty (u_map (ke_unstr E) obj [''spec'']), sn_kind = ''Tenant'',
               sn_resource_version = u_resource_version (ke_unstr E) obj\<rparr>)))"

definition reservedTenantSpecKeys :: "string list" where
  "reservedTenantSpecKeys = [''ns'', ''parent'', ''name'']"

definition tenant_next_spec :: "jobj \<Rightarrow> jobj \<Rightarrow> jobj" where
  "tenant_next_spec existing spec = deep_merge_spec (fold mdel reservedTenantSpecKeys existing) spec"

definition tenant_update_prepare ::
  "'w kenv \<Rightarrow> 'w kube \<Rightarrow> string \<Rightarrow> string \<Rightarrow> jobj \<Rightarrow> string \<Rightarrow> ('w, jobj) kop" where
  "tenant_update_prepare E c ns name spec resourceVersion =
     kthen (k_get c tenant_crd_gvr ns name)
       (\<lambda>e. Fmt (''getting tenant '' @ ns @ ''/'' @ name @ '': '') e '''')
       (\<lambda>obj.
         let U = ke_unstr E
         in case u_set_map U (tenant_next_spec (spec_or_empty (u_map U obj [''spec''])) spec) [''spec''] obj of
              Inl e \<Rightarrow> kfail (Fmt ''setting spec: '' e '''')
            | Inr obj' \<Rightarrow>
                kret (if resourceVersion \<noteq> '''' then u_set_resource_version U resourceVersion obj' else obj'))"

definition tenant_update ::
  "'w kenv \<Rightarrow> user_context \<Rightarrow> string \<Rightarrow> string \<Rightarrow> jobj \<Rightarrow> string \<Rightarrow> ('w, tenant) kop" where
  "tenant_update E usr ns name spec resourceVersion =
     (if ns = '''' then kfail ErrNamespaceRequired
      else with_client E usr (\<lambda>c.
        kthen (tenant_update_prepare E c ns name spec resourceVersion) (\<lambda>e. e) (\<lambda>obj.
          kthen (k_update c tenant_crd_gvr ns obj)
            (\<lambda>e. if is_conflict_error E e then ErrConflict
                 else Fmt (''updating tenant '' @ ns @ ''/'' @ name @ '': '') e '''')
            (\<lambda>updated. kret (crd_to_tenant (ke_unstr E) updated)))))"

definition tenant_create :: "'w kenv \<Rightarrow> user_context \<Rightarrow> create_tenant_request \<Rightarrow> ('w, tenant) kop" where
  "tenant_create E usr req =
     with_client E usr (\<lambda>c.
       let parentNS = (if ct_parent req = '''' then tenantNamespacePrefix @ ''root'' else ct_parent req)
       in kthen (k_create c tenant_crd_gvr parentNS
             [(''apiVersion'', JStr (cozyAppGroup @ ''/v1alpha1'')), (''kind'', JStr ''Tenant''),
              (''metadata'', JMap [(''name'', JStr (ct_name req)), (''namespace'', JStr parentNS)]),
              (''spec'', JMap (ct_spec req))])
            (\<lambda>e. Fmt ''creating tenant: '' e '''')
            (\<lambda>created. kret (crd_to_tenant (ke_unstr E) created)))"

definition tenant_delete :: "'w kenv \<Rightarrow> user_context \<Rightarrow> string \<Rightarrow> string \<Rightarrow> ('w, unit) kop" where
  "tenant_delete E usr ns name =
     (if is_root_tenant name then kfail (Fmt '''' ErrProtectedTenant ('': '' @ name))
      else if ns = '''' then kfail ErrNamespaceRequired
      else with_client E usr (\<lambda>c w.
        (case k_delete c tenant_crd_gvr ns name w of
           (w', Some e) \<Rightarrow> (w', Inl (Fmt (''deleting tenant '' @ ns @ ''/'' @ name @ '': '') e ''''))
         | (w', None) \<Rightarrow> (w', Inr ()))))"

section \<open>Lemmas\<close>

lemma map_of_fold_mdel:
  "map_of (fold mdel ks m) k = (if k \<in> set ks then None else map_of m k)"
  by (induction ks arbitrary: m) auto

lemma child_counts_count:
  "mget_or 0 (child_counts ts) n = int (length (filter (\<lambda>t. tn_parent t \<noteq> '''' \<and> tn_name t = n) ts))"
proof -
  have "mget_or 0 (fold (\<lambda>t m. if tn_parent t \<noteq> '''' then mput (tn_name t) (mget_or 0 m (tn_name t) + 1) m else m) ts m) n =
      mget_or 0 m n + int (length (filter (\<lambda>t. tn_parent t \<noteq> '''' \<and> tn_name t = n) ts))" for m
    by (induction ts arbitrary: m) (simp_all add: mget_or_def split: option.split)
  then show ?thesis by (simp add: child_counts_def mget_or_def)
qed

lemma count_apps_keeps:
  "tn_name (snd (count_apps c t w)) = tn_name t" "tn_parent (snd (count_apps c t w)) = tn_parent t"
  "tn_namespace (snd (count_apps c t w)) = tn_namespace t"
  "tn_children (snd (count_apps c t w)) = tn_children t"
  "tn_child_count (snd (count_apps c t w)) = tn_child_count t"
  by (simp_all add: count_apps_def split: prod.split sum.split)

lemma find_Some: "find P xs = Some x \<Longrightarrow> x \<in> set xs \<and> P x"
  by (metis find_Some_iff nth_mem)

section \<open>Properties\<close>

text \<open>
  The root tenant cannot be deleted. Under either spelling of its name the request fails as
  protected and not one call reaches the cluster; every other tenant is deleted by one call for
  exactly the namespace and name given, and an empty namespace is refused without a call.
\<close>

theorem root_tenant_protected:
  "(is_root_tenant name \<longrightarrow>
      tenant_delete E usr ns name w = (w, Inl (Fmt '''' ErrProtectedTenant ('': '' @ name)))) \<and>
   (\<not> is_root_tenant name \<longrightarrow> tenant_delete E usr '''' name w = (w, Inl ErrNamespaceRequired)) \<and>
   (\<not> is_root_tenant name \<longrightarrow> ns \<noteq> '''' \<longrightarrow> user_client E usr = Inr c \<longrightarrow>
      fst (tenant_delete E usr ns name w) = fst (k_delete c tenant_crd_gvr ns name w) \<and>
      (snd (tenant_delete E usr ns name w) = Inr () \<longleftrightarrow> snd (k_delete c tenant_crd_gvr ns name w) = None)) \<and>
   is_root_tenant ''root'' \<and> is_root_tenant ''tenant-root''"
  by (auto simp: tenant_delete_def kfail_def with_client_def is_root_tenant_def rootTenantName_def
      tenantNamespacePrefix_def split: prod.split option.split)

theorem root_tenant_protected_witness:
  "tenant_delete sample_app_env sample_user ''tenant-root'' ''root'' 7 =
     (7, Inl (Fmt '''' ErrProtectedTenant '': root''))"
proof -
  have "is_root_tenant ''root''" by code_simp
  with root_tenant_protected [of "''root''" sample_app_env sample_user "''tenant-root''" 7 sample_kube]
  show ?thesis by simp
qed

text \<open>
  Looking a tenant up. The object found has the name asked for if any object has it; only
  when none has is a workload namespace consulted, as given or with the tenant prefix; nothing
  else is ever returned, and when neither matches there is no result.
\<close>

theorem find_tenant_specificity:
  "case find_tenant_obj U items name of
     Some o' \<Rightarrow> o' \<in> set items \<and>
       (u_name U o' = name \<or>
        (\<forall>x\<in>set items. u_name U x \<noteq> name) \<and>
        nested_string U o' [''status'', ''namespace''] \<in> {name, ''tenant-'' @ name})
   | None \<Rightarrow> \<forall>x\<in>set items. u_name U x \<noteq> name \<and>
       nested_string U x [''status'', ''namespace''] \<notin> {name, ''tenant-'' @ name} - {''''}"
proof (cases "find (\<lambda>o'. u_name U o' = name) items")
  case (Some x)
  with find_Some [OF Some] show ?thesis by (simp add: find_tenant_obj_def)
next
  case None
  let ?P = "\<lambda>o'. let ns = nested_string U o' [''status'', ''namespace''] in
      ns \<noteq> '''' \<and> (ns = name \<or> ns = tenantNamespacePrefix @ name)"
  have no: "\<forall>x\<in>set items. u_name U x \<noteq> name" using None by (auto simp: find_None_iff)
  show ?thesis
  proof (cases "find ?P items")
    case (Some x)
    with find_Some [OF Some] None no show ?thesis
      by (simp add: find_tenant_obj_def Let_def tenantNamespacePrefix_def)
  next
    case n: None
    then have "\<forall>x\<in>set items. \<not> ?P x" by (simp add: find_None_iff)
    with n None no show ?thesis
      by (simp add: find_tenant_obj_def Let_def tenantNamespacePrefix_def) blast
  qed
qed

theorem find_tenant_specificity_witness:
  "find_tenant_obj plain_unstr [[(''metadata'', JMap [(''name'', JStr ''a'')]),
      (''status'', JMap [(''namespace'', JStr ''tenant-b'')])],
      [(''metadata'', JMap [(''name'', JStr ''b'')])]] ''b'' = Some [(''metadata'', JMap [(''name'', JStr ''b'')])]"
proof -
  let ?items = "[[(''metadata'', JMap [(''name'', JStr ''a'')]), (''status'', JMap [(''namespace'', JStr ''tenant-b'')])],
      [(''metadata'', JMap [(''name'', JStr ''b'')])]]"
  have "find_tenant_obj plain_unstr ?items ''b'' \<noteq> None" by code_simp
  moreover have "u_name plain_unstr (?items ! 0) \<noteq> ''b''" "u_name plain_unstr (?items ! 1) = ''b''" by code_simp+
  ultimately show ?thesis
    using find_tenant_specificity [where U = plain_unstr and items = ?items and name = "''b''"] by (auto split: option.splits)
qed

text \<open>
  Saving a tenant cleans up and loses nothing. The spec written back holds a reserved key
  only if the caller sent it, every other path the caller did not write is as stored, and with a
  pinned version a concurrent change is refused as a conflict that leaves the cluster alone.
\<close>

theorem tenant_update_scrubs:
  assumes "unstr_laws (ke_unstr E)" and "wf_obj spec"
    and "tenant_update_prepare E c ns name spec rv w = (w2, Inr obj')"
  shows "\<exists>obj next'. k_get c tenant_crd_gvr ns name w = (w2, Inr obj) \<and>
     u_map (ke_unstr E) obj' [''spec''] = Some next' \<and>
     (\<forall>k \<in> {''ns'', ''parent'', ''name''}. map_of spec k = None \<longrightarrow> map_of next' k = None) \<and>
     (\<forall>k ks. k \<notin> {''ns'', ''parent'', ''name''} \<longrightarrow> \<not> writes spec (k # ks) \<longrightarrow>
        jget next' (k # ks) = jget (spec_or_empty (u_map (ke_unstr E) obj [''spec''])) (k # ks)) \<and>
     (rv \<noteq> '''' \<longrightarrow> ns \<noteq> '''' \<longrightarrow> user_client E usr = Inr c \<longrightarrow> refuses_stale E c stored \<longrightarrow>
        stored w2 tenant_crd_gvr ns (u_name (ke_unstr E) obj') \<noteq> rv \<longrightarrow>
        tenant_update E usr ns name spec rv w = (w2, Inl ErrConflict))"
proof -
  let ?U = "ke_unstr E"
  from assms(3) obtain w' obj where g: "k_get c tenant_crd_gvr ns name w = (w', Inr obj)" and
    o: "(case u_set_map ?U (tenant_next_spec (spec_or_empty (u_map ?U obj [''spec''])) spec) [''spec''] obj of
          Inl e \<Rightarrow> kfail (Fmt ''setting spec: '' e '''')
        | Inr obj' \<Rightarrow> kret (if rv \<noteq> '''' then u_set_resource_version ?U rv obj' else obj')) w' = (w2, Inr obj')"
    by (auto simp: tenant_update_prepare_def kthen_Inr Let_def)
  let ?old = "spec_or_empty (u_map ?U obj [''spec''])"
  let ?next = "tenant_next_spec ?old spec"
  from assms(1) obtain x where x: "u_set_map ?U ?next [''spec''] obj = Inr x"
    "u_map ?U x [''spec''] = Some ?next"
    unfolding unstr_laws_def by metis
  from o x(1) have obj': "obj' = (if rv \<noteq> '''' then u_set_resource_version ?U rv x else x)" "w' = w2" by simp_all
  have sp: "u_map ?U obj' [''spec''] = Some ?next" and
    rv: "rv \<noteq> '''' \<Longrightarrow> u_resource_version ?U obj' = rv"
    using assms(1) x(2) unfolding obj' unstr_laws_def by simp_all
  have d: "distinct (map fst spec)" using assms(2) by simp
  have scrub: "\<forall>k \<in> {''ns'', ''parent'', ''name''}. map_of spec k = None \<longrightarrow> map_of ?next k = None"
    by (simp add: tenant_next_spec_def map_of_deep_merge [OF d] map_of_fold_mdel reservedTenantSpecKeys_def)
  have keep: "jget ?next (k # ks) = jget ?old (k # ks)"
    if "k \<notin> {''ns'', ''parent'', ''name''}" "\<not> writes spec (k # ks)" for k ks
  proof -
    have "jget (fold mdel reservedTenantSpecKeys ?old) (k # ks) = jget ?old (k # ks)"
      using that(1) by (simp add: map_of_fold_mdel reservedTenantSpecKeys_def)
    then show ?thesis
      using that(2) jget_deep_merge [OF assms(2), of "k # ks"] jget_not_written [of "k # ks" spec]
      unfolding tenant_next_spec_def by simp
  qed
  have conflict: "tenant_update E usr ns name spec rv w = (w2, Inl ErrConflict)"
    if h: "rv \<noteq> ''''" "ns \<noteq> ''''" "user_client E usr = Inr c" "refuses_stale E c stored"
      "stored w2 tenant_crd_gvr ns (u_name ?U obj') \<noteq> rv"
  proof -
    from h(4,5) rv [OF h(1)] h(1) obtain e where "k_update c tenant_crd_gvr ns obj' w2 = (w2, Inl e)"
      "is_conflict_error E e"
      unfolding refuses_stale_def by metis
    with h(2,3) assms(3) show ?thesis by (simp add: tenant_update_def kop_defs)
  qed
  show ?thesis
    using g sp scrub keep conflict unfolding obj'(2) by blast
qed

theorem tenant_update_scrubs_witness:
  "\<exists>obj' next'. tenant_update_prepare sample_app_env sample_kube ''tenant-root'' ''a'' [(''host'', JStr ''x'')] '''' 7 =
     (7, Inr obj') \<and> u_map plain_unstr obj' [''spec''] = Some next' \<and> map_of next' ''ns'' = None"
proof -
  obtain obj' where p: "tenant_update_prepare sample_app_env sample_kube ''tenant-root'' ''a''
      [(''host'', JStr ''x'')] '''' 7 = (7, Inr obj')"
    by (simp add: tenant_update_prepare_def kop_defs sample_kube_def sample_app_env_def plain_unstr_def Let_def)
  have u: "unstr_laws (ke_unstr sample_app_env)" by (simp add: sample_app_env_def plain_unstr_laws)
  have s: "wf_obj [(''host'', JStr ''x'')]" by simp
  from tenant_update_scrubs [OF u s p] p show ?thesis by (auto simp: sample_app_env_def)
qed

text \<open>
  The tenant tree. A tenant is shown without parent exactly when its object lives in its
  own workload namespace, and otherwise its parent is the namespace of the tenant that owns
  that namespace; so the children listed for a tenant are, in order, the objects of its
  workload namespace, without the root, and its count is their number.
\<close>

theorem tenant_tree:
  assumes "user_client E usr = Inr c" and "tenant_get E usr name w = (w', Inr t)"
  shows "\<exists>l obj w1. k_list c tenant_crd_gvr '''' no_options w = (w1, Inr l) \<and>
     find_tenant_obj (ke_unstr E) (kl_items l) name = Some obj \<and>
     tn_name t = u_name (ke_unstr E) obj \<and>
     (tn_parent t = '''' \<longleftrightarrow> u_namespace (ke_unstr E) obj \<in> {'''', tn_namespace t}) \<and>
     tn_children t = map tn_name (filter (\<lambda>s. tn_parent_namespace s = tn_namespace t \<and> tn_name s \<noteq> ''root'')
        (map (crd_to_tenant (ke_unstr E)) (kl_items l))) \<and>
     tn_child_count t = int (length (tn_children t))"
proof -
  let ?U = "ke_unstr E"
  from assms obtain l w1 obj where l: "k_list c tenant_crd_gvr '''' no_options w = (w1, Inr l)"
    and f: "find_tenant_obj ?U (kl_items l) name = Some obj"
    and r: "(let t = crd_to_tenant ?U obj; ch = find_children ?U (kl_items l) (tn_namespace t)
        in (case count_apps c (t\<lparr>tn_children := ch, tn_child_count := int (length ch)\<rparr>) w1 of
              (w', t') \<Rightarrow> (w', Inr t'))) = (w', Inr t :: tenant res)"
    by (auto simp: tenant_get_def with_client_def kthen_Inr split: option.splits)
  let ?t = "crd_to_tenant ?U obj"
  let ?ch = "find_children ?U (kl_items l) (tn_namespace ?t)"
  have t: "t = snd (count_apps c (?t\<lparr>tn_children := ?ch, tn_child_count := int (length ?ch)\<rparr>) w1)"
    using r by (auto simp: Let_def split: prod.splits)
  have ch: "?ch = map tn_name (filter (\<lambda>s. tn_parent_namespace s = tn_namespace ?t \<and> tn_name s \<noteq> ''root'')
      (map (crd_to_tenant ?U) (kl_items l)))"
    by (simp add: find_children_def filter_map comp_def crd_to_tenant_def Let_def rootTenantName_def)
  show ?thesis
    using l f ch unfolding t count_apps_keeps
    by (intro exI conjI) (auto simp: crd_to_tenant_def Let_def)
qed

theorem tenant_tree_witness:
  "\<exists>t. tenant_get sample_app_env sample_user ''postgres-db'' 7 = (7, Inr t) \<and> tn_name t = ''postgres-db''"
proof -
  obtain t where t: "tenant_get sample_app_env sample_user ''postgres-db'' 7 = (7, Inr t)"
    by (simp add: tenant_get_def kop_defs sample_client find_tenant_obj_def)
      (simp add: sample_kube_def sample_app_env_def plain_unstr_def plain_field_def count_apps_def Let_def)
  from tenant_tree [OF sample_client t] have "tn_name t = ''postgres-db''"
    by (auto simp: sample_kube_def sample_app_env_def plain_unstr_def plain_field_def find_tenant_obj_def)
  with t show ?thesis by blast
qed

text \<open>
  The list gives each tenant the number of tenants that share its name and have a parent, not
  the number of its children.
\<close>

theorem list_child_count_counts_itself:
  "with_child_counts ts = map (\<lambda>t. t\<lparr>tn_child_count :=
     int (length (filter (\<lambda>s. tn_parent s \<noteq> '''' \<and> tn_name s = tn_name t) ts))\<rparr>) ts"
  by (simp add: with_child_counts_def child_counts_count)

end
