(* ===== verification/Watcher.thy ===== *)
theory Watcher
  imports Applications
begin

text \<open>
  \<open>internal/k8s/watcher.go\<close>: one watch over all HelmReleases, fanned out to the subscribers of
  each tenant namespace, with a ring of recent events per tenant for clients that reconnect.
  First the ring, against its specification as a locale; then the watcher with every critical
  section as one operation; last the publisher and the subscribers interleaved as the mutex
  really allows, where a send can meet a closed channel.
\<close>

section \<open>Events\<close>

definition eventChannelBuffer :: nat where "eventChannelBuffer = 100"
definition replayBufferSize :: nat where "replayBufferSize = 128"

datatype watch_event_type = WatchEventAdded | WatchEventModified | WatchEventDeleted

text \<open>\<open>watch.EventType\<close>; \<open>KOther\<close> is any string the library does not define.\<close>

datatype watch_kind = KAdded | KModified | KDeleted | KBookmark | KError | KOther string

record watch_event =
  we_type :: watch_event_type
  we_app :: application
  we_id :: "64 word"

definition zero_event :: watch_event where
  "zero_event = \<lparr>we_type = WatchEventAdded, we_app = zero_application, we_id = 0\<rparr>"

fun map_event_type :: "watch_kind \<Rightarrow> watch_event_type option" where
  "map_event_type KAdded = Some WatchEventAdded"
| "map_event_type KModified = Some WatchEventModified"
| "map_event_type KDeleted = Some WatchEventDeleted"
| "map_event_type KBookmark = None"
| "map_event_type KError = None"
| "map_event_type (KOther s) = None"

section \<open>The ring\<close>

text \<open>The nil slice is the empty list; once allocated it has the full length.\<close>

record replay_buffer =
  rb_events :: "watch_event list"
  rb_head :: nat
  rb_full :: bool

definition empty_buffer :: replay_buffer where
  "empty_buffer = \<lparr>rb_events = [], rb_head = 0, rb_full = False\<rparr>"

definition rb_add :: "watch_event \<Rightarrow> replay_buffer \<Rightarrow> replay_buffer" where
  "rb_add evt buf =
     (let events = (if rb_events buf = [] then replicate replayBufferSize zero_event else rb_events buf);
          head = (rb_head buf + 1) mod replayBufferSize
      in \<lparr>rb_events = events[rb_head buf := evt], rb_head = head,
          rb_full = (if head = 0 then True else rb_full buf)\<rparr>)"

definition rb_since :: "64 word \<Rightarrow> replay_buffer \<Rightarrow> watch_event list" where
  "rb_since sinceID buf =
     (if rb_events buf = [] then []
      else
        let start = (if rb_full buf then rb_head buf else 0);
            count = (if rb_full buf then replayBufferSize else rb_head buf)
        in filter (\<lambda>e. sint sinceID < sint (we_id e))
             (map (\<lambda>i. rb_events buf ! ((start + i) mod replayBufferSize)) [0..<count]))"

text \<open>What the ring holds, oldest first, and when it is well formed.\<close>

definition rb_list :: "replay_buffer \<Rightarrow> watch_event list" where
  "rb_list buf =
     (if rb_full buf then drop (rb_head buf) (rb_events buf) @ take (rb_head buf) (rb_events buf)
      else take (rb_head buf) (rb_events buf))"

definition rb_ok :: "replay_buffer \<Rightarrow> bool" where
  "rb_ok buf \<longleftrightarrow>
     (if rb_events buf = [] then rb_head buf = 0 \<and> \<not> rb_full buf
      else length (rb_events buf) = replayBufferSize \<and> rb_head buf < replayBufferSize)"

definition last_n :: "nat \<Rightarrow> 'a list \<Rightarrow> 'a list" where
  "last_n n xs = drop (length xs - n) xs"

lemma length_last_n [simp]: "length (last_n n xs) = min n (length xs)"
  by (simp add: last_n_def)

lemma set_last_n: "set (last_n n xs) \<subseteq> set xs"
  by (simp add: last_n_def set_drop_subset)

lemma last_n_short: "length xs \<le> n \<Longrightarrow> last_n n xs = xs"
  by (simp add: last_n_def)

lemma last_n_last_n_append: "last_n n (last_n n xs @ ys) = last_n n (xs @ ys)"
proof (cases "length xs \<le> n")
  case False
  then obtain k where "length xs = n + k" by (metis le_Suc_ex nat_le_linear)
  then show ?thesis by (simp add: last_n_def add.commute)
qed (simp add: last_n_def)

lemma rb_list_empty [simp]: "rb_list empty_buffer = []" "rb_ok empty_buffer"
  by (simp_all add: rb_list_def empty_buffer_def rb_ok_def)

lemma rb_ok_add:
  assumes "rb_ok buf"
  shows "rb_ok (rb_add e buf)"
proof -
  have "0 < replayBufferSize" by (simp add: replayBufferSize_def)
  with assms show ?thesis by (auto simp: rb_ok_def rb_add_def Let_def split: if_splits)
qed

lemma rb_list_add:
  assumes "rb_ok buf"
  shows "rb_list (rb_add e buf) = last_n replayBufferSize (rb_list buf @ [e])"
proof -
  define N where "N = replayBufferSize"
  have N: "0 < N" "Suc 0 < N" by (simp_all add: N_def replayBufferSize_def)
  define es where "es = (if rb_events buf = [] then replicate N zero_event else rb_events buf)"
  define h where "h = rb_head buf"
  have es: "length es = N" "h < N" using assms N by (auto simp: es_def h_def rb_ok_def N_def split: if_splits)
  have l: "rb_list buf = (if rb_full buf then drop h es @ take h es else take h es)"
    using assms by (auto simp: rb_list_def es_def h_def rb_ok_def split: if_splits)
  have add: "rb_add e buf = \<lparr>rb_events = es[h := e], rb_head = (h + 1) mod N,
      rb_full = (if (h + 1) mod N = 0 then True else rb_full buf)\<rparr>"
    by (simp add: rb_add_def es_def h_def N_def Let_def)
  have upd: "take (Suc h) (es[h := e]) = take h es @ [e]" "drop (Suc h) (es[h := e]) = drop (Suc h) es"
    using es by (simp_all add: take_Suc_conv_app_nth)
  have dropS: "drop h es = es ! h # drop (Suc h) es" using es by (simp add: Cons_nth_drop_Suc)
  show ?thesis
  proof (cases "Suc h = N")
    case True
    then have "es[h := e] = take h es @ [e]" using upd(1) es by simp
    with True l add es dropS show ?thesis
      by (auto simp: rb_list_def last_n_def N_def [symmetric])
  next
    case False
    then have S: "Suc h < N" using es by simp
    show ?thesis
      using S l add es upd dropS
      by (auto simp: rb_list_def last_n_def N_def [symmetric])
  qed
qed

lemma rb_since_filter:
  assumes "rb_ok buf"
  shows "rb_since i buf = filter (\<lambda>e. sint i < sint (we_id e)) (rb_list buf)"
proof (cases "rb_events buf = []")
  case True
  with assms show ?thesis by (simp add: rb_since_def rb_list_def rb_ok_def)
next
  case False
  let ?es = "rb_events buf" and ?h = "rb_head buf"
  have len: "length ?es = replayBufferSize" "?h < replayBufferSize" using assms False by (simp_all add: rb_ok_def)
  have rot: "map (\<lambda>i. ?es ! ((?h + i) mod replayBufferSize)) [0..<replayBufferSize] = drop ?h ?es @ take ?h ?es"
  proof -
    have "drop ?h ?es @ take ?h ?es = rotate ?h ?es" using len by (simp add: rotate_drop_take)
    moreover have "map (\<lambda>i. ?es ! ((?h + i) mod replayBufferSize)) [0..<replayBufferSize] = rotate ?h ?es"
      using len by (intro nth_equalityI) (simp_all add: nth_rotate)
    ultimately show ?thesis by simp
  qed
  have pre: "map (\<lambda>i. ?es ! (i mod replayBufferSize)) [0..<?h] = take ?h ?es"
    using len by (intro nth_equalityI) simp_all
  show ?thesis using False rot pre by (simp add: rb_since_def rb_list_def Let_def)
qed

text \<open>
  What a replay log promises to its clients: it keeps the last \<open>cap\<close> events that were added,
  in order, and \<open>since\<close> returns those after a given one.
\<close>

locale replay_log =
  fixes add :: "'e \<Rightarrow> 'b \<Rightarrow> 'b"
    and since :: "'i \<Rightarrow> 'b \<Rightarrow> 'e list"
    and start :: 'b
    and content :: "'b \<Rightarrow> 'e list"
    and ok :: "'b \<Rightarrow> bool"
    and after :: "'i \<Rightarrow> 'e \<Rightarrow> bool"
    and cap :: nat
  assumes start_content: "content start = []" and start_ok: "ok start"
    and add_ok: "ok b \<Longrightarrow> ok (add e b)"
    and add_content: "ok b \<Longrightarrow> content (add e b) = last_n cap (content b @ [e])"
    and since_content: "ok b \<Longrightarrow> since i b = filter (after i) (content b)"
begin

lemma fold_ok: "ok b \<Longrightarrow> ok (fold add es b)"
  by (induction es arbitrary: b) (simp_all add: add_ok)

lemma fold_add: "ok b \<Longrightarrow> es \<noteq> [] \<Longrightarrow> content (fold add es b) = last_n cap (content b @ es)"
proof (induction es rule: rev_induct)
  case (snoc e es)
  then show ?case
    by (cases "es = []") (simp_all add: add_content fold_ok last_n_last_n_append)
qed simp

lemma since_history:
  assumes "es \<noteq> []"
  shows "since i (fold add es start) = filter (after i) (last_n cap es)"
  using fold_add [OF start_ok assms] fold_ok [OF start_ok] by (simp add: since_content start_content)

text \<open>Nothing is missed as long as no more than \<open>cap\<close> events were added since.\<close>

lemma no_loss:
  assumes "es \<noteq> []" "length fresh \<le> cap" "es = old @ fresh" "\<forall>e\<in>set old. \<not> after i e" "\<forall>e\<in>set fresh. after i e"
  shows "since i (fold add es start) = fresh"
proof -
  have "last_n cap (old @ fresh) = drop (length old + length fresh - cap) old @ fresh"
    using assms(2) by (simp add: last_n_def)
  moreover have "filter (after i) (drop k old) = []" for k
    using assms(4) by (auto simp: filter_empty_conv dest: in_set_dropD)
  ultimately show ?thesis
    unfolding since_history [OF assms(1)] using assms(3,5) by simp
qed

end

interpretation ring: replay_log rb_add rb_since empty_buffer rb_list rb_ok
  "\<lambda>i e. sint i < sint (we_id e)" replayBufferSize
  by unfold_locales (auto simp: rb_ok_add rb_list_add rb_since_filter)

section \<open>The watcher\<close>

text \<open>
  A channel is a number with its queue; \<open>wa_chans\<close> is the next number. The two maps are those
  of the struct.
\<close>

record watcher =
  wa_subs :: "(string, (nat, watch_event list) gomap) gomap"
  wa_buffers :: "(string, replay_buffer) gomap"
  wa_next_id :: "64 word"
  wa_chans :: nat
  wa_closed :: "nat list"

definition new_watcher :: watcher where
  "new_watcher = \<lparr>wa_subs = [], wa_buffers = [], wa_next_id = 0, wa_chans = 0, wa_closed = []\<rparr>"

definition subs_of :: "watcher \<Rightarrow> string \<Rightarrow> (nat, watch_event list) gomap" where
  "subs_of w tenant = mget_or [] (wa_subs w) tenant"

definition buffer_of :: "watcher \<Rightarrow> string \<Rightarrow> replay_buffer" where
  "buffer_of w tenant = mget_or empty_buffer (wa_buffers w) tenant"

definition subscribe :: "string \<Rightarrow> 64 word \<Rightarrow> watcher \<Rightarrow> watcher \<times> nat \<times> watch_event list" where
  "subscribe tenant sinceID w =
     (let ch = wa_chans w;
          w' = w\<lparr>wa_chans := Suc ch, wa_subs := mput tenant (mput ch [] (subs_of w tenant)) (wa_subs w)\<rparr>;
          missed = (if 0 < sint sinceID then
              (case map_of (wa_buffers w) tenant of None \<Rightarrow> [] | Some buf \<Rightarrow> rb_since sinceID buf) else [])
      in (w', ch, missed))"

definition unsubscribe :: "nat \<Rightarrow> watcher \<Rightarrow> watcher" where
  "unsubscribe ch w =
     (case find (\<lambda>p. map_of (snd p) ch \<noteq> None) (wa_subs w) of
        None \<Rightarrow> w
      | Some (tenant, subs) \<Rightarrow>
          let subs' = mdel ch subs
          in w\<lparr>wa_subs := (if subs' = [] then mdel tenant (wa_subs w) else mput tenant subs' (wa_subs w)),
               wa_closed := ch # wa_closed w\<rparr>)"

text \<open>The non-blocking send: a full channel drops the event.\<close>

definition chan_send :: "watch_event \<Rightarrow> watch_event list \<Rightarrow> watch_event list" where
  "chan_send evt q = (if length q < eventChannelBuffer then q @ [evt] else q)"

definition mk_event :: "'w kenv \<Rightarrow> int \<Rightarrow> watch_event_type \<Rightarrow> jobj \<Rightarrow> watcher \<Rightarrow> watch_event" where
  "mk_event E now ty obj w =
     \<lparr>we_type = ty, we_app = helm_release_to_application E now obj (u_namespace (ke_unstr E) obj),
      we_id = wa_next_id w + 1\<rparr>"

text \<open>\<open>handleEvent\<close> with no other operation between its unlock and its sends.\<close>

definition handle_event :: "'w kenv \<Rightarrow> int \<Rightarrow> watch_kind \<Rightarrow> jobj \<Rightarrow> watcher \<Rightarrow> watcher" where
  "handle_event E now kind obj w =
     (case map_event_type kind of
        None \<Rightarrow> w
      | Some ty \<Rightarrow>
          let ns = u_namespace (ke_unstr E) obj;
              evt = mk_event E now ty obj w;
              w1 = w\<lparr>wa_next_id := wa_next_id w + 1,
                     wa_buffers := mput ns (rb_add evt (buffer_of w ns)) (wa_buffers w)\<rparr>
          in (case map_of (wa_subs w1) ns of
                None \<Rightarrow> w1
              | Some subs \<Rightarrow>
                  w1\<lparr>wa_subs := mput ns (map (\<lambda>(ch, q). (ch, chan_send evt q)) subs) (wa_subs w1)\<rparr>))"

text \<open>A subscriber takes the oldest event of its channel.\<close>

definition receive :: "nat \<Rightarrow> watcher \<Rightarrow> watcher" where
  "receive ch w =
     w\<lparr>wa_subs := map (\<lambda>(t, subs). (t, map (\<lambda>(c, q). (c, if c = ch then tl q else q)) subs)) (wa_subs w)\<rparr>"

datatype wop =
    OpEvent int watch_kind jobj
  | OpSubscribe string "64 word"
  | OpUnsubscribe nat
  | OpReceive nat

fun wstep :: "'w kenv \<Rightarrow> wop \<Rightarrow> watcher \<Rightarrow> watcher" where
  "wstep E (OpEvent now k obj) w = handle_event E now k obj w"
| "wstep E (OpSubscribe t i) w = fst (subscribe t i w)"
| "wstep E (OpUnsubscribe ch) w = unsubscribe ch w"
| "wstep E (OpReceive ch) w = receive ch w"

fun wrun :: "'w kenv \<Rightarrow> wop list \<Rightarrow> watcher \<Rightarrow> watcher" where
  "wrun E [] w = w"
| "wrun E (op # ops) w = wrun E ops (wstep E op w)"

text \<open>The events a run publishes for a tenant, in order.\<close>

fun published :: "'w kenv \<Rightarrow> string \<Rightarrow> wop list \<Rightarrow> watcher \<Rightarrow> watch_event list" where
  "published E t [] w = []"
| "published E t (op # ops) w =
     (case op of
        OpEvent now k obj \<Rightarrow>
          (case map_event_type k of
             None \<Rightarrow> [] | Some ty \<Rightarrow> if u_namespace (ke_unstr E) obj = t then [mk_event E now ty obj w] else [])
      | _ \<Rightarrow> []) @ published E t ops (wstep E op w)"

section \<open>Lemmas\<close>

definition w_ok :: "watcher \<Rightarrow> bool" where
  "w_ok w \<longleftrightarrow> distinct (mkeys (wa_subs w)) \<and>
     (\<forall>p\<in>set (wa_subs w). distinct (mkeys (snd p)) \<and> (\<forall>c\<in>set (mkeys (snd p)). c < wa_chans w)) \<and>
     (\<forall>p\<in>set (wa_subs w). \<forall>q\<in>set (wa_subs w). \<forall>c. c \<in> set (mkeys (snd p)) \<longrightarrow> c \<in> set (mkeys (snd q)) \<longrightarrow> fst p = fst q) \<and>
     (\<forall>t. rb_ok (buffer_of w t))"

lemma buffer_of_sel [simp]:
  "buffer_of (w\<lparr>wa_subs := s\<rparr>) t = buffer_of w t"
  "buffer_of (w\<lparr>wa_chans := n\<rparr>) t = buffer_of w t"
  "buffer_of (w\<lparr>wa_next_id := i\<rparr>) t = buffer_of w t"
  "buffer_of (w\<lparr>wa_closed := c\<rparr>) t = buffer_of w t"
  by (simp_all add: buffer_of_def)

lemma buffer_of_put [simp]:
  "buffer_of (w\<lparr>wa_buffers := mput t' b (wa_buffers w)\<rparr>) t = (if t = t' then b else buffer_of w t)"
  by (simp add: buffer_of_def mget_or_def)

lemma buffer_of_subscribe [simp]: "buffer_of (fst (subscribe t' i w)) t = buffer_of w t"
  by (simp add: subscribe_def Let_def)

lemma buffer_of_unsubscribe [simp]: "buffer_of (unsubscribe ch w) t = buffer_of w t"
  by (simp add: unsubscribe_def Let_def split: option.split prod.split)

lemma buffer_of_receive [simp]: "buffer_of (receive ch w) t = buffer_of w t"
  by (simp add: receive_def)

lemma next_id_sel [simp]:
  "wa_next_id (fst (subscribe t' i w)) = wa_next_id w" "wa_next_id (unsubscribe ch w) = wa_next_id w"
  "wa_next_id (receive ch w) = wa_next_id w"
  by (simp_all add: subscribe_def unsubscribe_def receive_def Let_def split: option.split prod.split)

lemma buffer_of_handle_event:
  "buffer_of (handle_event E now k obj w) t =
     (case map_event_type k of
        None \<Rightarrow> buffer_of w t
      | Some ty \<Rightarrow> if u_namespace (ke_unstr E) obj = t then rb_add (mk_event E now ty obj w) (buffer_of w t)
                   else buffer_of w t)"
  by (auto simp: handle_event_def Let_def buffer_of_def mget_or_def split: option.splits)

lemma next_id_handle_event:
  "wa_next_id (handle_event E now k obj w) =
     (if map_event_type k = None then wa_next_id w else wa_next_id w + 1)"
  by (auto simp: handle_event_def Let_def split: option.splits)

text \<open>A tenant's ring holds exactly the last events published for it.\<close>

lemma buffer_of_run:
  "(\<forall>t. rb_ok (buffer_of w t)) \<Longrightarrow>
     rb_ok (buffer_of (wrun E ops w) t) \<and>
     (rb_list (buffer_of (wrun E ops w) t) = last_n replayBufferSize (rb_list (buffer_of w t) @ published E t ops w) \<or>
      published E t ops w = [] \<and> buffer_of (wrun E ops w) t = buffer_of w t)"
proof (induction ops arbitrary: w)
  case (Cons op ops)
  have ok: "\<forall>t. rb_ok (buffer_of (wstep E op w) t)"
    using Cons.prems by (cases op) (auto simp: buffer_of_handle_event rb_ok_add split: option.split)
  note IH = Cons.IH [OF ok]
  show ?case
  proof (cases op)
    case (OpEvent now k obj)
    then show ?thesis
    proof (cases "\<exists>ty. map_event_type k = Some ty \<and> u_namespace (ke_unstr E) obj = t")
      case True
      then obtain ty where ty: "map_event_type k = Some ty" "u_namespace (ke_unstr E) obj = t" by blast
      have b: "rb_list (buffer_of (wstep E op w) t) =
          last_n replayBufferSize (rb_list (buffer_of w t) @ [mk_event E now ty obj w])"
        using OpEvent ty Cons.prems by (simp add: buffer_of_handle_event rb_list_add)
      with IH OpEvent ty show ?thesis by (auto simp: last_n_last_n_append)
    next
      case False
      then have "buffer_of (wstep E op w) t = buffer_of w t"
        "published E t (op # ops) w = published E t ops (wstep E op w)"
        using OpEvent by (auto simp: buffer_of_handle_event split: option.splits)
      with IH show ?thesis by simp
    qed
  qed (use IH in simp_all)
qed simp

lemma buffer_of_new [simp]: "buffer_of new_watcher t = empty_buffer"
  by (simp add: buffer_of_def new_watcher_def mget_or_def)

lemma ring_after_run:
  "rb_ok (buffer_of (wrun E ops new_watcher) t) \<and>
     rb_list (buffer_of (wrun E ops new_watcher) t) = last_n replayBufferSize (published E t ops new_watcher)"
  using buffer_of_run [of new_watcher E ops t] by (auto simp: last_n_def)

text \<open>Identifiers count up from the stored one, while the counter stays below its bound.\<close>

lemma published_ids:
  "sint (wa_next_id w) + int (length ops) < 2 ^ 63 \<Longrightarrow> 0 \<le> sint (wa_next_id w) \<Longrightarrow>
     sorted_wrt (\<lambda>a b. sint (we_id a) < sint (we_id b)) (published E t ops w) \<and>
     (\<forall>e\<in>set (published E t ops w). sint (wa_next_id w) < sint (we_id e)) \<and>
     sint (wa_next_id (wrun E ops w)) \<le> sint (wa_next_id w) + int (length ops) \<and>
     sint (wa_next_id w) \<le> sint (wa_next_id (wrun E ops w)) \<and>
     (\<forall>e\<in>set (published E t ops w). sint (we_id e) \<le> sint (wa_next_id (wrun E ops w)))"
proof (induction ops arbitrary: w)
  case (Cons op ops)
  have step: "sint (wa_next_id w + 1) = sint (wa_next_id w) + 1"
  proof -
    have "sint (wa_next_id w) + 1 < 2 ^ 63" using Cons.prems(1) by simp
    then have "signed_take_bit 63 (sint (wa_next_id w) + 1) = sint (wa_next_id w) + 1"
      using Cons.prems(2) by (intro signed_take_bit_int_eq_self) simp_all
    then show ?thesis by (simp add: sint_word_ariths)
  qed
  show ?case
  proof (cases op)
    case (OpEvent now k obj)
    show ?thesis
    proof (cases "map_event_type k")
      case None
      with OpEvent have "wa_next_id (wstep E op w) = wa_next_id w" by (simp add: next_id_handle_event)
      with Cons.IH [of "wstep E op w"] Cons.prems OpEvent None show ?thesis by simp
    next
      case (Some ty)
      with OpEvent have n: "wa_next_id (wstep E op w) = wa_next_id w + 1" by (simp add: next_id_handle_event)
      with Cons.IH [of "wstep E op w"] Cons.prems step OpEvent Some show ?thesis
        by (auto simp: mk_event_def dest: order.strict_trans)
    qed
  qed (use Cons.IH [of "wstep E op w"] Cons.prems in simp_all)
qed simp

text \<open>The queue of a channel, and what an operation on other channels does to it.\<close>

definition queue_of :: "watcher \<Rightarrow> string \<Rightarrow> nat \<Rightarrow> watch_event list option" where
  "queue_of w t ch = Option.bind (map_of (wa_subs w) t) (\<lambda>subs. map_of subs ch)"

definition reg_ok :: "watcher \<Rightarrow> bool" where
  "reg_ok w \<longleftrightarrow> distinct (mkeys (wa_subs w)) \<and>
     (\<forall>t ch q. queue_of w t ch = Some q \<longrightarrow> ch < wa_chans w \<and> length q \<le> eventChannelBuffer) \<and>
     (\<forall>t t' ch. queue_of w t ch \<noteq> None \<longrightarrow> queue_of w t' ch \<noteq> None \<longrightarrow> t = t')"

lemma reg_ok_same:
  "reg_ok w \<Longrightarrow> queue_of w t ch = Some q \<Longrightarrow> queue_of w t' ch = Some q' \<Longrightarrow> t = t'"
  unfolding reg_ok_def by blast

lemma reg_ok_bound: "reg_ok w \<Longrightarrow> queue_of w t ch = Some q \<Longrightarrow> length q \<le> eventChannelBuffer"
  unfolding reg_ok_def by blast

lemma take_take_append: "take n (take n xs @ ys) = take n (xs @ ys)"
  by (cases "length xs \<le> n") simp_all

lemma reg_ok_new: "reg_ok new_watcher"
  by (simp add: reg_ok_def new_watcher_def queue_of_def)

lemma queue_of_subscribe:
  "queue_of (fst (subscribe t i w)) t' ch' =
     (if t' = t \<and> ch' = wa_chans w then Some [] else queue_of w t' ch')"
  by (simp add: queue_of_def subscribe_def subs_of_def mget_or_def Let_def split: option.split)

lemma map_of_map_snd: "map_of (map (\<lambda>(k, v). (k, f k v)) m) k = map_option (f k) (map_of m k)"
  by (induction m) auto

lemma queue_of_handle_event:
  "queue_of (handle_event E now k obj w) t ch =
     (case map_event_type k of
        None \<Rightarrow> queue_of w t ch
      | Some ty \<Rightarrow> if u_namespace (ke_unstr E) obj = t
          then map_option (chan_send (mk_event E now ty obj w)) (queue_of w t ch) else queue_of w t ch)"
  by (auto simp: queue_of_def handle_event_def Let_def map_of_map_snd split: option.splits)

lemma queue_of_receive:
  "queue_of (receive ch w) t ch' = map_option (\<lambda>q. if ch' = ch then tl q else q) (queue_of w t ch')"
  by (cases "map_of (wa_subs w) t")
    (simp_all add: queue_of_def receive_def map_of_map_snd)

lemma unsubscribe_cases:
  assumes "reg_ok w"
  obtains "\<forall>t. queue_of w t ch = None" "unsubscribe ch w = w"
  | t subs where "map_of (wa_subs w) t = Some subs" "map_of subs ch \<noteq> None"
    "unsubscribe ch w = w\<lparr>wa_subs := (if mdel ch subs = [] then mdel t (wa_subs w)
       else mput t (mdel ch subs) (wa_subs w)), wa_closed := ch # wa_closed w\<rparr>"
proof (cases "find (\<lambda>p. map_of (snd p) ch \<noteq> None) (wa_subs w)")
  case None
  then have "\<forall>p\<in>set (wa_subs w). map_of (snd p) ch = None" by (auto simp: find_None_iff)
  then have "queue_of w t ch = None" for t
    by (cases "map_of (wa_subs w) t") (auto simp: queue_of_def dest!: map_of_SomeD)
  with None that(1) show ?thesis by (simp add: unsubscribe_def)
next
  case (Some p)
  obtain t subs where p: "p = (t, subs)" by fastforce
  have "p \<in> set (wa_subs w) \<and> map_of (snd p) ch \<noteq> None"
    using Some unfolding find_Some_iff by (metis nth_mem)
  then have "map_of (wa_subs w) t = Some subs" "map_of subs ch \<noteq> None"
    using assms p by (simp_all add: reg_ok_def)
  moreover have "unsubscribe ch w = w\<lparr>wa_subs := (if mdel ch subs = [] then mdel t (wa_subs w)
       else mput t (mdel ch subs) (wa_subs w)), wa_closed := ch # wa_closed w\<rparr>"
    unfolding unsubscribe_def Some p by (simp add: Let_def)
  ultimately show ?thesis by (rule that(2))
qed

lemma queue_of_unsubscribe:
  assumes "reg_ok w"
  shows "queue_of (unsubscribe ch w) t' ch' = (if ch' = ch then None else queue_of w t' ch')"
  using assms
proof (cases rule: unsubscribe_cases [where ch = ch])
  case 1
  then show ?thesis by simp
next
  case (2 t subs)
  have other: "queue_of w t' ch = None" if "t' \<noteq> t"
  proof -
    obtain q where "queue_of w t ch = Some q" using 2(1,2) by (auto simp: queue_of_def)
    from reg_ok_same [OF assms this] that show ?thesis by (cases "queue_of w t' ch") auto
  qed
  have gone: "map_of subs ch' = None" if "mdel ch subs = []" "ch' \<noteq> ch"
    using that map_of_mdel [of ch subs ch'] by simp
  show ?thesis
    using 2(1,2) other gone unfolding 2(3) by (auto simp: queue_of_def)
qed

lemma reg_ok_step:
  assumes "reg_ok w"
  shows "reg_ok (wstep E op w)"
proof (cases op)
  case (OpEvent now k obj)
  have d: "distinct (mkeys (wa_subs (handle_event E now k obj w)))"
    using assms by (auto simp: reg_ok_def handle_event_def Let_def split: option.splits)
  have c: "wa_chans (handle_event E now k obj w) = wa_chans w"
    by (auto simp: handle_event_def Let_def split: option.splits)
  have n: "queue_of (handle_event E now k obj w) t ch = None \<longleftrightarrow> queue_of w t ch = None" for t ch
    by (auto simp: queue_of_handle_event split: option.split)
  have b: "length (chan_send e q) \<le> eventChannelBuffer" if "length q \<le> eventChannelBuffer" for e q
    using that by (simp add: chan_send_def)
  show ?thesis
    using assms d unfolding OpEvent wstep.simps reg_ok_def c n
    by (auto simp: queue_of_handle_event b split: option.splits if_splits)
next
  case (OpSubscribe t i)
  have d: "distinct (mkeys (wa_subs (fst (subscribe t i w))))" "wa_chans (fst (subscribe t i w)) = Suc (wa_chans w)"
    using assms by (simp_all add: reg_ok_def subscribe_def Let_def)
  have "queue_of w t' (wa_chans w) = None" for t'
    using assms unfolding reg_ok_def by (metis less_irrefl not_Some_eq)
  with assms d show ?thesis
    unfolding OpSubscribe wstep.simps reg_ok_def queue_of_subscribe
    by (auto simp: less_Suc_eq split: if_splits)
next
  case (OpUnsubscribe ch)
  have "distinct (mkeys (wa_subs (unsubscribe ch w)))" "wa_chans (unsubscribe ch w) = wa_chans w"
    using assms by (auto simp: reg_ok_def unsubscribe_def Let_def split: option.split prod.split)
  with assms show ?thesis
    unfolding OpUnsubscribe wstep.simps reg_ok_def queue_of_unsubscribe [OF assms]
    by (auto split: if_splits)
next
  case (OpReceive ch)
  have "mkeys (wa_subs (receive ch w)) = mkeys (wa_subs w)" "wa_chans (receive ch w) = wa_chans w"
    by (simp_all add: receive_def case_prod_beta comp_def)
  moreover have "length (tl q) \<le> eventChannelBuffer" if "length q \<le> eventChannelBuffer"
    for q :: "watch_event list"
    using that by simp
  ultimately show ?thesis
    using assms unfolding OpReceive wstep.simps reg_ok_def queue_of_receive
    by (auto simp del: length_tl)
qed

lemma reg_ok_run: "reg_ok w \<Longrightarrow> reg_ok (wrun E ops w)"
  by (induction ops arbitrary: w) (simp_all add: reg_ok_step)

lemma chan_send_take: "length q \<le> eventChannelBuffer \<Longrightarrow> chan_send e q = take eventChannelBuffer (q @ [e])"
  by (simp add: chan_send_def)

text \<open>An untouched channel queues the published events up to its capacity and drops the rest.\<close>

lemma queue_after_run:
  assumes "reg_ok w" "queue_of w t ch = Some q"
    and "\<forall>op\<in>set ops. op \<noteq> OpReceive ch \<and> op \<noteq> OpUnsubscribe ch"
  shows "queue_of (wrun E ops w) t ch = Some (take eventChannelBuffer (q @ published E t ops w))"
  using assms
proof (induction ops arbitrary: w q)
  case Nil
  then show ?case by (simp add: reg_ok_def)
next
  case (Cons op ops)
  have q: "length q \<le> eventChannelBuffer" "ch < wa_chans w"
    using Cons.prems(1,2) by (auto simp: reg_ok_def)
  have ok: "reg_ok (wstep E op w)" using Cons.prems(1) by (rule reg_ok_step)
  have rest: "\<forall>op\<in>set ops. op \<noteq> OpReceive ch \<and> op \<noteq> OpUnsubscribe ch" using Cons.prems(3) by simp
  note IH = Cons.IH [OF ok _ rest]
  show ?case
  proof (cases op)
    case (OpEvent now k obj)
    show ?thesis
    proof (cases "\<exists>ty. map_event_type k = Some ty \<and> u_namespace (ke_unstr E) obj = t")
      case True
      then obtain ty where ty: "map_event_type k = Some ty" "u_namespace (ke_unstr E) obj = t" by blast
      have "queue_of (wstep E op w) t ch = Some (take eventChannelBuffer (q @ [mk_event E now ty obj w]))"
        using OpEvent ty Cons.prems(2) q by (simp add: queue_of_handle_event chan_send_take)
      from IH [OF this] OpEvent ty show ?thesis unfolding take_take_append by simp
    next
      case False
      then have "queue_of (wstep E op w) t ch = Some q"
        using OpEvent Cons.prems(2) by (auto simp: queue_of_handle_event split: option.split)
      from IH [OF this] OpEvent False show ?thesis by (auto split: option.splits)
    qed
  next
    case (OpSubscribe t' i)
    then have "queue_of (wstep E op w) t ch = Some q"
      using Cons.prems(2) q(2) by (simp add: queue_of_subscribe)
    from IH [OF this] OpSubscribe show ?thesis by simp
  next
    case (OpUnsubscribe ch')
    then have "queue_of (wstep E op w) t ch = Some q"
      using Cons.prems by (simp add: queue_of_unsubscribe)
    from IH [OF this] OpUnsubscribe show ?thesis by simp
  next
    case (OpReceive ch')
    then have "queue_of (wstep E op w) t ch = Some q"
      using Cons.prems by (simp add: queue_of_receive)
    from IH [OF this] OpReceive show ?thesis by simp
  qed
qed

lemma published_append:
  "published E t (ops @ ops') w = published E t ops w @ published E t ops' (wrun E ops w)"
  by (induction ops arbitrary: w) simp_all

lemma sorted_split:
  "sorted_wrt (\<lambda>a b. sint (we_id a) < sint (we_id b)) es \<Longrightarrow>
     \<exists>old fresh. es = old @ fresh \<and> (\<forall>e\<in>set old. \<not> sint i < sint (we_id e)) \<and>
       (\<forall>e\<in>set fresh. sint i < sint (we_id e))"
proof (induction es)
  case (Cons e es)
  show ?case
  proof (cases "sint i < sint (we_id e)")
    case True
    then have "\<forall>x\<in>set (e # es). sint i < sint (we_id x)" using Cons.prems by auto
    then show ?thesis by (intro exI [of _ "[]"] exI [of _ "e # es"]) simp
  next
    case False
    from Cons obtain old fresh where "es = old @ fresh" "\<forall>e\<in>set old. \<not> sint i < sint (we_id e)"
      "\<forall>e\<in>set fresh. sint i < sint (we_id e)" by auto
    with False show ?thesis by (intro exI [of _ "e # old"] exI [of _ fresh]) simp
  qed
qed simp

section \<open>Publisher and subscribers interleaved\<close>

text \<open>
  \<open>handleEvent\<close> releases the mutex before it ranges over the tenant's subscribers and sends.
  Here the publisher of one tenant is a machine of its own: \<open>PRange\<close> is the loop with the
  channels visited so far, \<open>PSend ch\<close> is the loop body about to send. \<open>ra_seen\<close> is the map
  object the publisher ranges over; when its last channel goes, the tenant gets a new map,
  \<open>ra_other\<close>, at the next subscription. Subscribe and Unsubscribe are atomic, as they hold the
  mutex.
\<close>

datatype publisher = PIdle | PRange "nat set" | PSend "nat set" nat | PPanic

record race =
  ra_seen :: "nat set"
  ra_other :: "nat set"
  ra_closed :: "nat set"
  ra_next :: nat
  ra_pub :: publisher

inductive rstep :: "race \<Rightarrow> race \<Rightarrow> bool" where
  publish: "ra_pub s = PIdle \<Longrightarrow>
     rstep s (s\<lparr>ra_seen := ra_seen s \<union> ra_other s, ra_other := {}, ra_pub := PRange {}\<rparr>)"
| pick: "ra_pub s = PRange V \<Longrightarrow> ch \<in> ra_seen s - V \<Longrightarrow> rstep s (s\<lparr>ra_pub := PSend (insert ch V) ch\<rparr>)"
| send: "ra_pub s = PSend V ch \<Longrightarrow> ch \<notin> ra_closed s \<Longrightarrow> rstep s (s\<lparr>ra_pub := PRange V\<rparr>)"
| send_closed: "ra_pub s = PSend V ch \<Longrightarrow> ch \<in> ra_closed s \<Longrightarrow> rstep s (s\<lparr>ra_pub := PPanic\<rparr>)"
| finish: "ra_pub s = PRange V \<Longrightarrow> ra_seen s \<subseteq> V \<Longrightarrow> rstep s (s\<lparr>ra_pub := PIdle\<rparr>)"
| join: "ra_pub s \<noteq> PPanic \<Longrightarrow> ra_seen s \<noteq> {} \<Longrightarrow>
     rstep s (s\<lparr>ra_seen := insert (ra_next s) (ra_seen s), ra_next := Suc (ra_next s)\<rparr>)"
| join_new: "ra_pub s \<noteq> PPanic \<Longrightarrow> ra_seen s = {} \<Longrightarrow>
     rstep s (s\<lparr>ra_other := insert (ra_next s) (ra_other s), ra_next := Suc (ra_next s)\<rparr>)"
| leave: "ra_pub s \<noteq> PPanic \<Longrightarrow> ch \<in> ra_seen s \<union> ra_other s \<Longrightarrow>
     rstep s (s\<lparr>ra_seen := ra_seen s - {ch}, ra_other := ra_other s - {ch},
                ra_closed := insert ch (ra_closed s)\<rparr>)"


definition race_start :: race where
  "race_start = \<lparr>ra_seen = {}, ra_other = {}, ra_closed = {}, ra_next = 0, ra_pub = PIdle\<rparr>"

text \<open>No publisher is between picking a channel and sending when a subscriber leaves.\<close>

inductive locked_run :: "race \<Rightarrow> bool" where
  start: "locked_run race_start"
| step: "locked_run s \<Longrightarrow> rstep s s' \<Longrightarrow>
     (ra_closed s' \<noteq> ra_closed s \<longrightarrow> (\<forall>V ch. ra_pub s \<noteq> PSend V ch)) \<Longrightarrow> locked_run s'"

lemma locked_run_inv:
  "locked_run s \<Longrightarrow> ra_pub s \<noteq> PPanic \<and> (ra_seen s \<union> ra_other s) \<inter> ra_closed s = {} \<and>
     (\<forall>c\<in>ra_seen s \<union> ra_other s \<union> ra_closed s. c < ra_next s) \<and>
     (\<forall>V ch. ra_pub s = PSend V ch \<longrightarrow> ch \<notin> ra_closed s)"
proof (induction rule: locked_run.induct)
  case start
  then show ?case by (simp add: race_start_def)
next
  case (step s s')
  from step.hyps(2) show ?case
  proof (cases rule: rstep.cases)
    case (leave ch)
    have "ch \<notin> ra_closed s" using leave(3) step.IH by auto
    then have "\<forall>V c. ra_pub s \<noteq> PSend V c" using step.hyps(3) leave(1) by auto
    with leave step.IH show ?thesis by auto
  qed (use step.IH in \<open>auto simp: less_Suc_eq\<close>)
qed

theorem publisher_panic_reachable: "\<exists>s. rstep\<^sup>*\<^sup>* race_start s \<and> ra_pub s = PPanic"
proof -
  define s1 where "s1 = race_start\<lparr>ra_other := {0}, ra_next := 1\<rparr>"
  define s2 where "s2 = s1\<lparr>ra_seen := {0}, ra_other := {}, ra_pub := PRange {}\<rparr>"
  define s3 where "s3 = s2\<lparr>ra_pub := PSend {0} 0\<rparr>"
  define s4 where "s4 = s3\<lparr>ra_seen := {}, ra_other := {}, ra_closed := {0}\<rparr>"
  define s5 where "s5 = s4\<lparr>ra_pub := PPanic\<rparr>"
  have 1: "rstep race_start s1" using rstep.join_new [of race_start] by (simp add: race_start_def s1_def)
  have 2: "rstep s1 s2" using rstep.publish [of s1] by (simp add: race_start_def s1_def s2_def)
  have 3: "rstep s2 s3" using rstep.pick [of s2 "{}" 0] by (simp add: s2_def s3_def)
  have 4: "rstep s3 s4" using rstep.leave [of s3 0] by (simp add: s1_def s2_def s3_def s4_def race_start_def)
  have 5: "rstep s4 s5" using rstep.send_closed [of s4 "{0}" 0] by (simp add: s3_def s4_def s5_def)
  have "rstep\<^sup>*\<^sup>* race_start s5"
    using 1 2 3 4 5 by (meson converse_rtranclp_into_rtranclp rtranclp.rtrancl_refl)
  then show ?thesis by (intro exI [of _ s5]) (simp add: s5_def)
qed

section \<open>Properties\<close>

text \<open>
  C36: the replay ring. After any run of the watcher, with any number of tenants, the ring of a
  tenant contains exactly the last 128 events published for it, oldest first; the identifiers of
  a tenant's events increase strictly, as long as the 64-bit counter does not wrap.
\<close>

theorem ring_holds_last_events:
  assumes "int (length ops) < 2 ^ 63"
  shows "rb_list (buffer_of (wrun E ops new_watcher) t) =
      drop (length (published E t ops new_watcher) - 128) (published E t ops new_watcher)
    \<and> sorted_wrt (\<lambda>a b. sint (we_id a) < sint (we_id b)) (published E t ops new_watcher)"
  using ring_after_run [of E ops t] published_ids [of new_watcher ops E t] assms
  by (simp add: last_n_def replayBufferSize_def new_watcher_def)

definition sample_release :: jobj where
  "sample_release = [(''metadata'', JMap [(''name'', JStr ''postgres-db''), (''namespace'', JStr ''tenant-a''),
     (''labels'', JMap [(cozyAppKindLabel, JStr ''Postgres''), (cozyAppNameLabel, JStr ''db'')])])]"

definition sample_ops :: "wop list" where
  "sample_ops = [OpEvent 0 KAdded sample_release, OpEvent 1 KModified sample_release]"

theorem ring_holds_last_events_witness:
  "sorted_wrt (\<lambda>a b. sint (we_id a) < sint (we_id b)) (published sample_app_env ''tenant-a'' sample_ops new_watcher)"
  by (rule ring_holds_last_events [THEN conjunct2]) (simp add: sample_ops_def)



text \<open>
  When a subscriber never leaves while the publisher stands between picking its channel and
  sending, no send ever meets a closed channel: closed channels are never those registered. The
  code does not enforce the condition; without it \<open>publisher_panic_reachable\<close> gives a run that
  panics.
\<close>

theorem no_panic_when_sends_are_locked:
  assumes "locked_run s"
  shows "ra_pub s \<noteq> PPanic \<and> (ra_seen s \<union> ra_other s) \<inter> ra_closed s = {}
    \<and> (\<forall>V ch s'. ra_pub s = PSend V ch \<longrightarrow> rstep s s' \<longrightarrow> ra_pub s' \<noteq> PPanic)"
proof -
  note inv = locked_run_inv [OF assms]
  have "ra_pub s' \<noteq> PPanic" if "ra_pub s = PSend V ch" "rstep s s'" for V ch s'
    using that(2,1) inv by (cases rule: rstep.cases) auto
  with inv show ?thesis by blast
qed

theorem no_panic_when_sends_are_locked_witness:
  "ra_pub (race_start\<lparr>ra_other := {0}, ra_next := 1\<rparr>) \<noteq> PPanic"
proof -
  have "rstep race_start (race_start\<lparr>ra_other := {0}, ra_next := 1\<rparr>)"
    using rstep.join_new [of race_start] by (simp add: race_start_def)
  then have "locked_run (race_start\<lparr>ra_other := {0}, ra_next := 1\<rparr>)"
    by (rule locked_run.step [OF locked_run.start]) simp
  from no_panic_when_sends_are_locked [OF this] show ?thesis by blast
qed

end
