(* ===== verification/Rate_Limit.thy ===== *)
theory Rate_Limit
  imports Session_Auth
begin

text \<open>
  \<open>internal/api/ratelimit.go\<close>: a token bucket per user (or per client address before sign-in)
  with a janitor that drops idle ones. The bucket of \<open>golang.org/x/time/rate\<close> is an argument;
  time is in nanoseconds. \<open>allow\<close> holds the store's mutex for the map and uses the bucket
  afterwards; the janitor cannot drop a bucket whose time stamp was just set, so one call is one
  operation here.
\<close>

definition rateLimitBurst :: int where "rateLimitBurst = 30"
definition rateLimitRefillPerSecond :: int where "rateLimitRefillPerSecond = 20"
definition rateLimitGCInterval :: int where "rateLimitGCInterval = 5 * 60 * 10 ^ 9"
definition rateLimitIdleTimeout :: int where "rateLimitIdleTimeout = 15 * 60 * 10 ^ 9"

record 'l limiter_lib =
  ll_new :: "int \<Rightarrow> int \<Rightarrow> 'l"
  ll_allow :: "int \<Rightarrow> 'l \<Rightarrow> 'l \<times> bool"

record 'l per_user_limiter =
  pl_limiter :: 'l
  pl_last_seen :: int

record 'l rate_limit_store =
  rs_buckets :: "(string, 'l per_user_limiter) gomap"
  rs_burst :: int
  rs_rate :: int

definition new_rate_limit_store :: "'l rate_limit_store" where
  "new_rate_limit_store =
     \<lparr>rs_buckets = [], rs_burst = rateLimitBurst, rs_rate = rateLimitRefillPerSecond\<rparr>"

text \<open>One tick of \<open>gcLoop\<close>.\<close>

definition rl_gc :: "int \<Rightarrow> 'l rate_limit_store \<Rightarrow> 'l rate_limit_store" where
  "rl_gc now st =
     st\<lparr>rs_buckets := filter (\<lambda>p. \<not> pl_last_seen (snd p) < now - rateLimitIdleTimeout) (rs_buckets st)\<rparr>"

definition rl_allow ::
  "'l limiter_lib \<Rightarrow> int \<Rightarrow> string \<Rightarrow> 'l rate_limit_store \<Rightarrow> 'l rate_limit_store \<times> bool" where
  "rl_allow lib now key st =
     (let limiter = (case map_of (rs_buckets st) key of
            None \<Rightarrow> ll_new lib (rs_rate st) (rs_burst st) | Some b \<Rightarrow> pl_limiter b)
      in case ll_allow lib now limiter of
           (limiter', ok) \<Rightarrow>
             (st\<lparr>rs_buckets := mput key \<lparr>pl_limiter = limiter', pl_last_seen = now\<rparr> (rs_buckets st)\<rparr>, ok))"

text \<open>
  The two middlewares: \<open>True\<close> calls the next handler with the writer as it is, \<open>False\<close>
  means the answer was given.
\<close>

definition too_many :: "'p writer \<Rightarrow> 'p writer" where
  "too_many w = http_error ''rate limit exceeded'' 429 w"

definition with_rate_limit ::
  "'l limiter_lib \<Rightarrow> int \<Rightarrow> ctx \<Rightarrow> 'p writer \<Rightarrow> 'l rate_limit_store \<Rightarrow> 'l rate_limit_store \<times> 'p writer \<times> bool" where
  "with_rate_limit lib now c w st =
     (case user_from_context c of
        None \<Rightarrow> (st, w, True)
      | Some usr \<Rightarrow>
          (case rl_allow lib now (uc_username usr) st of
             (st', ok) \<Rightarrow>
               if ok then (st', w, True)
               else (st', too_many (set_header ''Hx-Reswap'' ''none'' (set_header ''Retry-After'' ''1'' w)), False)))"

definition client_ip :: "request \<Rightarrow> bool \<Rightarrow> string" where
  "client_ip req trustForwardedHeaders =
     (let xff = header_get req ''X-Forwarded-For'' in
      if trustForwardedHeaders \<and> xff \<noteq> '''' then trim_space (cut_before CHR '','' xff)
      else r_remote_addr req)"

definition with_ip_rate_limit ::
  "'l limiter_lib \<Rightarrow> int \<Rightarrow> bool \<Rightarrow> request \<Rightarrow> 'p writer \<Rightarrow> 'l rate_limit_store \<Rightarrow>
     'l rate_limit_store \<times> 'p writer \<times> bool" where
  "with_ip_rate_limit lib now trust req w st =
     (case rl_allow lib now (''ip:'' @ client_ip req trust) st of
        (st', ok) \<Rightarrow>
          if ok then (st', w, True) else (st', too_many (set_header ''Retry-After'' ''1'' w), False))"

section \<open>Runs of the store\<close>

datatype rl_op = RAllow int string | RGc int

fun rl_run :: "'l limiter_lib \<Rightarrow> rl_op list \<Rightarrow> 'l rate_limit_store \<Rightarrow> (string \<times> bool) list" where
  "rl_run lib [] st = []"
| "rl_run lib (RAllow now key # ops) st =
     (case rl_allow lib now key st of (st', ok) \<Rightarrow> (key, ok) # rl_run lib ops st')"
| "rl_run lib (RGc now # ops) st = rl_run lib ops (rl_gc now st)"

text \<open>The operations of a run that concern a key: its own requests and the janitor's ticks.\<close>

fun concerns :: "string \<Rightarrow> rl_op \<Rightarrow> bool" where
  "concerns key (RAllow now k) = (k = key)"
| "concerns key (RGc now) = True"

lemma map_of_gc:
  "distinct (mkeys (rs_buckets st)) \<Longrightarrow> map_of (rs_buckets (rl_gc now st)) k =
     (case map_of (rs_buckets st) k of
        None \<Rightarrow> None | Some b \<Rightarrow> if pl_last_seen b < now - rateLimitIdleTimeout then None else Some b)"
proof -
  have "distinct (map fst m) \<Longrightarrow> map_of (filter (\<lambda>p. P (snd p)) m) k =
      (case map_of m k of None \<Rightarrow> None | Some b \<Rightarrow> if P b then Some b else None)"
    for m :: "(string \<times> 'a per_user_limiter) list" and P
    by (induction m) (auto split: option.splits simp: map_of_eq_None_iff image_iff)
  from this [of "rs_buckets st" "\<lambda>b. \<not> pl_last_seen b < now - rateLimitIdleTimeout"]
  show "distinct (mkeys (rs_buckets st)) \<Longrightarrow> ?thesis"
    by (simp add: rl_gc_def split: option.split)
qed

lemma rl_allow_sel:
  "rs_burst (fst (rl_allow lib now key st)) = rs_burst st" "rs_rate (fst (rl_allow lib now key st)) = rs_rate st"
  "k \<noteq> key \<Longrightarrow> map_of (rs_buckets (fst (rl_allow lib now key st))) k = map_of (rs_buckets st) k"
  "distinct (mkeys (rs_buckets st)) \<Longrightarrow> distinct (mkeys (rs_buckets (fst (rl_allow lib now key st))))"
  by (simp_all add: rl_allow_def Let_def split: prod.split)

lemma rl_allow_own:
  assumes "map_of (rs_buckets st) key = map_of (rs_buckets st') key" "rs_burst st = rs_burst st'" "rs_rate st = rs_rate st'"
  shows "snd (rl_allow lib now key st) = snd (rl_allow lib now key st')"
    "map_of (rs_buckets (fst (rl_allow lib now key st))) key = map_of (rs_buckets (fst (rl_allow lib now key st'))) key"
  unfolding rl_allow_def Let_def assms by (simp_all add: case_prod_beta)

lemma rl_gc_sel [simp]:
  "rs_burst (rl_gc now st) = rs_burst st" "rs_rate (rl_gc now st) = rs_rate st"
  "distinct (mkeys (rs_buckets st)) \<Longrightarrow> distinct (mkeys (rs_buckets (rl_gc now st)))"
  by (simp_all add: rl_gc_def distinct_map_filter)

lemma rl_run_concerns:
  assumes "map_of (rs_buckets st) key = map_of (rs_buckets st') key"
    and "rs_burst st = rs_burst st'" "rs_rate st = rs_rate st'"
    and "distinct (mkeys (rs_buckets st))" "distinct (mkeys (rs_buckets st'))"
  shows "filter (\<lambda>p. fst p = key) (rl_run lib ops st) = rl_run lib (filter (concerns key) ops) st'"
  using assms
proof (induction ops arbitrary: st st')
  case (Cons op ops)
  show ?case
  proof (cases op)
    case (RAllow now k)
    show ?thesis
    proof (cases "k = key")
      case True
      let ?s = "fst (rl_allow lib now key st)" and ?s' = "fst (rl_allow lib now key st')"
      have "filter (\<lambda>p. fst p = key) (rl_run lib ops ?s) = rl_run lib (filter (concerns key) ops) ?s'"
        using Cons.prems rl_allow_own(2) [OF Cons.prems(1-3)]
        by (intro Cons.IH) (simp_all only: rl_allow_sel(1,2,4))
      moreover have "snd (rl_allow lib now key st) = snd (rl_allow lib now key st')"
        using Cons.prems(1-3) by (rule rl_allow_own(1))
      ultimately show ?thesis using RAllow True by (simp add: case_prod_beta)
    next
      case False
      have "map_of (rs_buckets (fst (rl_allow lib now k st))) key = map_of (rs_buckets st') key"
        using False Cons.prems(1) rl_allow_sel(3) [of key k lib now st] by simp
      then have "filter (\<lambda>p. fst p = key) (rl_run lib ops (fst (rl_allow lib now k st))) =
          rl_run lib (filter (concerns key) ops) st'"
        using Cons.prems by (intro Cons.IH) (simp_all add: rl_allow_sel(1,2,4))
      with RAllow False show ?thesis by (simp add: case_prod_beta)
    qed
  next
    case (RGc now)
    have "filter (\<lambda>p. fst p = key) (rl_run lib ops (rl_gc now st)) =
        rl_run lib (filter (concerns key) ops) (rl_gc now st')"
      using Cons.prems by (intro Cons.IH) (simp_all add: map_of_gc)
    with RGc show ?thesis by simp
  qed
qed simp

section \<open>Properties\<close>

text \<open>
  C37: the limiter treats users independently. In any interleaving of requests and janitor
  ticks, the decisions for one key are those it would get if nobody else existed; and after a
  tick no bucket idle for more than fifteen minutes is left, so memory is bounded by the active
  keys.
\<close>

theorem rate_limit_isolation:
  "filter (\<lambda>p. fst p = key) (rl_run lib ops new_rate_limit_store) =
     rl_run lib (filter (concerns key) ops) new_rate_limit_store
   \<and> list_all (\<lambda>p. now - 15 * 60 * 1000000000 \<le> pl_last_seen (snd p)) (rs_buckets (rl_gc now st))"
proof
  show "filter (\<lambda>p. fst p = key) (rl_run lib ops new_rate_limit_store) =
     rl_run lib (filter (concerns key) ops) new_rate_limit_store"
    by (rule rl_run_concerns) (simp_all add: new_rate_limit_store_def)
  show "list_all (\<lambda>p. now - 15 * 60 * 1000000000 \<le> pl_last_seen (snd p)) (rs_buckets (rl_gc now st))"
    by (auto simp: rl_gc_def list_all_iff rateLimitIdleTimeout_def)
qed

text \<open>
  Who is limited, and how. A request with an identity passes only if its own bucket allows
  it, and is otherwise answered with 429 and a retry hint without reaching the handler; one
  without identity passes untouched. Before sign-in the key is the peer address unless
  forwarded headers are trusted, so a client that sends \<open>X-Forwarded-For\<close> cannot choose it.
\<close>

theorem rate_limit_middleware:
  assumes "w_code w = None"
  shows "(user_from_context c = None \<longrightarrow> with_rate_limit lib now c w st = (st, w, True)) \<and>
    (\<forall>usr. user_from_context c = Some usr \<longrightarrow>
      (case with_rate_limit lib now c w st of (st', w', called) \<Rightarrow>
         called = snd (rl_allow lib now (uc_username usr) st) \<and>
         (called \<longrightarrow> w' = w) \<and>
         (\<not> called \<longrightarrow> w_code w' = Some 429 \<and> sent_header w' ''Retry-After'' = Some ''1''))) \<and>
    (case with_ip_rate_limit lib now False req w st of (st', w', called) \<Rightarrow>
         called = snd (rl_allow lib now (''ip:'' @ r_remote_addr req) st) \<and>
         (\<not> called \<longrightarrow> w_code w' = Some 429))"
  using assms
  by (auto simp: with_rate_limit_def with_ip_rate_limit_def client_ip_def too_many_def http_error_def
      sent_header_def Let_def split: prod.splits)

definition sample_bucket :: "int limiter_lib" where
  "sample_bucket = \<lparr>ll_new = (\<lambda>r b. b), ll_allow = (\<lambda>now n. if 0 < n then (n - 1, True) else (n, False))\<rparr>"

theorem rate_limit_middleware_witness:
  "with_rate_limit sample_bucket 0 empty_ctx (new_writer :: string writer) new_rate_limit_store =
     (new_rate_limit_store, new_writer, True)"
  using rate_limit_middleware [of "new_writer :: string writer" empty_ctx sample_bucket 0 new_rate_limit_store blank_request]
  by (simp add: user_from_context_def empty_ctx_def)

text \<open>User names and address keys share one map: a user named like an address key shares its bucket.\<close>

theorem address_keys_can_collide:
  "(''ip:'' @ client_ip (blank_request\<lparr>r_remote_addr := ''10.0.0.7:1''\<rparr>) False) = uc_username
     \<lparr>uc_username = ''ip:10.0.0.7:1'', uc_groups = [], uc_id_token = '''', uc_kubeconfig = '''', uc_bearer_token = ''''\<rparr>"
  by (simp add: client_ip_def Let_def)

end
