(* ===== verification/Go_Mux.thy ===== *)
theory Go_Mux
  imports Go_Http
begin

text \<open>
  The request multiplexer of \<open>net/http\<close> (Go 1.22 patterns) as the router uses it: patterns of
  a method and a path whose segments are literal, a \<open>{name}\<close> wildcard, a trailing slash, or
  \<open>{$}\<close>. Matching follows the search order of the library's routing tree: at each segment the
  literal branch first, then the wildcard, then the trailing slash of this level. A request whose
  path is not clean is redirected to the clean one, a path that matches only with a slash added
  is redirected there, and a request without match is answered 405 or 404. Paths are the escaped
  paths; the query string of a redirect is not modelled.
\<close>

datatype seg = SLit string | SWild string | SRest | SEnd

type_synonym binds = "(string, string) gomap"
type_synonym 'h entry = "seg list \<times> binds \<times> 'h"
type_synonym 'h mux = "(string \<times> seg list \<times> 'h) list"

fun lit_step :: "string \<Rightarrow> 'h entry list \<Rightarrow> 'h entry list" where
  "lit_step x [] = []"
| "lit_step x ((SLit s # p, b, h) # t) = (if s = x then (p, b, h) # lit_step x t else lit_step x t)"
| "lit_step x (([SEnd], b, h) # t) = (if x = '''' then ([], b, h) # lit_step x t else lit_step x t)"
| "lit_step x (_ # t) = lit_step x t"

fun wild_step :: "string \<Rightarrow> 'h entry list \<Rightarrow> 'h entry list" where
  "wild_step x [] = []"
| "wild_step x ((SWild n # p, b, h) # t) = (p, b @ [(n, x)], h) # wild_step x t"
| "wild_step x (_ # t) = wild_step x t"

definition ending :: "seg list \<Rightarrow> 'h entry list \<Rightarrow> ('h \<times> binds) option" where
  "ending p t = (case filter (\<lambda>e. fst e = p) t of [] \<Rightarrow> None | (q, b, h) # r \<Rightarrow> Some (h, b))"

text \<open>The handler, its path values, and whether the match is exact.\<close>

fun find_route :: "'h entry list \<Rightarrow> string list \<Rightarrow> ('h \<times> binds \<times> bool) option" where
  "find_route t [] = map_option (\<lambda>(h, b). (h, b, True)) (ending [] t)"
| "find_route t (x # xs) =
     (case (if t = [] then None else find_route (lit_step x t) xs) of
        Some r \<Rightarrow> Some r
      | None \<Rightarrow>
          (case (if t = [] \<or> x = '''' then None else find_route (wild_step x t) xs) of
             Some r \<Rightarrow> Some r
           | None \<Rightarrow> map_option (\<lambda>(h, b). (h, b, x = '''' \<and> xs = [])) (ending [SRest] t)))"

lemma find_route_Nil [simp]: "find_route [] xs = None"
  by (cases xs) (simp_all add: ending_def)

definition entries :: "string \<Rightarrow> 'h mux \<Rightarrow> 'h entry list" where
  "entries m mux = map (\<lambda>(_, p, h). (p, [], h)) (filter (\<lambda>(m', _). m' = m) mux)"

definition segments :: "string \<Rightarrow> string list" where
  "segments path = split_on CHR ''/'' (tl path)"

text \<open>A pattern of \<open>GET\<close> also serves \<open>HEAD\<close>.\<close>

definition find_method :: "'h mux \<Rightarrow> string \<Rightarrow> string list \<Rightarrow> ('h \<times> binds \<times> bool) option" where
  "find_method mux m xs =
     (case find_route (entries m mux) xs of
        Some r \<Rightarrow> Some r
      | None \<Rightarrow> if m = ''HEAD'' then find_route (entries ''GET'' mux) xs else None)"

fun clean_segs :: "string list \<Rightarrow> string list \<Rightarrow> string list" where
  "clean_segs acc [] = rev acc"
| "clean_segs acc (s # ss) =
     (if s = '''' \<or> s = ''.'' then clean_segs acc ss
      else if s = ''..'' then clean_segs (tl acc) ss
      else clean_segs (s # acc) ss)"

definition clean_path :: "string \<Rightarrow> string" where
  "clean_path p =
     (if p = '''' then ''/''
      else
        let segs = clean_segs [] (split_on CHR ''/'' p);
            np = (if segs = [] then ''/'' else concat (map ((#) CHR ''/'') segs))
        in if last p = CHR ''/'' \<and> np \<noteq> ''/'' then np @ ''/'' else np)"

datatype 'h routed =
    RtFound 'h binds
  | RtRedirect string
  | RtMethodNotAllowed
  | RtNotFound

definition mux_match :: "'h mux \<Rightarrow> string \<Rightarrow> string \<Rightarrow> 'h routed" where
  "mux_match mux m rawPath =
     (let path = clean_path rawPath;
          xs = segments path;
          n = find_method mux m xs;
          exact = (\<lambda>r. case r of Some (h, b, e) \<Rightarrow> e | None \<Rightarrow> False)
      in if \<not> exact n \<and> \<not> has_suffix path ''/'' \<and> exact (find_method mux m (xs @ [''''])) then
           RtRedirect (path @ ''/'')
         else if path \<noteq> rawPath then RtRedirect path
         else case n of
             Some (h, b, e) \<Rightarrow> RtFound h b
           | None \<Rightarrow>
               if list_ex (\<lambda>(m', _). find_method mux m' xs \<noteq> None) mux then RtMethodNotAllowed
               else RtNotFound)"

definition mux_fallback :: "'h routed \<Rightarrow> 'p writer \<Rightarrow> 'p writer" where
  "mux_fallback r w =
     (case r of
        RtFound h b \<Rightarrow> w
      | RtRedirect p \<Rightarrow> http_redirect p 301 w
      | RtMethodNotAllowed \<Rightarrow> http_error ''Method Not Allowed'' 405 w
      | RtNotFound \<Rightarrow> http_error ''404 page not found'' 404 w)"

section \<open>Lemmas\<close>

lemma lit_step_set: "(p, b, h) \<in> set (lit_step x t) \<Longrightarrow> \<exists>p' b'. (p', b', h) \<in> set t"
  by (induction x t rule: lit_step.induct) (auto split: if_splits)

lemma wild_step_set: "(p, b, h) \<in> set (wild_step x t) \<Longrightarrow> \<exists>p' b'. (p', b', h) \<in> set t"
  by (induction x t rule: wild_step.induct) auto

lemma ending_set: "ending p t = Some (h, b) \<Longrightarrow> (p, b, h) \<in> set t"
  unfolding ending_def by (cases "filter (\<lambda>e. fst e = p) t") (auto simp: filter_eq_Cons_iff)

text \<open>A routed handler is one of the table.\<close>

lemma find_route_sound: "find_route t xs = Some (h, b, e) \<Longrightarrow> \<exists>p b'. (p, b', h) \<in> set t"
proof (induction t xs arbitrary: h b e rule: find_route.induct)
  case (1 t)
  then show ?case by (auto dest: ending_set)
next
  case (2 t x xs)
  let ?lit = "if t = [] then None else find_route (lit_step x t) xs"
  let ?wild = "if t = [] \<or> x = '''' then None else find_route (wild_step x t) xs"
  consider (lit) "?lit = Some (h, b, e)" | (wild) "?lit = None" "?wild = Some (h, b, e)"
    | (rest) "ending [SRest] t = Some (h, b)"
    using "2.prems" by (cases ?lit; cases ?wild) auto
  then show ?case
  proof cases
    case lit
    then have "t \<noteq> []" "find_route (lit_step x t) xs = Some (h, b, e)" by (auto split: if_splits)
    from "2.IH"(1) [OF this] show ?thesis using lit_step_set [of _ _ h x t] by auto
  next
    case wild
    then have "\<not> (t = [] \<or> x = '''')" "find_route (wild_step x t) xs = Some (h, b, e)" by (auto split: if_splits)
    from "2.IH"(2) [OF wild(1) this] show ?thesis using wild_step_set [of _ _ h x t] by auto
  next
    case rest
    then show ?thesis using ending_set by fast
  qed
qed

lemma find_method_table:
  "find_method mux m xs = Some (h, b, e) \<Longrightarrow>
     \<exists>m' p. (m', p, h) \<in> set mux \<and> (m' = m \<or> m = ''HEAD'' \<and> m' = ''GET'')"
  by (fastforce simp: find_method_def entries_def dest!: find_route_sound split: option.splits if_splits)

text \<open>The handler is one of the table, for the method of the request.\<close>

lemma mux_match_found: "mux_match mux m p = RtFound h b \<Longrightarrow> \<exists>e. find_method mux m (segments p) = Some (h, b, e)"
  by (auto simp: mux_match_def Let_def split: if_splits option.splits)

lemma mux_match_table:
  "mux_match mux m p = RtFound h b \<Longrightarrow> \<exists>m' q. (m', q, h) \<in> set mux \<and> (m' = m \<or> m = ''HEAD'' \<and> m' = ''GET'')"
  by (blast dest: mux_match_found find_method_table)

lemma mux_match_sound: "mux_match mux m p = RtFound h b \<Longrightarrow> h \<in> (\<lambda>(_, _, h). h) ` set mux"
  by (force dest: mux_match_table)

lemma mux_fallback_header:
  "map_of (w_header (mux_fallback r w)) k \<in>
     {map_of (w_header w) k} \<union> (if k \<in> {''Content-Type'', ''X-Content-Type-Options'', ''Location''}
        then {Some v | v. k = ''X-Content-Type-Options'' \<longrightarrow> v = ''nosniff''} else {})"
  by (auto simp: mux_fallback_def http_error_def http_redirect_def split: routed.splits)

section \<open>Reverse routing\<close>

definition plain_seg :: "string \<Rightarrow> bool" where
  "plain_seg s \<longleftrightarrow> s \<noteq> '''' \<and> CHR ''/'' \<notin> set s \<and> s \<noteq> ''.'' \<and> s \<noteq> ''..''"

definition path_of :: "string list \<Rightarrow> string" where
  "path_of segs = concat (map ((#) CHR ''/'') segs)"

lemma split_path_of:
  "\<forall>s\<in>set segs. CHR ''/'' \<notin> set s \<Longrightarrow> split_on CHR ''/'' (path_of segs) = '''' # segs"
proof (induction segs)
  case (Cons s segs)
  have "split_on CHR ''/'' (s @ path_of segs) = s # segs"
  proof (cases segs)
    case Nil
    with Cons.prems show ?thesis by (simp add: path_of_def split_on_single)
  next
    case (Cons s' r)
    then have "path_of segs = CHR ''/'' # s' @ path_of r" by (simp add: path_of_def)
    moreover have "split_on CHR ''/'' (path_of segs) = '''' # split_on CHR ''/'' (s' @ path_of r)"
      unfolding calculation by simp
    ultimately show ?thesis
      using Cons.IH Cons.prems split_on_append [of "CHR ''/''" s "s' @ path_of r"] by simp
  qed
  then show ?case by (simp add: path_of_def)
qed (simp add: path_of_def)

lemma clean_segs_plain: "\<forall>s\<in>set segs. plain_seg s \<Longrightarrow> clean_segs acc segs = rev acc @ segs"
  by (induction segs arbitrary: acc) (auto simp: plain_seg_def)

lemma path_of_last:
  assumes "segs \<noteq> []" "\<forall>s\<in>set segs. plain_seg s"
  shows "path_of segs \<noteq> ''''" "last (path_of segs) \<noteq> CHR ''/''"
proof -
  from assms(1) obtain r s where s: "segs = r @ [s]" by (cases segs rule: rev_cases) auto
  with assms(2) have "s \<noteq> ''''" "CHR ''/'' \<notin> set s" by (auto simp: plain_seg_def)
  with s show "path_of segs \<noteq> ''''" "last (path_of segs) \<noteq> CHR ''/''"
    by (auto simp: path_of_def) (metis last_in_set)
qed

lemma clean_path_of:
  "segs \<noteq> [] \<Longrightarrow> \<forall>s\<in>set segs. plain_seg s \<Longrightarrow> clean_path (path_of segs) = path_of segs"
  using path_of_last [of segs]
  by (simp add: clean_path_def Let_def split_path_of plain_seg_def clean_segs_plain)
    (simp add: path_of_def)

lemma segments_path_of:
  assumes "segs \<noteq> []" "\<forall>s\<in>set segs. plain_seg s" shows "segments (path_of segs) = segs"
proof -
  from assms obtain s r where s: "segs = s # r" "CHR ''/'' \<notin> set s" by (cases segs) (auto simp: plain_seg_def)
  have "split_on CHR ''/'' (path_of segs) = '''' # segs"
    using assms by (intro split_path_of) (simp add: plain_seg_def)
  with s show ?thesis by (simp add: segments_def path_of_def)
qed

lemma has_suffix_slash: "p \<noteq> '''' \<Longrightarrow> has_suffix p ''/'' \<longleftrightarrow> last p = CHR ''/''"
  by (cases p rule: rev_cases) (auto simp: has_suffix_iff)

lemma mux_match_plain:
  assumes "segs \<noteq> []" "\<forall>s\<in>set segs. plain_seg s" "find_method mux m segs = Some (h, b, True)"
  shows "mux_match mux m (path_of segs) = RtFound h b"
  using assms by (simp add: mux_match_def Let_def clean_path_of segments_path_of)

lemma mux_match_rest:
  assumes "segs \<noteq> []" "\<forall>s\<in>set segs. plain_seg s" "find_method mux m segs = Some (h, b, False)"
    and "find_method mux m (segs @ ['''']) = Some (h', b', False)"
  shows "mux_match mux m (path_of segs) = RtFound h b"
  using assms by (simp add: mux_match_def Let_def clean_path_of segments_path_of)

end
