(* ===== verification/Api_Router.thy ===== *)
theory Api_Router
  imports Go_Mux Auth_Handlers Rate_Limit Audit_Log
begin

text \<open>
  The request pipeline of \<open>internal/api\<close>: correlation ids and the access log
  (\<open>requestid.go\<close>), the metric labels (\<open>metrics.go\<close>), and the router (\<open>router.go\<close>) with its
  security headers, its timeout, the public routes of each authentication mode and the guard in
  front of every other one. \<open>route\<close> runs a request through the whole chain up to the handler it
  reaches; the handlers are modelled in theories of their own. Tracing is not modelled, and the
  localizer that the i18n middleware attaches is left to the views.
\<close>

section \<open>requestid.go\<close>

definition maxInboundRequestIDLength :: nat where "maxInboundRequestIDLength = 64"

definition inboundRequestIDPattern :: rexp where
  "inboundRequestIDPattern = one_to 64 (Cls (\<lambda>c. alnum c \<or> c = CHR ''_'' \<or> c = CHR ''-''))"

definition with_request_id :: "string \<Rightarrow> request \<Rightarrow> 'p writer \<Rightarrow> string \<times> 'p writer" where
  "with_request_id uuid req w =
     (let inbound = header_get req ''X-Request-Id'';
          requestID = (if maxInboundRequestIDLength < length inbound \<or>
                          \<not> matches inboundRequestIDPattern inbound then uuid else inbound)
      in (requestID, set_header ''X-Request-Id'' requestID w))"

record access_line =
  al_request_id :: string
  al_method :: string
  al_path :: string
  al_status :: int

definition skips_access_log :: "string \<Rightarrow> bool" where
  "skips_access_log path = (path = ''/api/events'' \<or> has_prefix path ''/api/watch/'')"

text \<open>The line of a finished request, with the status its recorder holds.\<close>

definition with_access_log :: "string \<Rightarrow> request \<Rightarrow> 'p writer \<Rightarrow> access_line option" where
  "with_access_log requestID req w =
     (if skips_access_log (r_path req) then None
      else Some \<lparr>al_request_id = requestID, al_method = r_method req, al_path = r_path req,
             al_status = w_recorded w\<rparr>)"

section \<open>metrics.go\<close>

definition pathSSEEvents :: string where "pathSSEEvents = ''/api/events''"
definition pathMetrics :: string where "pathMetrics = ''/metrics''"
definition pathWatchPrefix :: string where "pathWatchPrefix = ''/api/watch/''"
definition pathLogsPrefix :: string where "pathLogsPrefix = ''/api/logs/''"

definition skips_metrics :: "string \<Rightarrow> bool" where
  "skips_metrics path =
     (path = pathSSEEvents \<or> path = pathMetrics \<or> has_prefix path pathWatchPrefix \<or>
      has_prefix path pathLogsPrefix)"

record path_pattern =
  pp_prefix :: string
  pp_suffix :: string
  pp_contains :: string
  pp_label :: string

definition pathPatterns :: "path_pattern list" where
  "pathPatterns =
     [\<lparr>pp_prefix = ''/fragments/'', pp_suffix = '''', pp_contains = '''', pp_label = ''/fragments/*''\<rparr>,
      \<lparr>pp_prefix = ''/static/'', pp_suffix = '''', pp_contains = '''', pp_label = ''/static/*''\<rparr>,
      \<lparr>pp_prefix = ''/auth/'', pp_suffix = '''', pp_contains = '''', pp_label = ''''\<rparr>,
      \<lparr>pp_prefix = ''/tenants/'', pp_suffix = '''', pp_contains = ''/apps/'', pp_label = ''/tenants/:ns/apps/:name''\<rparr>,
      \<lparr>pp_prefix = ''/tenants/'', pp_suffix = ''/apps'', pp_contains = '''', pp_label = ''/tenants/:ns/apps''\<rparr>,
      \<lparr>pp_prefix = ''/tenants/'', pp_suffix = '''', pp_contains = '''', pp_label = ''/tenants/:ns''\<rparr>,
      \<lparr>pp_prefix = ''/api/tenants/'', pp_suffix = '''', pp_contains = ''/apps/'', pp_label = ''/api/tenants/:ns/apps/:name''\<rparr>,
      \<lparr>pp_prefix = ''/api/tenants/'', pp_suffix = ''/apps'', pp_contains = '''', pp_label = ''/api/tenants/:ns/apps''\<rparr>,
      \<lparr>pp_prefix = ''/api/tenants/'', pp_suffix = '''', pp_contains = '''', pp_label = ''/api/tenants/:ns''\<rparr>,
      \<lparr>pp_prefix = ''/api/schemas/'', pp_suffix = '''', pp_contains = '''', pp_label = ''/api/schemas/:kind''\<rparr>]"

definition exactPaths :: "(string, string) gomap" where
  "exactPaths =
     [('''', ''/''), (''/'', ''/''), (''/marketplace'', ''/marketplace''), (''/profile'', ''/profile''),
      (''/tenants'', ''/tenants''), (''/healthz'', ''/healthz''), (''/readyz'', ''/readyz'')]"

definition pattern_applies :: "string \<Rightarrow> path_pattern \<Rightarrow> bool" where
  "pattern_applies p pat =
     (pp_prefix pat \<noteq> ''/auth/'' \<and> has_prefix p (pp_prefix pat) \<and>
      (pp_contains pat = '''' \<or> contains p (pp_contains pat)) \<and>
      (pp_suffix pat = '''' \<or> has_suffix p (pp_suffix pat)))"

definition match_path_pattern :: "string \<Rightarrow> string" where
  "match_path_pattern p =
     (case find (pattern_applies p) pathPatterns of None \<Rightarrow> '''' | Some pat \<Rightarrow> pp_label pat)"

definition normalise_path :: "string \<Rightarrow> string" where
  "normalise_path p =
     (case map_of exactPaths p of
        Some label \<Rightarrow> label
      | None \<Rightarrow>
          if has_prefix p ''/auth/'' then p
          else if match_path_pattern p \<noteq> '''' then match_path_pattern p
          else if has_prefix p ''/api/'' then p
          else ''other'')"

text \<open>The labels of the request counter: method, path, status.\<close>

definition with_metrics :: "request \<Rightarrow> 'p writer \<Rightarrow> (string \<times> string \<times> int) option" where
  "with_metrics req w =
     (if skips_metrics (r_path req) then None
      else Some (r_method req, normalise_path (r_path req), w_recorded w))"

section \<open>router.go: headers and timeout\<close>

text \<open>In nanoseconds.\<close>

definition requestTimeout :: int where "requestTimeout = 15 * 10 ^ 9"

definition contentSecurityPolicy :: string where
  "contentSecurityPolicy =
     ''default-src 'self'; '' @ ''script-src 'self'; '' @ ''style-src 'self' 'unsafe-inline'; '' @
     ''font-src 'self'; '' @ ''img-src 'self' data:; '' @ ''connect-src 'self'; '' @
     ''object-src 'none'; '' @ ''frame-src 'none'; '' @ ''frame-ancestors 'none'; '' @
     ''base-uri 'self'; '' @ ''form-action 'self'' @ [CHR 0x27]"

definition strictTransportSecurity :: string where
  "strictTransportSecurity = ''max-age=63072000; includeSubDomains; preload''"

definition with_security_headers :: "'p writer \<Rightarrow> 'p writer" where
  "with_security_headers w =
     set_header ''Permissions-Policy'' ''geolocation=(), microphone=(), camera=()''
       (set_header ''Referrer-Policy'' ''same-origin''
         (set_header ''X-Permitted-Cross-Domain-Policies'' ''none''
           (set_header ''X-Frame-Options'' ''DENY''
             (set_header ''X-Content-Type-Options'' ''nosniff''
               (set_header ''Strict-Transport-Security'' strictTransportSecurity
                 (set_header ''Content-Security-Policy'' contentSecurityPolicy w))))))"

text \<open>The deadline a request gets, if any.\<close>

definition with_request_timeout :: "request \<Rightarrow> int option" where
  "with_request_timeout req =
     (if has_prefix (r_path req) ''/api/events'' \<or> has_prefix (r_path req) ''/api/watch/'' \<or>
         has_prefix (r_path req) ''/api/logs/'' then None else Some requestTimeout)"

section \<open>router.go: the routes\<close>

text \<open>One constructor per handler the router registers.\<close>

datatype public_endpoint =
    HandleLogin | HandleCallback
  | HandleKubeconfigUploadForm | HandleKubeconfigUpload
  | HandleTokenUploadForm | HandleTokenUpload
  | HandleLogout | HealthHandler | MetricsHandler | StaticFiles

datatype endpoint =
    Dashboard | OverviewPage | MarketplacePage | MarketplaceLaunchPage | ProfilePage | TenantsPage
  | CreateTenant | UpdateTenant | DeleteTenant | TenantPage | AppDetailPage
  | CreateApp | UpdateApp | DeleteApp | InvokeAction
  | AppTableFragment | MarketplaceFragment | SchemaFieldsFragment | AppFormYAMLFragment
  | AppFormYAMLToFormFragment | TenantEditFragment | AppEditFragment | SecretRevealFragment
  | SetLanguage | NotFoundPage
  | TenantList | TenantGet | TenantCreate | TenantDelete
  | AppList | AppGet | AppCreate | AppUpdate | AppDelete
  | SchemaList | SchemaGet | SSEStream | WatchStream | PaletteIndex | LogStream

record router_config =
  rc_auth_mode :: auth_mode
  rc_dev_username :: string
  rc_trust_forwarded :: bool
  rc_has_auth_handler :: bool
  rc_has_watch :: bool
  rc_has_palette :: bool
  rc_has_logs :: bool

definition page_routes :: "endpoint mux" where
  "page_routes =
     [(''GET'', [SEnd], Dashboard),
      (''GET'', [SLit ''overview''], OverviewPage),
      (''GET'', [SLit ''marketplace''], MarketplacePage),
      (''GET'', [SLit ''marketplace'', SLit ''launch''], MarketplaceLaunchPage),
      (''GET'', [SLit ''profile''], ProfilePage),
      (''GET'', [SLit ''tenants''], TenantsPage),
      (''POST'', [SLit ''tenants''], CreateTenant),
      (''PUT'', [SLit ''tenants'', SWild ''name''], UpdateTenant),
      (''DELETE'', [SLit ''tenants'', SWild ''name''], DeleteTenant),
      (''GET'', [SLit ''tenants'', SWild ''tenant''], TenantPage),
      (''GET'', [SLit ''tenants'', SWild ''tenant'', SLit ''apps'', SWild ''name''], AppDetailPage),
      (''POST'', [SLit ''tenants'', SWild ''tenant'', SLit ''apps''], CreateApp),
      (''PUT'', [SLit ''tenants'', SWild ''tenant'', SLit ''apps'', SWild ''name''], UpdateApp),
      (''DELETE'', [SLit ''tenants'', SWild ''tenant'', SLit ''apps'', SWild ''name''], DeleteApp),
      (''POST'', [SLit ''tenants'', SWild ''tenant'', SLit ''apps'', SWild ''name'', SLit ''actions'',
          SWild ''action''], InvokeAction),
      (''GET'', [SLit ''fragments'', SLit ''app-table''], AppTableFragment),
      (''GET'', [SLit ''fragments'', SLit ''marketplace''], MarketplaceFragment),
      (''GET'', [SLit ''fragments'', SLit ''schema-fields''], SchemaFieldsFragment),
      (''POST'', [SLit ''fragments'', SLit ''app-yaml''], AppFormYAMLFragment),
      (''POST'', [SLit ''fragments'', SLit ''app-yaml-to-form''], AppFormYAMLToFormFragment),
      (''GET'', [SLit ''fragments'', SLit ''tenant-edit''], TenantEditFragment),
      (''GET'', [SLit ''fragments'', SLit ''app-edit''], AppEditFragment),
      (''GET'', [SLit ''fragments'', SLit ''secrets'', SLit ''reveal''], SecretRevealFragment),
      (''POST'', [SLit ''lang''], SetLanguage),
      (''GET'', [SRest], NotFoundPage)]"

definition api_routes :: "router_config \<Rightarrow> endpoint mux" where
  "api_routes cfg =
     [(''GET'', [SLit ''api'', SLit ''tenants''], TenantList),
      (''GET'', [SLit ''api'', SLit ''tenants'', SWild ''name''], TenantGet),
      (''POST'', [SLit ''api'', SLit ''tenants''], TenantCreate),
      (''DELETE'', [SLit ''api'', SLit ''tenants'', SWild ''name''], TenantDelete),
      (''GET'', [SLit ''api'', SLit ''tenants'', SWild ''tenant'', SLit ''apps''], AppList),
      (''GET'', [SLit ''api'', SLit ''tenants'', SWild ''tenant'', SLit ''apps'', SWild ''name''], AppGet),
      (''POST'', [SLit ''api'', SLit ''tenants'', SWild ''tenant'', SLit ''apps''], AppCreate),
      (''PUT'', [SLit ''api'', SLit ''tenants'', SWild ''tenant'', SLit ''apps'', SWild ''name''], AppUpdate),
      (''DELETE'', [SLit ''api'', SLit ''tenants'', SWild ''tenant'', SLit ''apps'', SWild ''name''], AppDelete),
      (''GET'', [SLit ''api'', SLit ''schemas''], SchemaList),
      (''GET'', [SLit ''api'', SLit ''schemas'', SWild ''kind''], SchemaGet),
      (''GET'', [SLit ''api'', SLit ''events''], SSEStream)]
     @ (if rc_has_watch cfg then [(''GET'', [SLit ''api'', SLit ''watch'', SWild ''resource''], WatchStream)] else [])
     @ (if rc_has_palette cfg then [(''GET'', [SLit ''api'', SLit ''palette-index''], PaletteIndex)] else [])
     @ (if rc_has_logs cfg then [(''GET'', [SLit ''api'', SLit ''logs'', SLit ''stream''], LogStream)] else [])"

text \<open>What a pattern of the outer mux leads to.\<close>

datatype target = ToPublic public_endpoint | ToLimited public_endpoint | ToApi | ToPages

definition auth_routes :: "router_config \<Rightarrow> target mux" where
  "auth_routes cfg =
     (let mode = rc_auth_mode cfg in
      if mode = AuthModeDev then []
      else
        (if mode = AuthModePassthrough \<or> mode = AuthModeImpersonationLegacy then
           [(''GET'', [SLit ''auth'', SLit ''login''], ToPublic HandleLogin),
            (''GET'', [SLit ''auth'', SLit ''callback''], ToPublic HandleCallback)] else [])
        @ (if mode = AuthModeBYOK \<and> rc_has_auth_handler cfg then
             [(''GET'', [SLit ''auth'', SLit ''kubeconfig''], ToPublic HandleKubeconfigUploadForm),
              (''POST'', [SLit ''auth'', SLit ''kubeconfig''], ToLimited HandleKubeconfigUpload)] else [])
        @ (if mode = AuthModeToken \<and> rc_has_auth_handler cfg then
             [(''GET'', [SLit ''auth'', SLit ''token''], ToPublic HandleTokenUploadForm),
              (''POST'', [SLit ''auth'', SLit ''token''], ToLimited HandleTokenUpload)] else [])
        @ (if rc_has_auth_handler cfg then
             [(''POST'', [SLit ''auth'', SLit ''logout''], ToPublic HandleLogout)] else []))"

definition outer_routes :: "router_config \<Rightarrow> target mux" where
  "outer_routes cfg =
     auth_routes cfg @
     [(''GET'', [SLit ''healthz''], ToPublic HealthHandler),
      (''GET'', [SLit ''readyz''], ToPublic HealthHandler),
      (''GET'', [SLit ''metrics''], ToPublic MetricsHandler),
      (''GET'', [SLit ''static'', SRest], ToPublic StaticFiles),
      (''GET'', [SLit ''api'', SRest], ToApi),
      (''POST'', [SLit ''api'', SRest], ToApi),
      (''PUT'', [SLit ''api'', SRest], ToApi),
      (''DELETE'', [SLit ''api'', SRest], ToApi),
      (''GET'', [SRest], ToPages),
      (''POST'', [SRest], ToPages),
      (''PUT'', [SRest], ToPages),
      (''DELETE'', [SRest], ToPages)]"

section \<open>router.go: a request through the chain\<close>

text \<open>
  The libraries and stores a request meets: the token bucket, the \<open>exp\<close> decoder, the cookie
  store and the OIDC provider.
\<close>

record 'l router_env =
  re_limiter :: "'l limiter_lib"
  re_json_exp :: "string \<Rightarrow> int res"
  re_store :: cookie_store
  re_oidc :: "oidc_provider option"

datatype called = CallPublic public_endpoint | CallHandler endpoint binds ctx

record ('l, 'p) routed_out =
  ro_request_id :: string
  ro_writer :: "'p writer"
  ro_cookies :: "session list"
  ro_rates :: "'l rate_limit_store"
  ro_deadline :: "int option"
  ro_call :: "called option"

text \<open>\<open>protect\<close>: authentication, then the rate limiter, then the inner mux.\<close>

definition authenticate :: "'l router_env \<Rightarrow> router_config \<Rightarrow> int \<Rightarrow> request \<Rightarrow> 'p writer \<Rightarrow> 'p auth_out" where
  "authenticate env cfg now req w =
     (if rc_auth_mode cfg = AuthModeDev then dev_auth (rc_dev_username cfg) empty_ctx w
      else require_auth (re_json_exp env) now (re_store env) (re_oidc env) (rc_auth_mode cfg) req empty_ctx w)"

definition protect ::
  "'l router_env \<Rightarrow> router_config \<Rightarrow> int \<Rightarrow> endpoint mux \<Rightarrow> request \<Rightarrow> 'p writer \<Rightarrow> 'l rate_limit_store \<Rightarrow>
     'p writer \<times> session list \<times> 'l rate_limit_store \<times> called option" where
  "protect env cfg now inner req w rates =
     (let auth = authenticate env cfg now req w in
      case ao_next auth of
        None \<Rightarrow> (ao_writer auth, ao_cookies auth, rates, None)
      | Some c \<Rightarrow>
          (case with_rate_limit (re_limiter env) now c (ao_writer auth) rates of
             (rates', w', allowed) \<Rightarrow>
               if \<not> allowed then (w', ao_cookies auth, rates', None)
               else (case mux_match inner (r_method req) (r_path req) of
                   RtFound h b \<Rightarrow> (w', ao_cookies auth, rates', Some (CallHandler h b c))
                 | r \<Rightarrow> (mux_fallback r w', ao_cookies auth, rates', None))))"

definition dispatch ::
  "'l router_env \<Rightarrow> router_config \<Rightarrow> int \<Rightarrow> request \<Rightarrow> 'p writer \<Rightarrow> 'l rate_limit_store \<Rightarrow>
     'p writer \<times> session list \<times> 'l rate_limit_store \<times> called option" where
  "dispatch env cfg now req w rates =
     (case mux_match (outer_routes cfg) (r_method req) (r_path req) of
        RtFound (ToPublic e) b \<Rightarrow> (w, [], rates, Some (CallPublic e))
      | RtFound (ToLimited e) b \<Rightarrow>
          (case with_ip_rate_limit (re_limiter env) now (rc_trust_forwarded cfg) req w rates of
             (rates', w', allowed) \<Rightarrow> (w', [], rates', if allowed then Some (CallPublic e) else None))
      | RtFound ToApi b \<Rightarrow> protect env cfg now (api_routes cfg) req w rates
      | RtFound ToPages b \<Rightarrow> protect env cfg now page_routes req w rates
      | r \<Rightarrow> (mux_fallback r w, [], rates, None))"

definition route ::
  "'l router_env \<Rightarrow> router_config \<Rightarrow> int \<Rightarrow> string \<Rightarrow> request \<Rightarrow> 'l rate_limit_store \<Rightarrow> ('l, 'p) routed_out" where
  "route env cfg now uuid req rates =
     (case with_request_id uuid req new_writer of
        (requestID, w) \<Rightarrow>
          (case dispatch env cfg now req (with_security_headers w) rates of
             (w', cookies, rates', call) \<Rightarrow>
               \<lparr>ro_request_id = requestID, ro_writer = w', ro_cookies = cookies, ro_rates = rates',
                ro_deadline = with_request_timeout req, ro_call = call\<rparr>))"

section \<open>Lemmas\<close>

text \<open>Headers the answers of the chain itself may change; every other header stays.\<close>

definition answer_headers :: "string set" where
  "answer_headers = {''Content-Type'', ''Location'', ''Retry-After'', ''Hx-Reswap''}"

definition keeps_headers :: "'p writer \<Rightarrow> 'p writer \<Rightarrow> bool" where
  "keeps_headers w w' \<longleftrightarrow>
     (\<forall>k v. k \<notin> answer_headers \<longrightarrow> (k = ''X-Content-Type-Options'' \<longrightarrow> v = ''nosniff'') \<longrightarrow>
        sent_header w k = Some v \<longrightarrow> sent_header w' k = Some v)"

lemma keeps_headers_refl [simp]: "keeps_headers w w"
  by (simp add: keeps_headers_def)

lemma keeps_headers_trans: "keeps_headers w w' \<Longrightarrow> keeps_headers w' w'' \<Longrightarrow> keeps_headers w w''"
  unfolding keeps_headers_def by blast

lemma keeps_headers_answers [simp]:
  "k \<in> answer_headers \<Longrightarrow> keeps_headers w (set_header k v w)"
  "keeps_headers w (http_error m c w)" "keeps_headers w (http_redirect u c w)"
  by (auto simp: keeps_headers_def answer_headers_def sent_header_def http_error_def http_redirect_def)

lemma keeps_headers_fallback [simp]: "keeps_headers w (mux_fallback r w)"
  by (simp add: mux_fallback_def split: routed.split)

lemma keeps_headers_reply [simp]:
  "keeps_headers w (ao_writer (reply_error m c w cs))" "keeps_headers w (ao_writer (reply_redirect u c w cs))"
  "keeps_headers w (ao_writer (clear_and_redirect st req w s))"
  by (simp_all add: reply_error_def reply_redirect_def clear_and_redirect_def Let_def)

lemma keeps_headers_refresh:
  "refresh_if_needed je now st oidc req w s info = Inl (out, e) \<Longrightarrow> keeps_headers w (ao_writer out)"
  by (auto simp: refresh_if_needed_def split: if_splits option.splits sum.splits)

lemma keeps_headers_authenticate: "keeps_headers w (ao_writer (authenticate env cfg now req w))"
  by (auto simp: authenticate_def dev_auth_def require_auth_def serve_byok_def serve_token_def serve_oidc_def
      Let_def keeps_headers_refresh split: sum.splits option.splits prod.splits)

lemma keeps_headers_too_many [simp]:
  "keeps_headers w (too_many (set_header ''Retry-After'' v w))"
  "keeps_headers w (too_many (set_header ''Hx-Reswap'' x (set_header ''Retry-After'' v w)))"
  by (simp_all add: keeps_headers_def answer_headers_def sent_header_def too_many_def http_error_def)

lemma keeps_headers_limit:
  "keeps_headers w (fst (snd (with_rate_limit lib now c w st)))"
  "keeps_headers w (fst (snd (with_ip_rate_limit lib now trust req w st)))"
  by (simp_all add: with_rate_limit_def with_ip_rate_limit_def split: option.split prod.split)

lemma keeps_headers_protect: "keeps_headers w (fst (protect env cfg now inner req w rates))"
proof (cases "ao_next (authenticate env cfg now req w)")
  case None
  then show ?thesis by (simp add: protect_def Let_def keeps_headers_authenticate)
next
  case (Some c)
  obtain st w' ok where lim: "with_rate_limit (re_limiter env) now c (ao_writer (authenticate env cfg now req w)) rates = (st, w', ok)"
    by (metis prod_cases3)
  have "keeps_headers w w'"
    using keeps_headers_trans [OF keeps_headers_authenticate keeps_headers_limit(1)] lim by (metis fst_conv snd_conv)
  then have "keeps_headers w w'" "keeps_headers w (mux_fallback r w')" for r :: "endpoint routed"
    using keeps_headers_trans [OF _ keeps_headers_fallback] by blast+
  with Some lim show ?thesis by (simp add: protect_def Let_def split: routed.split)
qed

lemma keeps_headers_dispatch: "keeps_headers w (fst (dispatch env cfg now req w rates))"
  using keeps_headers_limit(2) [of w "re_limiter env" now "rc_trust_forwarded cfg" req rates]
  by (auto simp: dispatch_def keeps_headers_protect split: routed.split target.split prod.split)

lemma require_auth_user: "ao_next (require_auth je now st oidc mode req c w) = Some c' \<Longrightarrow> \<exists>u. user_from_context c' = Some u"
  by (auto simp: require_auth_def serve_byok_def serve_token_def serve_oidc_def Let_def user_from_context_def
      reply_error_def reply_redirect_def context_with_user_def context_with_auth_mode_def clear_and_redirect_def
      split: sum.splits option.splits if_splits prod.splits dest!: refresh_if_needed_Inl)

lemma protect_called:
  assumes "snd (snd (snd (protect env cfg now inner req w rates))) = Some call"
  shows "\<exists>h b c. call = CallHandler h b c \<and> mux_match inner (r_method req) (r_path req) = RtFound h b \<and>
    ao_next (authenticate env cfg now req w) = Some c \<and>
    (\<forall>u. user_from_context c = Some u \<longrightarrow> snd (rl_allow (re_limiter env) now (uc_username u) rates))"
  using assms
  by (auto simp: protect_def Let_def with_rate_limit_def split: option.splits prod.splits if_splits routed.splits)

text \<open>The handlers that need no identity, by mode.\<close>

definition public_endpoints :: "auth_mode \<Rightarrow> public_endpoint set" where
  "public_endpoints mode =
     {HealthHandler, MetricsHandler, StaticFiles}
     \<union> (if mode = AuthModeDev then {} else {HandleLogout})
     \<union> (if mode = AuthModePassthrough \<or> mode = AuthModeImpersonationLegacy then {HandleLogin, HandleCallback} else {})
     \<union> (if mode = AuthModeBYOK then {HandleKubeconfigUploadForm, HandleKubeconfigUpload} else {})
     \<union> (if mode = AuthModeToken then {HandleTokenUploadForm, HandleTokenUpload} else {})"

lemma outer_targets:
  assumes "mux_match (outer_routes cfg) m p = RtFound h b"
  shows "h \<in> {ToApi, ToPages} \<union> ToPublic ` public_endpoints (rc_auth_mode cfg)
      \<union> ToLimited ` (public_endpoints (rc_auth_mode cfg) \<inter> {HandleKubeconfigUpload, HandleTokenUpload})"
    "h \<noteq> ToPublic HandleKubeconfigUpload \<and> h \<noteq> ToPublic HandleTokenUpload"
  using mux_match_sound [OF assms]
  by (auto simp: outer_routes_def auth_routes_def public_endpoints_def Let_def split: if_splits)

text \<open>The writer a request enters the outer mux with.\<close>

definition entry_writer :: "string \<Rightarrow> request \<Rightarrow> 'p writer" where
  "entry_writer uuid req = with_security_headers (snd (with_request_id uuid req new_writer))"

lemma route_sel:
  "ro_request_id (route env cfg now uuid req rates :: ('l, 'p) routed_out) =
     fst (with_request_id uuid req (new_writer :: 'p writer))"
  "ro_writer (route env cfg now uuid req rates :: ('l, 'p) routed_out) =
     fst (dispatch env cfg now req (entry_writer uuid req) rates)"
  "ro_call (route env cfg now uuid req rates :: ('l, 'p) routed_out) =
     snd (snd (snd (dispatch env cfg now req (entry_writer uuid req :: 'p writer) rates)))"
  by (simp_all add: route_def entry_writer_def split: prod.split)

lemma dispatch_called:
  assumes "snd (snd (snd (dispatch env cfg now req w rates))) = Some call"
  obtains (public) e where "call = CallPublic e" "e \<in> public_endpoints (rc_auth_mode cfg)"
      "e \<in> {HandleKubeconfigUpload, HandleTokenUpload} \<longrightarrow>
         snd (rl_allow (re_limiter env) now (''ip:'' @ client_ip req (rc_trust_forwarded cfg)) rates)"
    | (guarded) inner h b c where "call = CallHandler h b c" "inner = page_routes \<or> inner = api_routes cfg"
      "mux_match inner (r_method req) (r_path req) = RtFound h b"
      "ao_next (authenticate env cfg now req w) = Some c"
      "\<forall>u. user_from_context c = Some u \<longrightarrow> snd (rl_allow (re_limiter env) now (uc_username u) rates)"
proof -
  obtain t b where t: "mux_match (outer_routes cfg) (r_method req) (r_path req) = RtFound t b"
    using assms by (auto simp: dispatch_def split: routed.splits)
  note targets = outer_targets [OF t]
  have prot: thesis if "snd (snd (snd (protect env cfg now inner req w rates))) = Some call"
    "inner = page_routes \<or> inner = api_routes cfg" for inner
    using protect_called [OF that(1)] that(2) guarded by blast
  show thesis
  proof (cases t)
    case (ToPublic e)
    with t assms targets show ?thesis by (intro public [of e]) (auto simp: dispatch_def)
  next
    case (ToLimited e)
    with t assms targets show ?thesis
      by (intro public [of e]) (auto simp: dispatch_def with_ip_rate_limit_def split: prod.splits if_splits)
  qed (use t assms prot in \<open>auto simp: dispatch_def\<close>)
qed

section \<open>Properties\<close>


definition sample_router_env :: "int router_env" where
  "sample_router_env = \<lparr>re_limiter = sample_bucket, re_json_exp = (\<lambda>_. Inr 0),
     re_store = sample_store sample_session, re_oidc = None\<rparr>"

definition sample_router_config :: router_config where
  "sample_router_config = \<lparr>rc_auth_mode = AuthModeToken, rc_dev_username = '''', rc_trust_forwarded = False,
     rc_has_auth_handler = True, rc_has_watch = True, rc_has_palette = True, rc_has_logs = True\<rparr>"

lemma sample_routed:
  "ro_call (route sample_router_env sample_router_config 0 ''u'' (blank_request\<lparr>r_path := ''/api/tenants''\<rparr>)
     new_rate_limit_store :: (int, string) routed_out) =
   Some (CallHandler TenantList [] \<lparr>cx_user = Some \<lparr>uc_username = ''token-user'', uc_groups = [],
     uc_id_token = '''', uc_kubeconfig = '''', uc_bearer_token = ''abc''\<rparr>, cx_mode = AuthModeToken\<rparr>)"
  by code_simp


text \<open>
  Every answer carries the security headers. Whatever a request is, and whoever answers it,
  a redirect, a 401, a 404, a 405 or a 429 of the chain as well as the writer that is handed to
  the handler, the seven headers are set to their fixed values.
\<close>

theorem security_headers_everywhere:
  "list_all (\<lambda>(k, v). sent_header (ro_writer (route env cfg now uuid req rates :: ('l, 'p) routed_out)) k = Some v)
     [(''Content-Security-Policy'', contentSecurityPolicy),
      (''Strict-Transport-Security'', strictTransportSecurity),
      (''X-Content-Type-Options'', ''nosniff''), (''X-Frame-Options'', ''DENY''),
      (''X-Permitted-Cross-Domain-Policies'', ''none''), (''Referrer-Policy'', ''same-origin''),
      (''Permissions-Policy'', ''geolocation=(), microphone=(), camera=()'')]"
proof -
  define w where "w = with_security_headers (snd (with_request_id uuid req (new_writer :: 'p writer)))"
  define w' where "w' = ro_writer (route env cfg now uuid req rates :: ('l, 'p) routed_out)"
  have "w' = fst (dispatch env cfg now req w rates)"
    by (auto simp: route_def w_def w'_def split: prod.splits)
  then have "keeps_headers w w'"
    by (simp add: keeps_headers_dispatch)
  then have keep: "sent_header w' k = Some v"
    if "sent_header w k = Some v" "k \<notin> answer_headers" "k = ''X-Content-Type-Options'' \<longrightarrow> v = ''nosniff''" for k v
    using that unfolding keeps_headers_def by blast
  show ?thesis
    unfolding list.pred_inject prod.case w'_def [symmetric]
    by (intro conjI TrueI keep)
      (simp_all add: answer_headers_def w_def with_security_headers_def sent_header_def)
qed

text \<open>
  Correlation ids are safe to log. The id of a request consists of at most 64 letters, digits,
  hyphens and underscores, provided the generator's ids do; it is the one the client sent when
  that has this form; it is echoed in the response and it is the one of the access log line.
\<close>

theorem request_id_is_safe:
  assumes "matches inboundRequestIDPattern uuid"
    and "r = (route env cfg now uuid req rates :: ('l, 'p) routed_out)"
  shows "ro_request_id r \<noteq> '''' \<and> length (ro_request_id r) \<le> 64 \<and>
    (\<forall>c\<in>set (ro_request_id r). alnum c \<or> c = CHR ''_'' \<or> c = CHR ''-'') \<and>
    (matches inboundRequestIDPattern (header_get req ''X-Request-Id'') \<longrightarrow>
       ro_request_id r = header_get req ''X-Request-Id'') \<and>
    sent_header (ro_writer r) ''X-Request-Id'' = Some (ro_request_id r) \<and>
    (\<forall>w line. with_access_log (ro_request_id r) req (w :: 'p writer) = Some line \<longrightarrow>
       al_request_id line = ro_request_id r)"
proof -
  define w where "w = with_security_headers (snd (with_request_id uuid req (new_writer :: 'p writer)))"
  have len: "length s \<le> 64" if "matches inboundRequestIDPattern s" for s
    using that by (simp add: inboundRequestIDPattern_def one_to_iff)
  have id: "ro_request_id r = fst (with_request_id uuid req (new_writer :: 'p writer))"
    and wr: "ro_writer r = fst (dispatch env cfg now req w rates)"
    using assms(2) by (auto simp: route_def w_def split: prod.splits)
  have m: "matches inboundRequestIDPattern (ro_request_id r)"
    using assms(1) by (simp add: id with_request_id_def Let_def)
  have "sent_header w ''X-Request-Id'' = Some (ro_request_id r)"
    by (simp add: w_def id with_security_headers_def with_request_id_def Let_def sent_header_def)
  then have "sent_header (ro_writer r) ''X-Request-Id'' = Some (ro_request_id r)"
    using keeps_headers_dispatch [of w env cfg now req rates] unfolding wr keeps_headers_def
    by (simp add: answer_headers_def)
  moreover have "matches inboundRequestIDPattern (header_get req ''X-Request-Id'') \<Longrightarrow>
      ro_request_id r = header_get req ''X-Request-Id''"
    using len [of "header_get req ''X-Request-Id''"]
    by (simp add: id with_request_id_def Let_def maxInboundRequestIDLength_def)
  moreover have "with_access_log (ro_request_id r) req w' = Some line \<Longrightarrow> al_request_id line = ro_request_id r"
    for w' :: "'p writer" and line
    by (auto simp: with_access_log_def split: if_splits)
  ultimately show ?thesis
    using m by (simp add: inboundRequestIDPattern_def one_to_iff)
qed

theorem request_id_is_safe_witness:
  "sent_header (ro_writer (route sample_router_env sample_router_config 0 ''u-1'' blank_request
     new_rate_limit_store :: (int, string) routed_out)) ''X-Request-Id'' =
   Some (ro_request_id (route sample_router_env sample_router_config 0 ''u-1'' blank_request
     new_rate_limit_store :: (int, string) routed_out))"
proof -
  have "matches inboundRequestIDPattern ''u-1''"
    unfolding inboundRequestIDPattern_def by (subst one_to_iff) (auto simp: char_class_defs less_eq_char_def)
  from request_id_is_safe [OF this refl] show ?thesis by blast
qed

text \<open>The labels that do not depend on the path.\<close>

definition fixed_labels :: "string set" where
  "fixed_labels =
     {''/'', ''/marketplace'', ''/profile'', ''/tenants'', ''/healthz'', ''/readyz'', ''/fragments/*'', ''/static/*'',
      ''/tenants/:ns/apps/:name'', ''/tenants/:ns/apps'', ''/tenants/:ns'', ''/api/tenants/:ns/apps/:name'',
      ''/api/tenants/:ns/apps'', ''/api/tenants/:ns'', ''/api/schemas/:kind'', ''other''}"

text \<open>
  Metric labels stay bounded. Outside \<open>/auth/\<close> and \<open>/api/\<close> a label is one of a fixed set of
  sixteen; whatever names of tenants, applications or kinds a path contains, also under
  \<open>/api/tenants/\<close> and \<open>/api/schemas/\<close>, its label does not depend on them. The remaining paths
  under \<open>/auth/\<close> and \<open>/api/\<close> are their own labels.
\<close>

theorem metric_labels_bounded:
  "(normalise_path p \<in> fixed_labels \<or> normalise_path p = p \<and> (has_prefix p ''/auth/'' \<or> has_prefix p ''/api/'')) \<and>
   normalise_path (''/tenants/'' @ t @ ''/apps/'' @ n) = ''/tenants/:ns/apps/:name'' \<and>
   normalise_path (''/api/tenants/'' @ t @ ''/apps/'' @ n) = ''/api/tenants/:ns/apps/:name'' \<and>
   normalise_path (''/api/schemas/'' @ k) = ''/api/schemas/:kind'' \<and>
   normalise_path (''/fragments/'' @ f) = ''/fragments/*''"
proof (intro conjI)
  have labels: "match_path_pattern p \<in> insert '''' fixed_labels" for p
    by (simp add: match_path_pattern_def pathPatterns_def fixed_labels_def)
  show "normalise_path p \<in> fixed_labels \<or> normalise_path p = p \<and> (has_prefix p ''/auth/'' \<or> has_prefix p ''/api/'')"
  proof (cases "map_of exactPaths p")
    case None
    with labels [of p] show ?thesis by (auto simp: normalise_path_def fixed_labels_def)
  next
    case (Some l)
    then have "l \<in> fixed_labels" by (auto simp: exactPaths_def fixed_labels_def split: if_splits)
    with Some show ?thesis by (simp add: normalise_path_def)
  qed
  have apps: "contains (x @ ''/apps/'' @ n) ''/apps/''" for x n
    unfolding contains_iff by blast
  show "normalise_path (''/tenants/'' @ t @ ''/apps/'' @ n) = ''/tenants/:ns/apps/:name''"
    using apps [of "''/tenants/'' @ t" n]
    by (simp add: normalise_path_def exactPaths_def match_path_pattern_def pathPatterns_def pattern_applies_def
        has_prefix_def del: contains.simps)
  show "normalise_path (''/api/tenants/'' @ t @ ''/apps/'' @ n) = ''/api/tenants/:ns/apps/:name''"
    using apps [of "''/api/tenants/'' @ t" n]
    by (simp add: normalise_path_def exactPaths_def match_path_pattern_def pathPatterns_def pattern_applies_def
        has_prefix_def del: contains.simps)
  show "normalise_path (''/api/schemas/'' @ k) = ''/api/schemas/:kind''"
    "normalise_path (''/fragments/'' @ f) = ''/fragments/*''"
    by (simp_all add: normalise_path_def exactPaths_def match_path_pattern_def pathPatterns_def pattern_applies_def
        has_prefix_def)
qed

text \<open>The labels under \<open>/auth/\<close> are unbounded: distinct paths have distinct labels.\<close>

theorem auth_labels_unbounded: "normalise_path (''/auth/'' @ x) = ''/auth/'' @ x"
  by (simp add: normalise_path_def exactPaths_def has_prefix_def)

lemma outer_find:
  "x \<noteq> '''' \<Longrightarrow> find_method (outer_routes cfg) ''DELETE'' (''api'' # x # xs) = Some (ToApi, [], False)"
  "x \<noteq> '''' \<Longrightarrow> find_method (outer_routes cfg) ''DELETE'' (''tenants'' # x # xs) = Some (ToPages, [], False)"
  by (simp_all add: find_method_def entries_def outer_routes_def auth_routes_def ending_def Let_def)

lemmas page_find = mux_match_plain find_method_def entries_def page_routes_def api_routes_def ending_def plain_seg_def



text \<open>
  The pod log stream has no deadline and is left out of the metrics, but the access log records
  it: its writer reaches the handler wrapped in a recorder that offers no \<open>Hijack\<close>.
\<close>

theorem log_stream_is_recorded:
  "skips_metrics (pathLogsPrefix @ x) \<and>
   with_request_timeout (blank_request\<lparr>r_path := pathLogsPrefix @ x\<rparr>) = None \<and>
   \<not> skips_access_log (pathLogsPrefix @ x)"
  by (simp add: skips_metrics_def skips_access_log_def with_request_timeout_def pathLogsPrefix_def has_prefix_def)

end
