(* ===== verification/Kube_Reads.thy ===== *)
theory Kube_Reads
  imports Tenants
begin

text \<open>
  The read-only services of \<open>internal/k8s\<close>: the events of a namespace or an application
  (\<open>events.go\<close>), the resource usage of tenants (\<open>usage.go\<close>), pod logs (\<open>logs.go\<close>) and the node
  groups of a cluster (\<open>capi.go\<close>). The quantity parser of apimachinery and the REST client that
  reads a log are arguments; the display formats of \<open>usage.go\<close> belong to the views and are not
  modelled.
\<close>

section \<open>events.go\<close>

definition event_gvr :: gvr where "event_gvr = mk_gvr '''' ''v1'' ''events''"

record kube_event =
  ke_name :: string
  ke_type :: string
  ke_reason :: string
  ke_message :: string
  ke_source :: string
  ke_object :: string
  ke_count :: int
  ke_first_seen :: int
  ke_last_seen :: int

text \<open>Times are on the scale of \<open>time.Parse\<close>; \<open>zero_time_unix\<close> is the zero time.\<close>

definition parse_event_time :: "'w kenv \<Rightarrow> string \<Rightarrow> int" where
  "parse_event_time E raw =
     (if raw = '''' then zero_time_unix
      else case ke_parse_time E raw of None \<Rightarrow> zero_time_unix | Some t \<Rightarrow> t)"

definition pick_event_last_seen :: "'w kenv \<Rightarrow> jobj \<Rightarrow> int" where
  "pick_event_last_seen E obj =
     (let t = parse_event_time E (nested_string (ke_unstr E) obj [''lastTimestamp'']) in
      if t \<noteq> zero_time_unix then t
      else parse_event_time E (nested_string (ke_unstr E) obj [''eventTime'']))"

definition event_object_ref :: "unstr \<Rightarrow> jobj \<Rightarrow> string" where
  "event_object_ref U obj =
     (let kind = nested_string U obj [''involvedObject'', ''kind''];
          name = nested_string U obj [''involvedObject'', ''name'']
      in if kind \<noteq> '''' \<and> name \<noteq> '''' then kind @ ''/'' @ name else '''')"

definition event_source :: "unstr \<Rightarrow> jobj \<Rightarrow> string" where
  "event_source U obj =
     (let comp = nested_string U obj [''source'', ''component''];
          host = nested_string U obj [''source'', ''host'']
      in if comp \<noteq> '''' \<and> host \<noteq> '''' then comp @ '' on '' @ host
         else if comp \<noteq> '''' then comp else if host \<noteq> '''' then host else '''')"

definition int64_or_zero :: "int option \<Rightarrow> int" where
  "int64_or_zero v = (case v of None \<Rightarrow> 0 | Some n \<Rightarrow> n)"

definition to_event :: "'w kenv \<Rightarrow> jobj \<Rightarrow> kube_event" where
  "to_event E obj =
     (let U = ke_unstr E in
      \<lparr>ke_name = u_name U obj, ke_type = nested_string U obj [''type''],
       ke_reason = nested_string U obj [''reason''], ke_message = nested_string U obj [''message''],
       ke_source = event_source U obj, ke_object = event_object_ref U obj,
       ke_count = int64_or_zero (u_int64 U obj [''count'']),
       ke_first_seen = parse_event_time E (nested_string U obj [''firstTimestamp'']),
       ke_last_seen = pick_event_last_seen E obj\<rparr>)"

text \<open>A limit that is not positive does not truncate.\<close>

definition cap :: "int \<Rightarrow> 'a list \<Rightarrow> 'a list" where
  "cap limit xs = (if 0 < limit \<and> limit < int (length xs) then take (nat limit) xs else xs)"

definition to_sorted_events :: "'w kenv \<Rightarrow> jobj list \<Rightarrow> int \<Rightarrow> kube_event list" where
  "to_sorted_events E items limit =
     cap limit (sort_slice (\<lambda>a b. ke_last_seen b < ke_last_seen a) (map (to_event E) items))"

definition name_derived_from_release :: "string \<Rightarrow> string \<Rightarrow> bool" where
  "name_derived_from_release objName release =
     (if release = '''' \<or> objName = '''' then False
      else if objName = release then True
      else if has_prefix objName (release @ ''-'') then True
      else if has_suffix objName (''-'' @ release) then True
      else contains objName (''-'' @ release @ ''-''))"

fun dedupe_loop :: "(string \<times> string) list \<Rightarrow> kube_event list \<Rightarrow> kube_event list" where
  "dedupe_loop seen [] = []"
| "dedupe_loop seen (e # es) =
     (if (ke_object e, ke_reason e) \<in> set seen then dedupe_loop seen es
      else e # dedupe_loop ((ke_object e, ke_reason e) # seen) es)"

definition dedupe_by_object_reason :: "kube_event list \<Rightarrow> int \<Rightarrow> kube_event list" where
  "dedupe_by_object_reason events limit = cap limit (dedupe_loop [] events)"

definition list_events :: "'w kenv \<Rightarrow> user_context \<Rightarrow> string \<Rightarrow> (jobj list \<Rightarrow> 'a) \<Rightarrow> ('w, 'a) kop" where
  "list_events E usr ns f =
     (if ns = '''' then kfail ErrNamespaceRequired
      else with_client E usr (\<lambda>c.
        kthen (k_list c event_gvr ns no_options) (\<lambda>e. Fmt (''listing events in '' @ ns @ '': '') e '''')
          (\<lambda>l. kret (f (kl_items l)))))"

definition list_in_namespace :: "'w kenv \<Rightarrow> user_context \<Rightarrow> string \<Rightarrow> int \<Rightarrow> ('w, kube_event list) kop" where
  "list_in_namespace E usr ns limit = list_events E usr ns (\<lambda>items. to_sorted_events E items limit)"

definition matching_items :: "unstr \<Rightarrow> string \<Rightarrow> jobj list \<Rightarrow> jobj list" where
  "matching_items U name items =
     filter (\<lambda>o'. name_derived_from_release (nested_string U o' [''involvedObject'', ''name'']) name) items"

definition list_for_object ::
  "'w kenv \<Rightarrow> user_context \<Rightarrow> string \<Rightarrow> string \<Rightarrow> int \<Rightarrow> ('w, kube_event list) kop" where
  "list_for_object E usr ns name limit =
     list_events E usr ns (\<lambda>items.
       dedupe_by_object_reason (to_sorted_events E (matching_items (ke_unstr E) name items) 0) limit)"

section \<open>usage.go\<close>

record tenant_usage =
  tu_namespace :: string
  tu_pod_count :: int
  tu_cpu_requests :: int
  tu_mem_requests :: int
  tu_cpu_usage :: int
  tu_mem_usage :: int
  tu_storage :: int
  tu_metrics :: bool

definition no_usage :: "string \<Rightarrow> tenant_usage" where
  "no_usage ns = \<lparr>tu_namespace = ns, tu_pod_count = 0, tu_cpu_requests = 0, tu_mem_requests = 0,
     tu_cpu_usage = 0, tu_mem_usage = 0, tu_storage = 0, tu_metrics = False\<rparr>"

definition pod_gvr :: gvr where "pod_gvr = mk_gvr '''' ''v1'' ''pods''"
definition pvc_gvr :: gvr where "pvc_gvr = mk_gvr '''' ''v1'' ''persistentvolumeclaims''"
definition pod_metrics_gvr :: gvr where "pod_metrics_gvr = mk_gvr ''metrics.k8s.io'' ''v1beta1'' ''pods''"
definition resource_quota_gvr :: gvr where "resource_quota_gvr = mk_gvr '''' ''v1'' ''resourcequotas''"

text \<open>\<open>resource.ParseQuantity\<close> with \<open>Value\<close> and \<open>MilliValue\<close>.\<close>

record quantities =
  q_value :: "string \<Rightarrow> int option"
  q_milli :: "string \<Rightarrow> int option"

text \<open>Sums are \<open>int64\<close>; the division of Go truncates towards zero.\<close>

definition wrap64 :: "int \<Rightarrow> int" where "wrap64 n = signed_take_bit 63 n"

definition go_div :: "int \<Rightarrow> int \<Rightarrow> int" where
  "go_div a b = sgn a * sgn b * (\<bar>a\<bar> div \<bar>b\<bar>)"

definition parse_cpu_to_milli :: "quantities \<Rightarrow> string \<Rightarrow> int" where
  "parse_cpu_to_milli Q v = int64_or_zero (q_milli Q v)"

definition parse_mem_to_mi :: "quantities \<Rightarrow> string \<Rightarrow> int" where
  "parse_mem_to_mi Q v = (case q_value Q v of None \<Rightarrow> 0 | Some b \<Rightarrow> go_div b (1024 * 1024))"

definition pvc_storage_gi :: "unstr \<Rightarrow> quantities \<Rightarrow> jobj \<Rightarrow> int" where
  "pvc_storage_gi U Q obj =
     (case Option.bind (u_string_map U obj [''spec'', ''resources'', ''requests'']) (\<lambda>m. map_of m ''storage'') of
        None \<Rightarrow> 0
      | Some s \<Rightarrow> (case q_value Q s of None \<Rightarrow> 0 | Some b \<Rightarrow> go_div b (1024 * 1024 * 1024)))"

text \<open>The two loops over containers differ in the fields they read.\<close>

definition container_sums :: "unstr \<Rightarrow> quantities \<Rightarrow> string list \<Rightarrow> jval list \<Rightarrow> int \<times> int" where
  "container_sums U Q path raws =
     fold (\<lambda>raw (cpu, mem).
        case as_map raw of
          None \<Rightarrow> (cpu, mem)
        | Some ct \<Rightarrow>
            let m = (case u_string_map U ct path of None \<Rightarrow> [] | Some m \<Rightarrow> m)
            in (case map_of m ''cpu'' of None \<Rightarrow> cpu | Some v \<Rightarrow> wrap64 (cpu + parse_cpu_to_milli Q v),
                case map_of m ''memory'' of None \<Rightarrow> mem | Some v \<Rightarrow> wrap64 (mem + parse_mem_to_mi Q v)))
       raws (0, 0)"

definition sum_pod_requests :: "unstr \<Rightarrow> quantities \<Rightarrow> jobj \<Rightarrow> int \<times> int" where
  "sum_pod_requests U Q pod =
     (case u_slice U pod [''spec'', ''containers''] of
        None \<Rightarrow> (0, 0) | Some raws \<Rightarrow> container_sums U Q [''resources'', ''requests''] raws)"

definition sum_pod_metrics :: "unstr \<Rightarrow> quantities \<Rightarrow> jobj \<Rightarrow> int \<times> int" where
  "sum_pod_metrics U Q pod =
     (case u_slice U pod [''containers''] of
        None \<Rightarrow> (0, 0) | Some raws \<Rightarrow> container_sums U Q [''usage''] raws)"

definition sum_pairs :: "(jobj \<Rightarrow> int \<times> int) \<Rightarrow> jobj list \<Rightarrow> int \<times> int" where
  "sum_pairs f objs =
     fold (\<lambda>o' (a, b). (wrap64 (a + fst (f o')), wrap64 (b + snd (f o')))) objs (0, 0)"

text \<open>The three lists are independent: one that fails leaves its fields at zero.\<close>

definition usage_collect ::
  "'w kenv \<Rightarrow> quantities \<Rightarrow> user_context \<Rightarrow> string \<Rightarrow> 'w \<Rightarrow> 'w \<times> tenant_usage \<times> gerr option" where
  "usage_collect E Q usr ns w =
     (case user_client E usr of
        Inl e \<Rightarrow> (w, no_usage ns, Some e)
      | Inr c \<Rightarrow>
          let U = ke_unstr E in
          (case k_list c pod_gvr ns no_options w of (w1, pods) \<Rightarrow>
           case k_list c pvc_gvr ns no_options w1 of (w2, pvcs) \<Rightarrow>
           case k_list c pod_metrics_gvr ns no_options w2 of (w3, ms) \<Rightarrow>
             let u1 = (case pods of Inl e \<Rightarrow> no_usage ns
                | Inr l \<Rightarrow> (no_usage ns)\<lparr>tu_pod_count := int (length (kl_items l)),
                    tu_cpu_requests := fst (sum_pairs (sum_pod_requests U Q) (kl_items l)),
                    tu_mem_requests := snd (sum_pairs (sum_pod_requests U Q) (kl_items l))\<rparr>);
                 u2 = (case pvcs of Inl e \<Rightarrow> u1
                | Inr l \<Rightarrow> u1\<lparr>tu_storage := fold (\<lambda>o' a. wrap64 (a + pvc_storage_gi U Q o')) (kl_items l) 0\<rparr>);
                 u3 = (case ms of Inl e \<Rightarrow> u2
                | Inr l \<Rightarrow> u2\<lparr>tu_metrics := True,
                    tu_cpu_usage := fst (sum_pairs (sum_pod_metrics U Q) (kl_items l)),
                    tu_mem_usage := snd (sum_pairs (sum_pod_metrics U Q) (kl_items l))\<rparr>)
             in (w3, u3, None)))"

definition usage_collect_all ::
  "'w kenv \<Rightarrow> quantities \<Rightarrow> user_context \<Rightarrow> string list \<Rightarrow> 'w \<Rightarrow> 'w \<times> (string, tenant_usage) gomap" where
  "usage_collect_all E Q usr nss w =
     fold (\<lambda>ns (w, m). case usage_collect E Q usr ns w of
        (w', u, e) \<Rightarrow> (w', mput ns (if e = None then u else no_usage ns) m)) nss (w, [])"

record quota_entry =
  qe_quota :: string
  qe_resource :: string
  qe_hard :: string
  qe_used :: string

definition flatten_quota :: "unstr \<Rightarrow> jobj \<Rightarrow> quota_entry list" where
  "flatten_quota U obj =
     (let get = (\<lambda>path. case u_string_map U obj path of None \<Rightarrow> [] | Some m \<Rightarrow> m);
          hard0 = get [''spec'', ''hard''];
          hard = (if hard0 = [] then get [''status'', ''hard''] else hard0);
          used = get [''status'', ''used'']
      in sort_slice (\<lambda>a b. qe_resource a < qe_resource b)
           (map (\<lambda>(r, h). \<lparr>qe_quota = u_name U obj, qe_resource = r, qe_hard = h,
                  qe_used = mget_or '''' used r\<rparr>) hard))"

definition list_quotas :: "'w kenv \<Rightarrow> user_context \<Rightarrow> string \<Rightarrow> ('w, quota_entry list) kop" where
  "list_quotas E usr ns =
     (if ns = '''' then kfail ErrNamespaceRequired
      else with_client E usr (\<lambda>c.
        kthen (k_list c resource_quota_gvr ns no_options)
          (\<lambda>e. Fmt (''listing resourcequotas in '' @ ns @ '': '') e '''')
          (\<lambda>l. kret (concat (map (flatten_quota (ke_unstr E)) (kl_items l))))))"

section \<open>capi.go\<close>

definition capiClusterLabel :: string where "capiClusterLabel = ''cluster.x-k8s.io/cluster-name''"

definition machine_deployments_gvr :: gvr where
  "machine_deployments_gvr = mk_gvr ''cluster.x-k8s.io'' ''v1beta1'' ''machinedeployments''"

record node_group =
  ng_name :: string
  ng_desired :: int
  ng_status :: int
  ng_ready :: int
  ng_updated :: int
  ng_phase :: string

definition to_node_group :: "unstr \<Rightarrow> jobj \<Rightarrow> node_group" where
  "to_node_group U obj =
     \<lparr>ng_name = u_name U obj, ng_desired = int64_or_zero (u_int64 U obj [''spec'', ''replicas'']),
      ng_status = int64_or_zero (u_int64 U obj [''status'', ''replicas'']),
      ng_ready = int64_or_zero (u_int64 U obj [''status'', ''readyReplicas'']),
      ng_updated = int64_or_zero (u_int64 U obj [''status'', ''updatedReplicas'']),
      ng_phase = nested_string U obj [''status'', ''phase'']\<rparr>"

definition to_sorted_node_groups :: "unstr \<Rightarrow> jobj list \<Rightarrow> node_group list" where
  "to_sorted_node_groups U items = sort_slice (\<lambda>a b. ng_name a < ng_name b) (map (to_node_group U) items)"

definition list_machine_deployments ::
  "'w kenv \<Rightarrow> user_context \<Rightarrow> string \<Rightarrow> string \<Rightarrow> ('w, node_group list) kop" where
  "list_machine_deployments E usr ns clusterName =
     (if ns = '''' then kfail ErrNamespaceRequired
      else if clusterName = '''' then kret []
      else with_client E usr (\<lambda>c.
        kthen (k_list c machine_deployments_gvr ns
                 (no_options\<lparr>lo_label_selector := capiClusterLabel @ ''='' @ clusterName\<rparr>))
          (\<lambda>e. Fmt (''listing MachineDeployments for cluster '' @ ns @ ''/'' @ clusterName @ '': '') e '''')
          (\<lambda>l. kret (to_sorted_node_groups (ke_unstr E) (kl_items l)))))"

section \<open>logs.go\<close>

record pod_info =
  pi_name :: string
  pi_phase :: string
  pi_containers :: "string list"

definition to_pod_info :: "unstr \<Rightarrow> jobj \<Rightarrow> pod_info" where
  "to_pod_info U obj =
     \<lparr>pi_name = u_name U obj, pi_phase = nested_string U obj [''status'', ''phase''],
      pi_containers = (case u_slice U obj [''spec'', ''containers''] of
         None \<Rightarrow> []
       | Some raws \<Rightarrow> filter (\<lambda>n. n \<noteq> '''')
           (map (\<lambda>raw. case as_map raw of None \<Rightarrow> '''' | Some m \<Rightarrow> str_at m ''name'') raws))\<rparr>"

definition list_pods_for_app ::
  "'w kenv \<Rightarrow> user_context \<Rightarrow> string \<Rightarrow> string \<Rightarrow> ('w, pod_info list) kop" where
  "list_pods_for_app E usr ns appName =
     (if ns = '''' then kfail ErrNamespaceRequired
      else if \<not> is_valid_label_value appName then kfail (invalid_name appName)
      else with_client E usr (\<lambda>c.
        kthen (k_list c pod_gvr ns (name_selector appName))
          (\<lambda>e. Fmt (''listing pods for '' @ ns @ ''/'' @ appName @ '': '') e '''')
          (\<lambda>l. kret (map (to_pod_info (ke_unstr E)) (kl_items l)))))"

definition validate_logs_params :: "string \<Rightarrow> string \<Rightarrow> string \<Rightarrow> gerr option" where
  "validate_logs_params ns pod ct =
     (if ns = '''' \<or> pod = '''' then Some ErrNamespaceRequired
      else if \<not> is_valid_label_value ns then
        Some (Fmt '''' ErrAppNotFound ('': invalid namespace '' @ go_quote ns))
      else if \<not> is_valid_label_value pod then
        Some (Fmt '''' ErrAppNotFound ('': invalid pod name '' @ go_quote pod))
      else if ct \<noteq> '''' \<and> \<not> is_valid_label_value ct then
        Some (Fmt '''' ErrAppNotFound ('': invalid container name '' @ go_quote ct))
      else None)"

text \<open>
  The request to the \<open>log\<close> subresource, and the REST client: building it from a configuration,
  reading a log, opening a stream of it.
\<close>

record log_request =
  lr_namespace :: string
  lr_pod :: string
  lr_params :: "(string, string) gomap"

record 's log_api =
  la_client :: "rest_config \<Rightarrow> gerr option"
  la_read :: "rest_config \<Rightarrow> log_request \<Rightarrow> string res"
  la_stream :: "rest_config \<Rightarrow> log_request \<Rightarrow> 's res"

definition log_request_for :: "(string, string) gomap \<Rightarrow> string \<Rightarrow> string \<Rightarrow> string \<Rightarrow> int \<Rightarrow> log_request" where
  "log_request_for follow ns pod ct tailLines =
     \<lparr>lr_namespace = ns, lr_pod = pod,
      lr_params = follow @ [(''tailLines'', show_int tailLines)] @
        (if ct \<noteq> '''' then [(''container'', ct)] else [])\<rparr>"

text \<open>\<open>TailLogs\<close> builds its configuration with the helper that sets no timeout.\<close>

definition tail_logs ::
  "'w kenv \<Rightarrow> 's log_api \<Rightarrow> user_context \<Rightarrow> string \<Rightarrow> string \<Rightarrow> string \<Rightarrow> int \<Rightarrow> string res" where
  "tail_logs E la usr ns pod ct tailLines =
     (case validate_logs_params ns pod ct of
        Some e \<Rightarrow> Inl e
      | None \<Rightarrow>
          (case build_user_rest_config' (ke_sdk E) (ke_base E) usr (ke_mode E) of
             Inl e \<Rightarrow> Inl (Fmt ''building user rest config: '' e '''')
           | Inr cfg \<Rightarrow>
               (case la_client la cfg of
                  Some e \<Rightarrow> Inl (Fmt ''building rest client: '' e '''')
                | None \<Rightarrow>
                    (case la_read la cfg (log_request_for [] ns pod ct tailLines) of
                       Inl e \<Rightarrow> Inl (Fmt (''reading pod log '' @ ns @ ''/'' @ pod @ '': '') e '''')
                     | Inr raw \<Rightarrow> Inr raw))))"

definition stream_logs ::
  "'w kenv \<Rightarrow> 's log_api \<Rightarrow> user_context \<Rightarrow> string \<Rightarrow> string \<Rightarrow> string \<Rightarrow> int \<Rightarrow> 's res" where
  "stream_logs E la usr ns pod ct tailLines =
     (case validate_logs_params ns pod ct of
        Some e \<Rightarrow> Inl e
      | None \<Rightarrow>
          (case build_user_rest_config (ke_sdk E) (ke_base E) usr (ke_mode E) of
             Inl e \<Rightarrow> Inl (Fmt ''building user rest config: '' e '''')
           | Inr cfg0 \<Rightarrow>
               let cfg = cfg0\<lparr>rc_timeout := 0\<rparr> in
               (case la_client la cfg of
                  Some e \<Rightarrow> Inl (Fmt ''building rest client: '' e '''')
                | None \<Rightarrow>
                    (case la_stream la cfg (log_request_for [(''follow'', ''true'')] ns pod ct tailLines) of
                       Inl e \<Rightarrow> Inl (Fmt (''opening pod log stream '' @ ns @ ''/'' @ pod @ '': '') e '''')
                     | Inr s \<Rightarrow> Inr s))))"

section \<open>Lemmas\<close>

lemma set_cap: "set (cap limit xs) \<subseteq> set xs"
  by (auto simp: cap_def dest: in_set_takeD)

lemma cap_all: "limit \<le> 0 \<Longrightarrow> cap limit xs = xs"
  by (simp add: cap_def)

lemma length_cap: "0 < limit \<Longrightarrow> int (length (cap limit xs)) \<le> limit"
  by (simp add: cap_def)

lemma sorted_wrt_cap: "sorted_wrt R xs \<Longrightarrow> sorted_wrt R (cap limit xs)"
  by (simp add: cap_def sorted_wrt_take)

lemma set_dedupe: "set (dedupe_loop seen es) \<subseteq> set es"
  by (induction seen es rule: dedupe_loop.induct) auto

lemma sorted_dedupe: "sorted_wrt R es \<Longrightarrow> sorted_wrt R (dedupe_loop seen es)"
proof (induction seen es rule: dedupe_loop.induct)
  case (2 seen e es)
  then show ?case using set_dedupe [of "(ke_object e, ke_reason e) # seen" es] by auto
qed simp

lemma dedupe_keys:
  "distinct (map (\<lambda>e. (ke_object e, ke_reason e)) (dedupe_loop seen es))
   \<and> (\<forall>e\<in>set (dedupe_loop seen es). (ke_object e, ke_reason e) \<notin> set seen)"
proof (induction seen es rule: dedupe_loop.induct)
  case (2 seen e es)
  show ?case
  proof (cases "(ke_object e, ke_reason e) \<in> set seen")
    case True
    with "2.IH"(1) show ?thesis by simp
  next
    case False
    with "2.IH"(2) [OF False] show ?thesis by (simp add: image_iff) metis
  qed
qed simp

text \<open>Every event is represented by one at least as recent.\<close>

lemma dedupe_represents:
  assumes "sorted_wrt (\<lambda>a b. ke_last_seen b \<le> ke_last_seen a) es" "e \<in> set es"
    and "(ke_object e, ke_reason e) \<notin> set seen"
  shows "\<exists>r\<in>set (dedupe_loop seen es). ke_object r = ke_object e \<and> ke_reason r = ke_reason e \<and>
    ke_last_seen e \<le> ke_last_seen r"
  using assms
proof (induction seen es rule: dedupe_loop.induct)
  case (2 seen x es)
  show ?case
  proof (cases "(ke_object x, ke_reason x) \<in> set seen")
    case True
    then have "e \<in> set es" using "2.prems" by auto
    with True "2.IH"(1) "2.prems" show ?thesis by simp
  next
    case False
    show ?thesis
    proof (cases "(ke_object e, ke_reason e) = (ke_object x, ke_reason x)")
      case same: True
      have "ke_last_seen e \<le> ke_last_seen x" using "2.prems" by auto
      with False same show ?thesis by auto
    next
      case diff: False
      then have "e \<in> set es" using "2.prems" by auto
      with False diff "2.IH"(2) "2.prems" show ?thesis by auto
    qed
  qed
qed simp

lemma to_sorted_events_sorted:
  "sorted_wrt (\<lambda>a b. ke_last_seen b \<le> ke_last_seen a) (to_sorted_events E items limit)"
  using sorted_sort_slice [OF weak_order_key_desc [of ke_last_seen], of "map (to_event E) items"]
  unfolding to_sorted_events_def by (intro sorted_wrt_cap) (simp add: not_less)

lemma tail_logs_Inr:
  "tail_logs E la usr ns pod ct n = Inr s \<Longrightarrow>
     \<exists>cfg. build_user_rest_config' (ke_sdk E) (ke_base E) usr (ke_mode E) = Inr cfg \<and>
       la_read la cfg (log_request_for [] ns pod ct n) = Inr s"
  by (auto simp: tail_logs_def split: option.splits sum.splits)

lemma stream_logs_Inr:
  "stream_logs E la usr ns pod ct n = Inr s \<Longrightarrow>
     \<exists>cfg. build_user_rest_config (ke_sdk E) (ke_base E) usr (ke_mode E) = Inr cfg \<and>
       la_stream la (cfg\<lparr>rc_timeout := 0\<rparr>) (log_request_for [(''follow'', ''true'')] ns pod ct n) = Inr s"
  by (auto simp: stream_logs_def Let_def split: option.splits sum.splits)

lemma validate_logs_params_None:
  "validate_logs_params ns pod ct = None \<Longrightarrow>
     is_valid_label_value ns \<and> is_valid_label_value pod \<and> (ct \<noteq> '''' \<longrightarrow> is_valid_label_value ct)"
  by (auto simp: validate_logs_params_def split: if_splits)

text \<open>The segment test: the release stands between two boundaries.\<close>

lemma name_derived_iff:
  "name_derived_from_release objName release \<longleftrightarrow>
     release \<noteq> '''' \<and> (\<exists>a b. objName = a @ release @ b \<and> (a = '''' \<or> last a = CHR ''-'') \<and>
        (b = '''' \<or> hd b = CHR ''-''))"
proof
  assume n: "name_derived_from_release objName release"
  then have r: "release \<noteq> ''''" by (auto simp: name_derived_from_release_def split: if_splits)
  consider "objName = release" | t where "objName = (release @ ''-'') @ t" | t where "objName = t @ ''-'' @ release"
    | a b where "objName = a @ (''-'' @ release @ ''-'') @ b"
    using n by (auto simp: name_derived_from_release_def has_prefix_iff has_suffix_iff contains_iff split: if_splits)
  then have "\<exists>a b. objName = a @ release @ b \<and> (a = '''' \<or> last a = CHR ''-'') \<and> (b = '''' \<or> hd b = CHR ''-'')"
  proof cases
    case 1
    then show ?thesis by (intro exI [of _ "''''"]) simp
  next
    case (2 t)
    then show ?thesis by (intro exI [of _ "''''"] exI [of _ "''-'' @ t"]) simp
  next
    case (3 t)
    then show ?thesis by (intro exI [of _ "t @ ''-''"] exI [of _ "''''"]) simp
  next
    case (4 a b)
    then show ?thesis by (intro exI [of _ "a @ ''-''"] exI [of _ "''-'' @ b"]) simp
  qed
  with r show "release \<noteq> '''' \<and> (\<exists>a b. objName = a @ release @ b \<and> (a = '''' \<or> last a = CHR ''-'') \<and>
        (b = '''' \<or> hd b = CHR ''-''))" by blast
next
  assume "release \<noteq> '''' \<and> (\<exists>a b. objName = a @ release @ b \<and> (a = '''' \<or> last a = CHR ''-'') \<and>
        (b = '''' \<or> hd b = CHR ''-''))"
  then obtain a b where r: "release \<noteq> ''''" "objName = a @ release @ b"
    "a = '''' \<or> last a = CHR ''-''" "b = '''' \<or> hd b = CHR ''-''" by blast
  then have "a = '''' \<or> (\<exists>a'. a = a' @ ''-'')" "b = '''' \<or> (\<exists>b'. b = ''-'' @ b')"
    by (cases a rule: rev_cases; simp) (cases b; use r in auto)
  then consider "a = ''''" "b = ''''" | b' where "a = ''''" "b = ''-'' @ b'" | a' where "a = a' @ ''-''" "b = ''''"
    | a' b' where "a = a' @ ''-''" "b = ''-'' @ b'" by blast
  then have "objName = release \<or> (\<exists>t. objName = (release @ ''-'') @ t) \<or> (\<exists>t. objName = t @ ''-'' @ release) \<or>
      (\<exists>x y. objName = x @ (''-'' @ release @ ''-'') @ y)"
    by cases (use r(2) in \<open>auto intro: exI\<close>)
  then show "name_derived_from_release objName release"
    using r(1,2) unfolding name_derived_from_release_def has_prefix_iff has_suffix_iff contains_iff by auto
qed

section \<open>Properties\<close>

text \<open>
  The events of an application. The list contains only events about objects whose name is the
  application's, or contains it between hyphens or the ends of the name; it is sorted newest first,
  shows each pair of object and reason once, never exceeds a positive limit, and without limit
  every such event is represented by one with the same object and reason that is at least as
  recent.
\<close>

theorem application_events:
  assumes "user_client E usr = Inr c" "k_list c event_gvr ns no_options w = (w', Inr l)" "ns \<noteq> ''''"
  shows "\<exists>evs. list_for_object E usr ns name limit w = (w', Inr evs) \<and>
    sorted_wrt (\<lambda>a b. ke_last_seen b \<le> ke_last_seen a) evs \<and>
    distinct (map (\<lambda>e. (ke_object e, ke_reason e)) evs) \<and>
    (0 < limit \<longrightarrow> int (length evs) \<le> limit) \<and>
    (\<forall>e\<in>set evs. \<exists>o'\<in>set (kl_items l). e = to_event E o' \<and> name \<noteq> '''' \<and>
       (\<exists>a b. nested_string (ke_unstr E) o' [''involvedObject'', ''name''] = a @ name @ b \<and>
          (a = '''' \<or> last a = CHR ''-'') \<and> (b = '''' \<or> hd b = CHR ''-''))) \<and>
    (limit \<le> 0 \<longrightarrow> (\<forall>o'\<in>set (matching_items (ke_unstr E) name (kl_items l)). \<exists>e\<in>set evs.
       ke_object e = ke_object (to_event E o') \<and> ke_reason e = ke_reason (to_event E o') \<and>
       ke_last_seen (to_event E o') \<le> ke_last_seen e))"
proof -
  let ?items = "matching_items (ke_unstr E) name (kl_items l)"
  let ?evs = "to_sorted_events E ?items 0"
  define evs where "evs = dedupe_by_object_reason ?evs limit"
  have run: "list_for_object E usr ns name limit w = (w', Inr evs)"
    using assms by (simp add: list_for_object_def list_events_def kop_defs evs_def)
  have mem: "set ?evs = to_event E ` set ?items"
    by (simp add: to_sorted_events_def cap_all)
  have src: "\<exists>o'\<in>set (kl_items l). e = to_event E o' \<and> name \<noteq> '''' \<and>
       (\<exists>a b. nested_string (ke_unstr E) o' [''involvedObject'', ''name''] = a @ name @ b \<and>
          (a = '''' \<or> last a = CHR ''-'') \<and> (b = '''' \<or> hd b = CHR ''-''))" if "e \<in> set evs" for e
  proof -
    from that have "e \<in> set ?evs" unfolding evs_def dedupe_by_object_reason_def using set_cap set_dedupe by fast
    then obtain o' where "o' \<in> set ?items" "e = to_event E o'" using mem by auto
    then show ?thesis unfolding matching_items_def name_derived_iff by auto
  qed
  have all: "\<exists>e\<in>set evs. ke_object e = ke_object (to_event E o') \<and> ke_reason e = ke_reason (to_event E o') \<and>
       ke_last_seen (to_event E o') \<le> ke_last_seen e" if "limit \<le> 0" "o' \<in> set ?items" for o'
    using dedupe_represents [OF to_sorted_events_sorted, of "to_event E o'" E ?items 0 "[]"] that mem
    by (simp add: evs_def dedupe_by_object_reason_def cap_all)
  have "sorted_wrt (\<lambda>a b. ke_last_seen b \<le> ke_last_seen a) evs"
    unfolding evs_def dedupe_by_object_reason_def
    by (intro sorted_wrt_cap sorted_dedupe to_sorted_events_sorted)
  moreover have "distinct (map (\<lambda>e. (ke_object e, ke_reason e)) evs)"
    using dedupe_keys [of "[]" ?evs]
    by (simp add: evs_def dedupe_by_object_reason_def cap_def take_map [symmetric] distinct_take)
  moreover have "0 < limit \<longrightarrow> int (length evs) \<le> limit"
    by (simp add: evs_def dedupe_by_object_reason_def length_cap)
  ultimately show ?thesis using run src all by blast
qed

definition sample_event :: "string \<Rightarrow> string \<Rightarrow> jobj" where
  "sample_event n reason = [(''metadata'', JMap [(''name'', JStr (n @ ''.1''))]), (''reason'', JStr reason),
     (''involvedObject'', JMap [(''kind'', JStr ''Pod''), (''name'', JStr n)])]"

definition event_kube :: "nat kube" where
  "event_kube = sample_kube\<lparr>k_list := (\<lambda>g ns o' w. (w, Inr \<lparr>kl_items =
     [sample_event ''db-0'' ''Pulled'', sample_event ''db2-0'' ''Pulled'', sample_event ''db-0'' ''Pulled''],
     kl_continue = ''''\<rparr>))\<rparr>"

definition event_env :: "nat kenv" where
  "event_env = sample_app_env\<lparr>ke_sdk := (ke_sdk sample_app_env)\<lparr>sdk_dynamic := (\<lambda>_. Inr event_kube)\<rparr>\<rparr>"

theorem application_events_witness:
  "\<exists>evs. list_for_object event_env sample_user ''tenant-a'' ''db'' 20 0 = (0, Inr evs) \<and>
     distinct (map (\<lambda>e. (ke_object e, ke_reason e)) evs)"
proof -
  have c: "user_client event_env sample_user = Inr event_kube"
    by (simp add: user_client_def new_user_client_def build_user_rest_config_def build_user_rest_config'_def
        event_env_def sample_app_env_def sample_user_def)
  have l: "k_list event_kube event_gvr ''tenant-a'' no_options 0 = (0, Inr \<lparr>kl_items =
     [sample_event ''db-0'' ''Pulled'', sample_event ''db2-0'' ''Pulled'', sample_event ''db-0'' ''Pulled''],
     kl_continue = ''''\<rparr>)"
    by (simp add: event_kube_def)
  have "''tenant-a'' \<noteq> ''''" by simp
  from application_events [OF c l this, of "''db''" 20] show ?thesis by blast
qed

text \<open>
  Log reads stay inside the pod named. When a namespace, pod or container name is malformed,
  neither reader contacts the API, whatever the API would answer. A log that is returned was read
  with the caller's own configuration from exactly this pod, and the three names are free of
  slashes and start with a letter or digit, so none of them can leave the path of the request; a
  stream has no timeout.
\<close>

theorem log_reads_are_confined:
  "(validate_logs_params ns pod ct \<noteq> None \<longrightarrow>
      (\<exists>e. \<forall>la :: 's log_api. tail_logs E la usr ns pod ct n = Inl e \<and> stream_logs E la usr ns pod ct n = Inl e)) \<and>
   (\<forall>la :: 's log_api. \<forall>s. tail_logs E la usr ns pod ct n = Inr s \<longrightarrow>
      (\<exists>cfg. build_user_rest_config' (ke_sdk E) (ke_base E) usr (ke_mode E) = Inr cfg \<and>
         la_read la cfg (log_request_for [] ns pod ct n) = Inr s)) \<and>
   (\<forall>la :: 's log_api. \<forall>s. stream_logs E la usr ns pod ct n = Inr s \<longrightarrow>
      (\<exists>cfg. build_user_rest_config (ke_sdk E) (ke_base E) usr (ke_mode E) = Inr cfg \<and>
         la_stream la (cfg\<lparr>rc_timeout := 0\<rparr>) (log_request_for [(''follow'', ''true'')] ns pod ct n) = Inr s)) \<and>
   (validate_logs_params ns pod ct = None \<longrightarrow>
      (\<forall>x\<in>{ns, pod} \<union> (if ct = '''' then {} else {ct}). x \<noteq> '''' \<and> CHR ''/'' \<notin> set x \<and> alnum (hd x)))"
proof -
  have valid: "x \<noteq> '''' \<and> CHR ''/'' \<notin> set x \<and> alnum (hd x)" if "is_valid_label_value x" for x
  proof -
    have "matches (bounded_word alnum label_mid) x"
      using that by (simp add: is_valid_label_value_def labelValueRegex_def split: if_splits)
    then have "alnum (hd x)" by (simp only: bounded_word_iff)
    with label_rule.accepts_nonempty [OF that] label_no_slash [OF that] show ?thesis by blast
  qed
  show ?thesis
  proof (intro conjI allI impI)
    show "\<exists>e. \<forall>la :: 's log_api. tail_logs E la usr ns pod ct n = Inl e \<and> stream_logs E la usr ns pod ct n = Inl e"
      if "validate_logs_params ns pod ct \<noteq> None"
    proof -
      from that obtain e where "validate_logs_params ns pod ct = Some e" by blast
      then show ?thesis by (intro exI [of _ e]) (simp add: tail_logs_def stream_logs_def)
    qed
    show "\<forall>x\<in>{ns, pod} \<union> (if ct = '''' then {} else {ct}). x \<noteq> '''' \<and> CHR ''/'' \<notin> set x \<and> alnum (hd x)"
      if "validate_logs_params ns pod ct = None"
      using validate_logs_params_None [OF that] valid by simp
    show "\<exists>cfg. build_user_rest_config' (ke_sdk E) (ke_base E) usr (ke_mode E) = Inr cfg \<and>
        la_read la cfg (log_request_for [] ns pod ct n) = Inr s"
      if "tail_logs E la usr ns pod ct n = Inr s" for la :: "'s log_api" and s
      using that by (rule tail_logs_Inr)
    show "\<exists>cfg. build_user_rest_config (ke_sdk E) (ke_base E) usr (ke_mode E) = Inr cfg \<and>
        la_stream la (cfg\<lparr>rc_timeout := 0\<rparr>) (log_request_for [(''follow'', ''true'')] ns pod ct n) = Inr s"
      if "stream_logs E la usr ns pod ct n = Inr s" for la :: "'s log_api" and s
      using that by (rule stream_logs_Inr)
  qed
qed

definition sample_logs :: "string log_api" where
  "sample_logs = \<lparr>la_client = (\<lambda>_. None), la_read = (\<lambda>cfg r. Inr (lr_pod r)), la_stream = (\<lambda>cfg r. Inr (lr_pod r))\<rparr>"

theorem log_reads_are_confined_witness:
  "tail_logs event_env sample_logs sample_user ''tenant-a'' ''db-0'' '''' 50 = Inr ''db-0'' \<and>
   (\<exists>cfg. build_user_rest_config' (ke_sdk event_env) (ke_base event_env) sample_user (ke_mode event_env) = Inr cfg) \<and>
   (\<exists>e. \<forall>la :: string log_api. tail_logs event_env la sample_user ''tenant-a'' ''../x'' '''' 50 = Inl e)"
proof -
  have t: "tail_logs event_env sample_logs sample_user ''tenant-a'' ''db-0'' '''' 50 = Inr ''db-0''" by code_simp
  have v: "validate_logs_params ''tenant-a'' ''../x'' '''' \<noteq> None" by code_simp
  note bad = log_reads_are_confined [where ns = "''tenant-a''" and pod = "''../x''" and ct = "''''" and E = event_env
      and usr = sample_user and n = 50 and 's = string]
  note good = log_reads_are_confined [where ns = "''tenant-a''" and pod = "''db-0''" and ct = "''''" and E = event_env
      and usr = sample_user and n = 50 and 's = string]
  obtain e where "\<forall>la :: string log_api. tail_logs event_env la sample_user ''tenant-a'' ''../x'' '''' 50 = Inl e \<and>
      stream_logs event_env la sample_user ''tenant-a'' ''../x'' '''' 50 = Inl e"
    using bad [THEN conjunct1, rule_format, OF v] by (rule exE)
  then have "\<exists>e. \<forall>la :: string log_api. tail_logs event_env la sample_user ''tenant-a'' ''../x'' '''' 50 = Inl e"
    by (intro exI [of _ e]) simp
  moreover obtain cfg where
    "build_user_rest_config' (ke_sdk event_env) (ke_base event_env) sample_user (ke_mode event_env) = Inr cfg"
    using good [THEN conjunct2, THEN conjunct1, rule_format, OF t] by (elim exE conjE)
  ultimately show ?thesis using t by (intro conjI exI [of _ cfg])
qed

end
