(* ===== verification/Event_Streams.thy ===== *)
theory Event_Streams
  imports Watcher Kube_Reads
begin

text \<open>
  The two event streams of \<open>internal/api\<close>: \<open>sse.go\<close>, which sends the events of the shared
  watcher to the clients of a tenant, and \<open>sse_watch.go\<close>, which opens a watch of its own with the
  credentials of the caller. A stream is what it reads, as a list of inputs, turned into the frames
  it writes; \<open>accepts\<close> tells which writes succeed. The row templates are arguments.
\<close>

section \<open>sse.go\<close>

text \<open>In nanoseconds.\<close>

definition sseMaxStreamAge :: int where "sseMaxStreamAge = 60 * 60 * 10 ^ 9"

definition sseOpAdded :: string where "sseOpAdded = ''added''"
definition sseOpModified :: string where "sseOpModified = ''modified''"
definition sseOpRemoved :: string where "sseOpRemoved = ''removed''"

definition ErrTenantAccessDenied :: gerr where "ErrTenantAccessDenied = Sentinel ''tenant access denied''"

record sse_message =
  sm_op :: string
  sm_type :: string
  sm_name :: string
  sm_status :: string
  sm_html :: string

record sse_frame =
  fr_id :: "64 word"
  fr_message :: sse_message

definition parse_last_event_id :: "string \<Rightarrow> 64 word" where
  "parse_last_event_id raw =
     (if raw = '''' then 0
      else case parse_int64 raw of
        None \<Rightarrow> 0 | Some i \<Rightarrow> if i < 0 then 0 else word_of_int i)"

text \<open>\<open>base\<close> is \<open>False\<close> for a handler built without configuration, as only tests build it.\<close>

definition authorize_tenant ::
  "'w kenv \<Rightarrow> bool \<Rightarrow> user_context \<Rightarrow> string \<Rightarrow> 'w \<Rightarrow> 'w \<times> gerr option" where
  "authorize_tenant E base usr tenant w =
     (if \<not> base then (w, None)
      else case user_client E usr of
        Inl e \<Rightarrow> (w, Some (Fmt ''building user client: '' e ''''))
      | Inr c \<Rightarrow>
          (case k_list c helm_release_gvr tenant (no_options\<lparr>lo_limit := 1\<rparr>) w of
             (w', Inl e) \<Rightarrow>
               (w', Some (Fmt '''' ErrTenantAccessDenied ('': '' @ tenant @ '': '' @ err_text e)))
           | (w', Inr l) \<Rightarrow> (w', None)))"

definition build_message :: "(string \<Rightarrow> application \<Rightarrow> string res) \<Rightarrow> string \<Rightarrow> watch_event \<Rightarrow> sse_message option" where
  "build_message render tenant evt =
     (let app = we_app evt in
      if ap_name app = '''' then None
      else if we_type evt = WatchEventDeleted then
        Some \<lparr>sm_op = sseOpRemoved, sm_type = sseOpRemoved, sm_name = ap_name app, sm_status = '''', sm_html = ''''\<rparr>
      else
        let op' = (if we_type evt = WatchEventModified then sseOpModified else sseOpAdded) in
        (case render tenant app of
           Inl e \<Rightarrow> None
         | Inr html \<Rightarrow> Some \<lparr>sm_op = op', sm_type = op', sm_name = ap_name app,
               sm_status = app_status_text (ap_status app), sm_html = html\<rparr>))"

text \<open>The frame written, if any, and whether the stream goes on.\<close>

definition write_event ::
  "(string \<Rightarrow> application \<Rightarrow> string res) \<Rightarrow> (sse_frame \<Rightarrow> bool) \<Rightarrow> string \<Rightarrow> watch_event \<Rightarrow> sse_frame list \<times> bool" where
  "write_event render accepts tenant evt =
     (case build_message render tenant evt of
        None \<Rightarrow> ([], True)
      | Some msg \<Rightarrow>
          let f = \<lparr>fr_id = we_id evt, fr_message = msg\<rparr>
          in if accepts f then ([f], True) else ([], False))"

datatype 'e stream_input = InEvent 'e | InClosed | InDone

text \<open>
  \<open>pumpEvents\<close>: an event of the subscription, its channel closed, or the context done (which is
  also how the deadline of the stream arrives).
\<close>

fun pump_events ::
  "('e \<Rightarrow> 'f list \<times> bool) \<Rightarrow> 'e stream_input list \<Rightarrow> 'f list" where
  "pump_events emit [] = []"
| "pump_events emit (InDone # ins) = []"
| "pump_events emit (InClosed # ins) = []"
| "pump_events emit (InEvent e # ins) =
     (case emit e of (fs, ok) \<Rightarrow> if ok then fs @ pump_events emit ins else fs)"

fun replay_missed :: "('e \<Rightarrow> 'f list \<times> bool) \<Rightarrow> 'e list \<Rightarrow> 'f list \<times> bool" where
  "replay_missed emit [] = ([], True)"
| "replay_missed emit (e # es) =
     (case emit e of (fs, ok) \<Rightarrow>
        if ok then (case replay_missed emit es of (gs, ok') \<Rightarrow> (fs @ gs, ok')) else (fs, False))"

definition stream_frames ::
  "('e \<Rightarrow> 'f list \<times> bool) \<Rightarrow> 'e list \<Rightarrow> 'e stream_input list \<Rightarrow> 'f list" where
  "stream_frames emit missed ins =
     (case replay_missed emit missed of (fs, ok) \<Rightarrow> if ok then fs @ pump_events emit ins else fs)"

definition sse_headers :: "'p writer \<Rightarrow> 'p writer" where
  "sse_headers w =
     write_body (BHtml (''retry: 5000'' @ [CHR 0x0A] @ '':ok'' @ [CHR 0x0A, CHR 0x0A]))
       (write_header 200
         (set_header ''X-Accel-Buffering'' ''no''
           (set_header ''Connection'' ''keep-alive''
             (set_header ''Cache-Control'' ''no-cache''
               (set_header ''Content-Type'' ''text/event-stream'' w)))))"

text \<open>
  \<open>Stream\<close> up to the subscription: the cluster, the watcher, the writer, and the channel with the
  events to replay. The deferred \<open>Unsubscribe\<close> runs when the frames are written.
\<close>

definition sse_stream ::
  "'w kenv \<Rightarrow> bool \<Rightarrow> bool \<Rightarrow> request \<Rightarrow> ctx \<Rightarrow> 'w \<Rightarrow> watcher \<Rightarrow> 'p writer \<Rightarrow>
     'w \<times> watcher \<times> 'p writer \<times> (nat \<times> watch_event list) option" where
  "sse_stream E base flusher req c w wat wr =
     (case user_from_context c of
        None \<Rightarrow> (w, wat, api_error 401 ''not authenticated'' wr, None)
      | Some usr \<Rightarrow>
          if \<not> flusher then (w, wat, api_error 500 ''streaming not supported'' wr, None)
          else
            let tenant = query_get req ''tenant'' in
            if tenant = '''' then (w, wat, api_error 400 ''tenant parameter required'' wr, None)
            else (case authorize_tenant E base usr tenant w of
                (w', Some e) \<Rightarrow> (w', wat, api_error 403 ''tenant access denied'' wr, None)
              | (w', None) \<Rightarrow>
                  (case subscribe tenant (parse_last_event_id (header_get req ''Last-Event-Id'')) wat of
                     (wat', ch, missed) \<Rightarrow> (w', wat', sse_headers wr, Some (ch, missed)))))"

section \<open>sse_watch.go\<close>

definition watchStreamMaxAge :: int where "watchStreamMaxAge = 30 * 60 * 10 ^ 9"

definition errWatchEventMissingName :: gerr where
  "errWatchEventMissingName = Sentinel ''watch event missing metadata.name''"

record watch_resource =
  wr_gvr :: gvr
  wr_row_prefix :: string
  wr_render :: "jobj \<Rightarrow> (string \<times> string) res"
  wr_filter :: "(jobj \<Rightarrow> string \<Rightarrow> bool) option"

definition filter_event_by_involved_object :: "unstr \<Rightarrow> jobj \<Rightarrow> string \<Rightarrow> bool" where
  "filter_event_by_involved_object U obj appName =
     name_derived_from_release (str_or_empty (u_string U obj [''involvedObject'', ''name''])) appName"

definition render_event_row :: "'w kenv \<Rightarrow> (kube_event \<Rightarrow> string res) \<Rightarrow> jobj \<Rightarrow> (string \<times> string) res" where
  "render_event_row E render obj =
     (let name = u_name (ke_unstr E) obj in
      if name = '''' then Inl errWatchEventMissingName
      else case render (to_event E obj) of
        Inl e \<Rightarrow> Inl (Fmt ''rendering event row: '' e '''') | Inr html \<Rightarrow> Inr (name, html))"

definition watchResourceConfig :: "'w kenv \<Rightarrow> (kube_event \<Rightarrow> string res) \<Rightarrow> (string, watch_resource) gomap" where
  "watchResourceConfig E render =
     [(''events'', \<lparr>wr_gvr = mk_gvr '''' ''v1'' ''events'', wr_row_prefix = ''event-row'',
        wr_render = render_event_row E render,
        wr_filter = Some (filter_event_by_involved_object (ke_unstr E))\<rparr>)]"

record stream_request =
  sr_conf :: watch_resource
  sr_tenant :: string
  sr_object :: string

definition validate_stream_request ::
  "(string, watch_resource) gomap \<Rightarrow> request \<Rightarrow> ctx \<Rightarrow> 'p writer \<Rightarrow> 'p writer + user_context \<times> stream_request" where
  "validate_stream_request confs req c wr =
     (case user_from_context c of
        None \<Rightarrow> Inl (api_error 401 ''not authenticated'' wr)
      | Some usr \<Rightarrow>
          let resource = path_value req ''resource'' in
          (case map_of confs resource of
             None \<Rightarrow> Inl (api_error 404 (''unknown watch resource: '' @ resource) wr)
           | Some conf \<Rightarrow>
               let tenant = query_get req ''tenant''; object = query_get req ''object'' in
               if tenant = '''' then Inl (api_error 400 ''tenant parameter required'' wr)
               else if object \<noteq> '''' \<and> wr_filter conf = None then
                 Inl (api_error 400 (''resource does not support object scoping: '' @ resource) wr)
               else Inr (usr, \<lparr>sr_conf = conf, sr_tenant = tenant, sr_object = object\<rparr>)))"

definition watch_authorize_request ::
  "'w kenv \<Rightarrow> user_context \<Rightarrow> stream_request \<Rightarrow> 'p writer \<Rightarrow> 'p writer + rest_config" where
  "watch_authorize_request E usr sreq wr =
     (case build_user_rest_config (ke_sdk E) (ke_base E) usr (ke_mode E) of
        Inl e \<Rightarrow> Inl (api_error 500 ''building user client'' wr)
      | Inr cfg \<Rightarrow>
          (case watch_authorize (ke_sdk E) cfg (wr_gvr (sr_conf sreq)) (sr_tenant sreq) of
             Inl e \<Rightarrow> Inl (api_error 503 ''watch authorization probe failed'' wr)
           | Inr allowed \<Rightarrow>
               if \<not> allowed then Inl (api_error 403 ''watch access denied'' wr) else Inr cfg))"

fun sse_op_from_watch_type :: "watch_kind \<Rightarrow> string" where
  "sse_op_from_watch_type KAdded = sseOpAdded"
| "sse_op_from_watch_type KModified = sseOpModified"
| "sse_op_from_watch_type KDeleted = sseOpRemoved"
| "sse_op_from_watch_type KError = ''''"
| "sse_op_from_watch_type KBookmark = ''''"
| "sse_op_from_watch_type (KOther s) = ''''"

record watch_message =
  wm_op :: string
  wm_name :: string
  wm_row_prefix :: string
  wm_html :: string

text \<open>A message of four strings always marshals; \<open>accepts\<close> tells whether the write succeeds.\<close>

definition write_watch_frame :: "(watch_message \<Rightarrow> bool) \<Rightarrow> watch_message \<Rightarrow> watch_message list \<times> bool" where
  "write_watch_frame accepts msg = (if accepts msg then ([msg], True) else ([], False))"

text \<open>The object of an event is \<open>None\<close> when it is not unstructured.\<close>

definition forward_event ::
  "(watch_message \<Rightarrow> bool) \<Rightarrow> stream_request \<Rightarrow> watch_kind \<times> jobj option \<Rightarrow> watch_message list \<times> bool" where
  "forward_event accepts sreq evt =
     (let operation = sse_op_from_watch_type (fst evt) in
      if operation = '''' then ([], True)
      else case snd evt of
        None \<Rightarrow> ([], True)
      | Some obj \<Rightarrow>
          if sr_object sreq \<noteq> '''' \<and>
             (case wr_filter (sr_conf sreq) of None \<Rightarrow> False | Some f \<Rightarrow> \<not> f obj (sr_object sreq)) then ([], True)
          else (case wr_render (sr_conf sreq) obj of
              Inl e \<Rightarrow> ([], True)
            | Inr (name, html) \<Rightarrow>
                write_watch_frame accepts
                  \<lparr>wm_op = operation, wm_name = name, wm_row_prefix = wr_row_prefix (sr_conf sreq), wm_html = html\<rparr>))"

text \<open>
  \<open>pump\<close>: \<open>open_watch\<close> gives the events of the watch as they arrive, up to the end of the request or
  the deadline of the stream. A watch that cannot be opened is only logged.
\<close>

definition watch_pump ::
  "'w kenv \<Rightarrow> (rest_config \<Rightarrow> gvr \<Rightarrow> string \<Rightarrow> ((watch_kind \<times> jobj option) stream_input list) res) \<Rightarrow>
     (watch_message \<Rightarrow> bool) \<Rightarrow> rest_config \<Rightarrow> stream_request \<Rightarrow> watch_message list" where
  "watch_pump E open_watch accepts cfg sreq =
     (case watch_stream (ke_sdk E) open_watch cfg (wr_gvr (sr_conf sreq)) (sr_tenant sreq) of
        Inl e \<Rightarrow> []
      | Inr ins \<Rightarrow> pump_events (forward_event accepts sreq) ins)"

text \<open>\<open>Stream\<close>: the headers are sent before the watch is opened.\<close>

definition watch_stream_handler ::
  "'w kenv \<Rightarrow> (string, watch_resource) gomap \<Rightarrow> (rest_config \<Rightarrow> gvr \<Rightarrow> string \<Rightarrow>
     ((watch_kind \<times> jobj option) stream_input list) res) \<Rightarrow> (watch_message \<Rightarrow> bool) \<Rightarrow> bool \<Rightarrow>
     request \<Rightarrow> ctx \<Rightarrow> 'p writer \<Rightarrow> 'p writer \<times> watch_message list" where
  "watch_stream_handler E confs open_watch accepts flusher req c wr =
     (case validate_stream_request confs req c wr of
        Inl wr' \<Rightarrow> (wr', [])
      | Inr (usr, sreq) \<Rightarrow>
          if \<not> flusher then (api_error 500 ''streaming not supported'' wr, [])
          else (case watch_authorize_request E usr sreq wr of
              Inl wr' \<Rightarrow> (wr', [])
            | Inr cfg \<Rightarrow> (sse_headers wr, watch_pump E open_watch accepts cfg sreq)))"

section \<open>Lemmas\<close>

text \<open>What a stream has read when it ends.\<close>

fun read_before_end :: "'e stream_input list \<Rightarrow> 'e list" where
  "read_before_end (InEvent e # ins) = e # read_before_end ins"
| "read_before_end _ = []"

text \<open>
  The contract of a function that writes one event: it writes the frame of the event if there is
  one, and the stream ends at the first write that fails. A stream then writes the frames of what
  it replays and reads, in order, up to the first failed write.
\<close>

locale frame_writer =
  fixes emit :: "'e \<Rightarrow> 'f list \<times> bool"
    and frame_of :: "'e \<Rightarrow> 'f option"
    and accepts :: "'f \<Rightarrow> bool"
  assumes write_frame: "emit e = (case frame_of e of
      None \<Rightarrow> ([], True) | Some f \<Rightarrow> if accepts f then ([f], True) else ([], False))"
begin

lemma pump_frames:
  "pump_events emit ins = takeWhile accepts (List.map_filter frame_of (read_before_end ins))"
  by (induction ins rule: read_before_end.induct)
    (auto simp: write_frame map_filter_simps split: option.split)

lemma replay_frames:
  "fst (replay_missed emit es) = takeWhile accepts (List.map_filter frame_of es)"
  "snd (replay_missed emit es) \<longleftrightarrow> list_all accepts (List.map_filter frame_of es)"
  by (induction es) (auto simp: write_frame map_filter_simps split: option.split prod.split)

lemma map_filter_app: "List.map_filter f (xs @ ys) = List.map_filter f xs @ List.map_filter f ys"
  by (simp add: List.map_filter_def)

lemma frames_of_stream:
  "stream_frames emit missed ins =
     takeWhile accepts (List.map_filter frame_of (missed @ read_before_end ins))"
proof -
  obtain fs ok where r: "replay_missed emit missed = (fs, ok)" by fastforce
  with replay_frames [of missed] have fs: "fs = takeWhile accepts (List.map_filter frame_of missed)"
    and ok: "ok \<longleftrightarrow> list_all accepts (List.map_filter frame_of missed)" by auto
  show ?thesis
  proof (cases ok)
    case True
    then have "\<forall>x\<in>set (List.map_filter frame_of missed). accepts x" using ok by (simp add: list_all_iff)
    then show ?thesis using r fs True
      by (simp add: stream_frames_def pump_frames map_filter_app takeWhile_append2)
  next
    case False
    then obtain x where "x \<in> set (List.map_filter frame_of missed)" "\<not> accepts x" using ok by (auto simp: list_all_iff)
    then show ?thesis using r fs False
      by (simp add: stream_frames_def map_filter_app takeWhile_append1)
  qed
qed

end

definition sse_frame_of ::
  "(string \<Rightarrow> application \<Rightarrow> string res) \<Rightarrow> string \<Rightarrow> watch_event \<Rightarrow> sse_frame option" where
  "sse_frame_of render tenant evt =
     map_option (\<lambda>m. \<lparr>fr_id = we_id evt, fr_message = m\<rparr>) (build_message render tenant evt)"

interpretation sse_writer: frame_writer "write_event render accepts tenant" "sse_frame_of render tenant" accepts
  by unfold_locales (simp add: write_event_def sse_frame_of_def Let_def split: option.split)

definition watch_frame_of :: "stream_request \<Rightarrow> watch_kind \<times> jobj option \<Rightarrow> watch_message option" where
  "watch_frame_of sreq evt =
     (case forward_event (\<lambda>_. True) sreq evt of (m # ms, ok) \<Rightarrow> Some m | ([], ok) \<Rightarrow> None)"

interpretation watch_writer: frame_writer "forward_event accepts sreq" "watch_frame_of sreq" accepts
  by unfold_locales (auto simp: forward_event_def write_watch_frame_def watch_frame_of_def Let_def split: option.splits sum.splits)

lemma watch_frame_of_Some:
  assumes "watch_frame_of sreq evt = Some m"
  shows "wm_op m = sse_op_from_watch_type (fst evt)" "wm_op m \<noteq> ''''"
    "\<exists>obj. snd evt = Some obj \<and> wr_render (sr_conf sreq) obj = Inr (wm_name m, wm_html m) \<and>
       (\<forall>f. sr_object sreq \<noteq> '''' \<longrightarrow> wr_filter (sr_conf sreq) = Some f \<longrightarrow> f obj (sr_object sreq))"
  using assms
  by (auto simp: watch_frame_of_def forward_event_def write_watch_frame_def Let_def split: option.splits sum.splits if_splits)

text \<open>Decimal numbers.\<close>

lemma digits_val_snoc: "digits_val acc (xs @ [c]) = 10 * digits_val acc xs + digit_val c"
  by (induction xs arbitrary: acc) simp_all

lemma digit_of: "n < 10 \<Longrightarrow> is_digit (char_of (48 + n)) \<and> digit_val (char_of (48 + n)) = int n"
  for n :: nat
proof -
  assume "n < 10"
  then have "n \<in> {0, 1, 2, 3, 4, 5, 6, 7, 8, 9}" by auto
  then show ?thesis by (elim insertE emptyE; hypsubst; code_simp)
qed

lemma show_nat_digits: "list_all is_digit (show_nat n) \<and> show_nat n \<noteq> [] \<and> digits_val 0 (show_nat n) = int n"
proof (induction n rule: less_induct)
  case (less n)
  show ?case
  proof (cases "n < 10")
    case True
    with digit_of [OF True] show ?thesis by (simp add: show_nat.simps [of n])
  next
    case False
    then have "list_all is_digit (show_nat (n div 10)) \<and> show_nat (n div 10) \<noteq> [] \<and>
        digits_val 0 (show_nat (n div 10)) = int (n div 10)" by (intro less.IH) simp
    moreover have "10 * int (n div 10) + int (n mod 10) = int n" by presburger
    ultimately show ?thesis using False digit_of [of "n mod 10"]
      by (simp add: show_nat.simps [of n] digits_val_snoc)
  qed
qed

lemma parse_show_nat: "int n \<le> int64_max \<Longrightarrow> parse_int64 (show_nat n) = Some (int n)"
proof -
  assume n: "int n \<le> int64_max"
  have d: "list_all is_digit (show_nat n)" "show_nat n \<noteq> []" "digits_val 0 (show_nat n) = int n"
    using show_nat_digits [of n] by auto
  then have "is_digit (hd (show_nat n))" by (cases "show_nat n") auto
  then have "hd (show_nat n) \<noteq> CHR ''-''" "hd (show_nat n) \<noteq> CHR ''+''"
    by (auto simp: is_digit_def less_eq_char_def)
  with d n show ?thesis by (simp add: parse_int64_def Let_def int64_min_def)
qed

section \<open>Properties\<close>

text \<open>
  Reconnecting uses the id the stream wrote. A frame writes the id of its event in decimal; the
  browser sends the last one back, and it parses to the same id. Whatever a client sends instead,
  the id to resume from is never negative.
\<close>

theorem last_event_id_roundtrip:
  "0 \<le> sint id' \<Longrightarrow> parse_last_event_id (show_int (sint id')) = id' \<and> 0 \<le> sint (parse_last_event_id raw)"
proof
  assume id': "0 \<le> sint id'"
  have "sint id' \<le> int64_max" using sint_lt [of id'] by (simp add: int64_max_def)
  then have p: "parse_int64 (show_nat (nat (sint id'))) = Some (sint id')"
    using id' parse_show_nat [of "nat (sint id')"] by simp
  have "show_nat (nat (sint id')) \<noteq> ''''" using show_nat_digits by blast
  with p id' show "parse_last_event_id (show_int (sint id')) = id'"
    by (simp add: parse_last_event_id_def show_int_def)
  show "0 \<le> sint (parse_last_event_id raw)"
  proof (cases "parse_int64 raw")
    case (Some v)
    have "v < 2 ^ 63" using parse_int64_range [OF Some] by (simp add: int64_max_def)
    then have "0 \<le> v \<Longrightarrow> sint (word_of_int v :: 64 word) = v"
      by (simp add: sint_sbintrunc' signed_take_bit_int_eq_self)
    with Some show ?thesis by (simp add: parse_last_event_id_def)
  qed (simp add: parse_last_event_id_def)
qed

theorem last_event_id_roundtrip_witness:
  "parse_last_event_id (show_int (sint (1207 :: 64 word))) = 1207"
  using last_event_id_roundtrip [of "1207 :: 64 word" "''''"] by simp

text \<open>
  C22: a stream of a tenant's events starts only for a user who may list this tenant's releases:
  the subscription is made after the user's own client listed them in the namespace asked for. In
  every other case the watcher is not touched and the answer is 400, 401, 403 or 500.
\<close>

theorem sse_subscription_is_authorized:
  assumes "w_code wr = None" "sse_stream E True flusher req c w wat wr = (w', wat', wr', sub)"
  shows "case sub of
      None \<Rightarrow> wat' = wat \<and> w_code wr' \<in> {Some 400, Some 401, Some 403, Some 500}
    | Some (ch, missed) \<Rightarrow>
        (\<exists>usr cl l. user_from_context c = Some usr \<and> query_get req ''tenant'' \<noteq> '''' \<and>
           user_client E usr = Inr cl \<and>
           k_list cl helm_release_gvr (query_get req ''tenant'') (no_options\<lparr>lo_limit := 1\<rparr>) w = (w', Inr l) \<and>
           subscribe (query_get req ''tenant'') (parse_last_event_id (header_get req ''Last-Event-Id'')) wat =
             (wat', ch, missed) \<and> w_code wr' = Some 200)"
  using assms
  by (auto simp: sse_stream_def Let_def authorize_tenant_def sse_headers_def
      split: option.splits if_splits sum.splits prod.splits)

definition sse_sample_request :: request where
  "sse_sample_request = blank_request\<lparr>r_query := [(''tenant'', ''tenant-a'')],
     r_header := [(''Last-Event-Id'', ''1'')]\<rparr>"

theorem sse_subscription_is_authorized_witness:
  "\<exists>cl l. user_client sample_app_env sample_user = Inr cl \<and>
     snd (k_list cl helm_release_gvr ''tenant-a'' (no_options\<lparr>lo_limit := 1\<rparr>) 0) = Inr l"
proof -
  let ?c = "empty_ctx\<lparr>cx_user := Some sample_user\<rparr>"
  obtain w' wat' wr' sub where r: "sse_stream sample_app_env True True sse_sample_request ?c 0 new_watcher
      (new_writer :: string writer) = (w', wat', wr', sub)"
    by (metis prod_cases4)
  have q: "query_get sse_sample_request ''tenant'' = ''tenant-a''"
    by (simp add: sse_sample_request_def query_get_def mget_or_def)
  have "sub \<noteq> None"
    using r by (auto simp: sse_stream_def Let_def q user_from_context_def authorize_tenant_def sample_client
        sample_kube_def split: prod.splits)
  with sse_subscription_is_authorized [OF new_writer_sel(1) r] q show ?thesis
    by (auto simp: user_from_context_def split: option.splits)
qed

text \<open>
  C21: a stream loses and reorders nothing. Its frames are those of the events it replays followed
  by those it reads until the subscription is closed or its time is up, each event once and in
  order, cut at the first write that fails; only events without a name, and rows that do not
  render, have no frame. Every frame carries the id of its event.
\<close>

theorem sse_frames_complete:
  "stream_frames (write_event render accepts tenant) missed ins =
     takeWhile accepts (List.map_filter (sse_frame_of render tenant) (missed @ read_before_end ins)) \<and>
   (\<forall>evt. sse_frame_of render tenant evt = None \<longleftrightarrow>
      ap_name (we_app evt) = '''' \<or>
      we_type evt \<noteq> WatchEventDeleted \<and> (\<exists>e. render tenant (we_app evt) = Inl e)) \<and>
   (\<forall>evt f. sse_frame_of render tenant evt = Some f \<longrightarrow>
      fr_id f = we_id evt \<and> sm_name (fr_message f) = ap_name (we_app evt))"
proof (intro conjI allI impI)
  show "stream_frames (write_event render accepts tenant) missed ins =
     takeWhile accepts (List.map_filter (sse_frame_of render tenant) (missed @ read_before_end ins))"
    by (rule sse_writer.frames_of_stream)
  show "sse_frame_of render tenant evt = None \<longleftrightarrow> ap_name (we_app evt) = '''' \<or>
      we_type evt \<noteq> WatchEventDeleted \<and> (\<exists>e. render tenant (we_app evt) = Inl e)" for evt
    by (auto simp: sse_frame_of_def build_message_def Let_def split: sum.splits)
  show "fr_id f = we_id evt" "sm_name (fr_message f) = ap_name (we_app evt)"
    if "sse_frame_of render tenant evt = Some f" for evt f
    using that by (auto simp: sse_frame_of_def build_message_def Let_def split: sum.splits if_splits)
qed

definition sse_sample_event :: "string \<Rightarrow> watch_event_type \<Rightarrow> 64 word \<Rightarrow> watch_event" where
  "sse_sample_event name k i =
     \<lparr>we_type = k, we_app = zero_application\<lparr>ap_name := name\<rparr>, we_id = i\<rparr>"

theorem sse_frames_complete_witness:
  "map (\<lambda>f. (fr_id f, sm_name (fr_message f))) (stream_frames
      (write_event (\<lambda>_ _. Inr ''row'') (\<lambda>_. True) ''tenant-a'') [sse_sample_event ''db'' WatchEventModified 4]
      [InEvent (sse_sample_event '''' WatchEventAdded 5), InEvent (sse_sample_event ''web'' WatchEventDeleted 6), InClosed]) =
   [(4, ''db''), (6, ''web'')]"
  unfolding sse_frames_complete [THEN conjunct1]
  by (simp add: sse_sample_event_def sse_frame_of_def build_message_def map_filter_simps Let_def)

text \<open>
  C23: a watch stream shows only what was asked for and allowed. It writes messages only after the
  access review, run with the caller's own configuration, allowed watching exactly the resource in
  exactly the tenant asked for; without timeout; and when the client asked for one application,
  every message comes from an event about an object derived from this application.
\<close>

theorem watch_stream_is_scoped:
  assumes "watch_stream_handler E (watchResourceConfig E render) open_watch accepts flusher req c wr = (wr', msgs)"
    and "m \<in> set msgs"
  shows "\<exists>usr cfg ins obj kind. user_from_context c = Some usr \<and>
    build_user_rest_config (ke_sdk E) (ke_base E) usr (ke_mode E) = Inr cfg \<and>
    query_get req ''tenant'' \<noteq> '''' \<and>
    watch_authorize (ke_sdk E) cfg event_gvr (query_get req ''tenant'') = Inr True \<and>
    open_watch (cfg\<lparr>rc_timeout := 0\<rparr>) event_gvr (query_get req ''tenant'') = Inr ins \<and>
    (kind, Some obj) \<in> set (read_before_end ins) \<and> kind \<in> {KAdded, KModified, KDeleted} \<and>
    wm_name m = u_name (ke_unstr E) obj \<and>
    (query_get req ''object'' \<noteq> '''' \<longrightarrow> name_derived_from_release
       (str_or_empty (u_string (ke_unstr E) obj [''involvedObject'', ''name''])) (query_get req ''object''))"
proof -
  let ?confs = "watchResourceConfig E render"
  obtain usr sreq where v: "validate_stream_request ?confs req c wr = Inr (usr, sreq)"
    using assms by (auto simp: watch_stream_handler_def watch_pump_def split: sum.splits)
  then have u: "user_from_context c = Some usr" "sr_tenant sreq = query_get req ''tenant''"
    "query_get req ''tenant'' \<noteq> ''''" "sr_object sreq = query_get req ''object''"
    "map_of ?confs (path_value req ''resource'') = Some (sr_conf sreq)"
    by (auto simp: validate_stream_request_def Let_def split: option.splits if_splits)
  from u(5) have conf: "wr_gvr (sr_conf sreq) = event_gvr" "wr_render (sr_conf sreq) = render_event_row E render"
    "wr_filter (sr_conf sreq) = Some (filter_event_by_involved_object (ke_unstr E))"
    by (auto simp: watchResourceConfig_def event_gvr_def split: if_splits dest!: sym [of _ "sr_conf sreq"])
  obtain cfg where a: "watch_authorize_request E usr sreq wr = Inr cfg"
    using assms v by (auto simp: watch_stream_handler_def watch_pump_def split: sum.splits if_splits)
  then have cfg: "build_user_rest_config (ke_sdk E) (ke_base E) usr (ke_mode E) = Inr cfg"
    "watch_authorize (ke_sdk E) cfg event_gvr (query_get req ''tenant'') = Inr True"
    using u(2) conf(1) by (auto simp: watch_authorize_request_def split: sum.splits if_splits)
  obtain ins where i: "watch_stream (ke_sdk E) open_watch cfg event_gvr (query_get req ''tenant'') = Inr ins"
    "msgs = pump_events (forward_event accepts sreq) ins"
    using assms v a u(2) conf(1) by (auto simp: watch_stream_handler_def watch_pump_def split: sum.splits if_splits)
  then have o': "open_watch (cfg\<lparr>rc_timeout := 0\<rparr>) event_gvr (query_get req ''tenant'') = Inr ins"
    by (auto simp: watch_stream_def Let_def split: sum.splits)
  have "m \<in> set (List.map_filter (watch_frame_of sreq) (read_before_end ins))"
    using assms(2) unfolding i(2) watch_writer.pump_frames by (rule set_takeWhileD [THEN conjunct1])
  then obtain evt where evt: "evt \<in> set (read_before_end ins)" "watch_frame_of sreq evt = Some m"
    by (auto simp: List.map_filter_def)
  obtain kind ob where k: "evt = (kind, ob)" by fastforce
  from watch_frame_of_Some [OF evt(2)] obtain obj where obj: "ob = Some obj"
    "render_event_row E render obj = Inr (wm_name m, wm_html m)" "sse_op_from_watch_type kind \<noteq> ''''"
    "sr_object sreq \<noteq> '''' \<longrightarrow> filter_event_by_involved_object (ke_unstr E) obj (sr_object sreq)"
    using conf k by auto
  have "wm_name m = u_name (ke_unstr E) obj"
    using obj(2) by (auto simp: render_event_row_def Let_def split: if_splits sum.splits)
  moreover have "kind \<in> {KAdded, KModified, KDeleted}" using obj(3) by (cases kind) auto
  ultimately show ?thesis
    using u cfg o' evt(1) k obj(1,4) unfolding filter_event_by_involved_object_def
    by (intro exI [of _ usr] exI [of _ cfg] exI [of _ ins] exI [of _ obj] exI [of _ kind]) simp
qed

definition watch_sample_request :: request where
  "watch_sample_request = blank_request\<lparr>r_query := [(''tenant'', ''tenant-a''), (''object'', ''db'')],
     r_path_value := [(''resource'', ''events'')]\<rparr>"

definition watch_sample_run :: "string writer \<times> watch_message list" where
  "watch_sample_run = watch_stream_handler sample_app_env (watchResourceConfig sample_app_env (\<lambda>e. Inr (ke_reason e)))
     (\<lambda>_ _ _. Inr [InEvent (KAdded, Some (sample_event ''db2-0'' ''Pulled'')),
        InEvent (KModified, Some (sample_event ''db-0'' ''Killing'')), InClosed]) (\<lambda>_. True) True
     watch_sample_request (empty_ctx\<lparr>cx_user := Some sample_user\<rparr>) new_writer"

theorem watch_stream_is_scoped_witness:
  "\<exists>obj. u_name plain_unstr obj = ''db-0.1'' \<and>
     name_derived_from_release (str_or_empty (u_string plain_unstr obj [''involvedObject'', ''name''])) ''db''"
proof -
  let ?m = "\<lparr>wm_op = ''modified'', wm_name = ''db-0.1'', wm_row_prefix = ''event-row'', wm_html = ''Killing''\<rparr>"
  have "snd watch_sample_run = [?m]" by code_simp
  then obtain w where "watch_sample_run = (w, [?m])" by (metis prod.collapse)
  from watch_stream_is_scoped [OF this [unfolded watch_sample_run_def], of ?m]
  show ?thesis
    by (auto simp: watch_sample_request_def query_get_def mget_or_def sample_app_env_def)
qed

end
