(* ===== verification/Log_Stream.thy ===== *)
theory Log_Stream
  imports Kube_Reads Audit_Log
begin

text \<open>
  \<open>internal/api/ws_logs.go\<close>: the WebSocket that follows the log of a pod. The handshake of
  gorilla/websocket, the URL parser and the log client are arguments. The reader goroutine and the
  writer loop meet in a channel; a run is the list of turns the writer's \<open>select\<close> takes.
\<close>

definition logTailStreamMaxAge :: int where "logTailStreamMaxAge = 30 * 60 * 10 ^ 9"
definition logTailDefault :: int where "logTailDefault = 500"
definition logTailMax :: int where "logTailMax = 5000"

section \<open>The origin check\<close>

text \<open>What \<open>url.Parse\<close> yields: scheme, host name and port.\<close>

type_synonym url_parser = "string \<Rightarrow> (string \<times> string \<times> string) res"

definition normalise_origin_host :: "string \<Rightarrow> string \<Rightarrow> string \<Rightarrow> string" where
  "normalise_origin_host scheme host port =
     (if scheme \<noteq> ''http'' \<and> scheme \<noteq> ''https'' then ''''
      else
        let port' = (if scheme = ''http'' \<and> port = ''80'' \<or> scheme = ''https'' \<and> port = ''443'' then '''' else port)
        in if port' = '''' then host else host @ '':'' @ port')"

text \<open>\<open>net.SplitHostPort\<close>; \<open>None\<close> is any of its errors.\<close>

definition net_split_host_port :: "string \<Rightarrow> (string \<times> string) option" where
  "net_split_host_port s =
     (if CHR '':'' \<notin> set s then None
      else if hd s = CHR ''['' then
        (let t = tl s; host = takeWhile (\<lambda>c. c \<noteq> CHR '']'') t; after = drop (length host + 1) t
         in if CHR '']'' \<notin> set t \<or> CHR ''['' \<in> set t \<or> CHR '']'' \<in> set after \<or> after = '''' then None
            else if hd after \<noteq> CHR '':'' \<or> CHR '':'' \<in> set (tl after) then None
            else Some (host, tl after))
      else
        (let host = takeWhile (\<lambda>c. c \<noteq> CHR '':'') s; port = drop (length host + 1) s
         in if CHR '':'' \<in> set port \<or> CHR ''['' \<in> set s \<or> CHR '']'' \<in> set s then None
            else Some (host, port)))"

definition split_host_port :: "string \<Rightarrow> string \<times> string" where
  "split_host_port raw =
     (if raw = '''' then ('''', '''')
      else case net_split_host_port raw of
        None \<Rightarrow> (trim_suffix (trim_prefix raw ''['') '']'', '''')
      | Some hp \<Rightarrow> hp)"

definition same_origin_only :: "url_parser \<Rightarrow> request \<Rightarrow> bool" where
  "same_origin_only parse req =
     (let origin = header_get req ''Origin'' in
      if origin = '''' then True
      else case parse origin of
        Inl e \<Rightarrow> False
      | Inr (scheme, host, port) \<Rightarrow>
          let originKey = normalise_origin_host scheme host port in
          if originKey = '''' then False
          else (case split_host_port (r_host req) of
              (h, p) \<Rightarrow> originKey = normalise_origin_host scheme h p))"

section \<open>Parameters and outcomes\<close>

definition parse_tail_param :: "string \<Rightarrow> int" where
  "parse_tail_param raw =
     (if raw = '''' then logTailDefault
      else case parse_int64 raw of
        None \<Rightarrow> logTailDefault
      | Some v \<Rightarrow> if v < 0 then logTailDefault else if logTailMax < v then logTailMax else v)"

definition classify_stream_error :: "api_errors \<Rightarrow> gerr \<Rightarrow> outcome" where
  "classify_stream_error A e =
     (if ae_is_forbidden A e \<or> ae_is_unauthorized A e then OutcomeDenied else OutcomeError)"

definition pod_log_event ::
  "string \<Rightarrow> string \<Rightarrow> user_context \<Rightarrow> string \<Rightarrow> string \<Rightarrow> string \<Rightarrow> int \<Rightarrow> outcome \<Rightarrow> string \<Rightarrow> event" where
  "pod_log_event authMode requestID usr tenant pod ct tailLines o' detail =
     \<lparr>ev_time = None, ev_request_id = requestID, ev_actor = uc_username usr, ev_groups = uc_groups usr,
      ev_action = ActionPodLogView, ev_resource = pod, ev_tenant = tenant, ev_outcome = o',
      ev_auth_mode = authMode,
      ev_details = [(''container'', JStr ct), (''tail'', JInt tailLines)] @
        (if detail \<noteq> '''' then [(''error'', JStr detail)] else [])\<rparr>"

section \<open>The pump\<close>

text \<open>
  A read of the log stream gives bytes and possibly the end of the stream or an error. The reader
  hands on every non-empty chunk, also the one that comes with the error.
\<close>

fun read_chunks :: "(string \<times> gerr option) list \<Rightarrow> string list" where
  "read_chunks [] = []"
| "read_chunks ((bytes, err) # rs) =
     (if bytes \<noteq> '''' then [bytes] else []) @ (case err of Some e \<Rightarrow> [] | None \<Rightarrow> read_chunks rs)"

text \<open>The turns of \<open>writeLoop\<close>; the flag tells whether the write succeeded.\<close>

datatype turn = TurnDone | TurnPing bool | TurnChunk bool | TurnReadErr

fun write_loop :: "turn list \<Rightarrow> string list \<Rightarrow> string list" where
  "write_loop [] chunks = []"
| "write_loop (TurnDone # ts) chunks = []"
| "write_loop (TurnPing ok # ts) chunks = (if ok then write_loop ts chunks else [])"
| "write_loop (TurnChunk ok # ts) chunks =
     (case chunks of [] \<Rightarrow> [] | c # cs \<Rightarrow> if ok then c # write_loop ts cs else [])"
| "write_loop (TurnReadErr # ts) chunks = []"


text \<open>The bytes sent in order, the outcome, and its detail.\<close>

definition ws_pump ::
  "'w kenv \<Rightarrow> ((string \<times> gerr option) list) log_api \<Rightarrow> turn list \<Rightarrow> user_context \<Rightarrow> string \<Rightarrow> string \<Rightarrow>
     string \<Rightarrow> int \<Rightarrow> string list \<times> outcome \<times> string" where
  "ws_pump E la turns usr tenant pod ct tailLines =
     (case stream_logs E la usr tenant pod ct tailLines of
        Inl e \<Rightarrow> ([], classify_stream_error (ke_errors E) e, err_text e)
      | Inr reads \<Rightarrow> (write_loop turns (read_chunks reads), OutcomeSuccess, ''''))"

text \<open>
  The handshake: given the origin check, it either answers the request itself and returns an error,
  or it takes the connection over.
\<close>

type_synonym 'p upgrader = "(request \<Rightarrow> bool) \<Rightarrow> request \<Rightarrow> 'p writer \<Rightarrow> ('p writer \<times> gerr) + turn list"

definition ws_stream ::
  "'w kenv \<Rightarrow> ((string \<times> gerr option) list) log_api \<Rightarrow> url_parser \<Rightarrow> 'p upgrader \<Rightarrow> string \<Rightarrow> string \<Rightarrow>
     request \<Rightarrow> ctx \<Rightarrow> 'p writer \<Rightarrow> 'p writer \<times> event list \<times> string list" where
  "ws_stream E la parse upgrade authMode requestID req c wr =
     (case user_from_context c of
        None \<Rightarrow> (api_error 401 ''not authenticated'' wr, [], [])
      | Some usr \<Rightarrow>
          let tenant = query_get req ''tenant''; pod = query_get req ''pod'';
              ct = query_get req ''container''; tailLines = parse_tail_param (query_get req ''tail'');
              audit = pod_log_event authMode requestID usr tenant pod ct tailLines
          in if tenant = '''' \<or> pod = '''' then
               (api_error 400 ''tenant and pod parameters required'' wr,
                [audit OutcomeDenied ''tenant and pod parameters required''], [])
             else (case validate_logs_params tenant pod ct of
                 Some e \<Rightarrow>
                   (api_error 400 ''invalid tenant/pod/container parameter'' wr, [audit OutcomeDenied (err_text e)], [])
               | None \<Rightarrow>
                   (case upgrade (same_origin_only parse) req wr of
                      Inl (wr', e) \<Rightarrow>
                        (wr', [audit OutcomeDenied (''websocket upgrade rejected: '' @ err_text e)], [])
                    | Inr turns \<Rightarrow>
                        (case ws_pump E la turns usr tenant pod ct tailLines of
                           (sent, o', detail) \<Rightarrow> (wr, [audit o' detail], sent)))))"

section \<open>Lemmas\<close>

lemma write_loop_prefix: "\<exists>k. write_loop ts cs = take k cs"
proof (induction ts cs rule: write_loop.induct)
  case (3 ok ts chunks)
  show ?case
  proof (cases ok)
    case True
    with "3.IH" show ?thesis by simp
  qed (auto intro: exI [of _ 0])
next
  case (4 ok ts chunks)
  show ?case
  proof (cases "chunks = [] \<or> \<not> ok")
    case False
    then obtain c cs where c: "chunks = c # cs" "ok" by (cases chunks) auto
    then obtain k where "write_loop ts cs = take k cs" using "4.IH" by auto
    with c show ?thesis by (intro exI [of _ "Suc k"]) simp
  qed (auto intro: exI [of _ 0] split: list.split)
qed (auto intro: exI [of _ 0])

section \<open>Properties\<close>

text \<open>
  C24: log viewing is confined and audited. Every request of an identified user leaves exactly one
  audit event, naming the user, the tenant and the pod. Bytes are sent only when that event records
  success, the names passed the fence, the page comes from the same origin (or no browser sent the
  request), and the user's own configuration opened the log of exactly this pod; and what is sent
  is a prefix of what that log yielded, in order.
\<close>

theorem log_stream_is_confined_and_audited:
  assumes "user_from_context c = Some usr" "ws_stream E la parse upgrade authMode rid req c wr = (wr', evs, sent)"
    and "\<And>check r w. \<not> check r \<Longrightarrow> \<exists>w' e. upgrade check r w = Inl (w', e)"
  shows "\<exists>ev. evs = [ev] \<and> ev_actor ev = uc_username usr \<and> ev_action ev = ActionPodLogView \<and>
    ev_tenant ev = query_get req ''tenant'' \<and> ev_resource ev = query_get req ''pod'' \<and> ev_outcome ev \<noteq> OutcomeUnset \<and>
    (sent \<noteq> [] \<longrightarrow> ev_outcome ev = OutcomeSuccess \<and>
       validate_logs_params (query_get req ''tenant'') (query_get req ''pod'') (query_get req ''container'') = None \<and>
       same_origin_only parse req \<and>
       (\<exists>cfg reads k. build_user_rest_config (ke_sdk E) (ke_base E) usr (ke_mode E) = Inr cfg \<and>
          la_stream la (cfg\<lparr>rc_timeout := 0\<rparr>) (log_request_for [(''follow'', ''true'')] (query_get req ''tenant'')
            (query_get req ''pod'') (query_get req ''container'') (parse_tail_param (query_get req ''tail''))) = Inr reads \<and>
          sent = take k (read_chunks reads)))"
proof -
  let ?t = "query_get req ''tenant''" and ?p = "query_get req ''pod''" and ?c = "query_get req ''container''"
  let ?n = "parse_tail_param (query_get req ''tail'')"
  consider (params) "?t = '''' \<or> ?p = ''''"
    | (invalid) e where "\<not> (?t = '''' \<or> ?p = '''')" "validate_logs_params ?t ?p ?c = Some e"
    | (upgrade) w' e where "\<not> (?t = '''' \<or> ?p = '''')" "validate_logs_params ?t ?p ?c = None"
        "upgrade (same_origin_only parse) req wr = Inl (w', e)"
    | (pump) turns where "\<not> (?t = '''' \<or> ?p = '''')" "validate_logs_params ?t ?p ?c = None"
        "upgrade (same_origin_only parse) req wr = Inr turns"
    by (metis Inl_Inr_False option.exhaust prod.exhaust sum.exhaust)
  then show ?thesis
  proof cases
    case (pump turns)
    then have same: "same_origin_only parse req" using assms(3) [of "same_origin_only parse" req wr] by force
    show ?thesis
    proof (cases "stream_logs E la usr ?t ?p ?c ?n")
      case (Inl e)
      with pump assms(1,2) show ?thesis
        by (auto simp: ws_stream_def Let_def ws_pump_def pod_log_event_def classify_stream_error_def)
    next
      case (Inr reads)
      obtain k where k: "write_loop turns (read_chunks reads) = take k (read_chunks reads)"
        using write_loop_prefix by blast
      from Inr pump assms(1,2) have r: "sent = take k (read_chunks reads)"
        "evs = [pod_log_event authMode rid usr ?t ?p ?c ?n OutcomeSuccess '''']"
        by (auto simp: ws_stream_def Let_def ws_pump_def k)
      from stream_logs_Inr [OF Inr] r pump same show ?thesis
        by (simp add: pod_log_event_def) blast
    qed
  qed (use assms(1,2) in \<open>auto simp: ws_stream_def Let_def pod_log_event_def\<close>)
qed

definition ws_sample_request :: request where
  "ws_sample_request = blank_request\<lparr>r_query := [(''tenant'', ''tenant-a''), (''pod'', ''db-0'')]\<rparr>"

definition ws_sample_logs :: "((string \<times> gerr option) list) log_api" where
  "ws_sample_logs = \<lparr>la_client = (\<lambda>_. None), la_read = (\<lambda>_ _. Inr ''''),
     la_stream = (\<lambda>_ _. Inr [(''one'', None), (''two'', Some (Opaque ''EOF''))])\<rparr>"

definition ws_sample_run :: "string writer \<times> event list \<times> string list" where
  "ws_sample_run = ws_stream sample_app_env ws_sample_logs (\<lambda>_. Inl (Opaque ''bad''))
     (\<lambda>check r w. if check r then Inr [TurnChunk True, TurnPing True, TurnChunk True, TurnChunk True]
        else Inl (w, Opaque ''origin'')) ''token'' ''r1''
     ws_sample_request (empty_ctx\<lparr>cx_user := Some sample_user\<rparr>) new_writer"

theorem log_stream_is_confined_and_audited_witness:
  "snd (snd ws_sample_run) = [''one'', ''two''] \<and> map ev_outcome (fst (snd ws_sample_run)) = [OutcomeSuccess]"
proof -
  have s: "snd (snd ws_sample_run) = [''one'', ''two'']" by code_simp
  then obtain wr' evs where r: "ws_sample_run = (wr', evs, [''one'', ''two''])" by (metis prod.collapse)
  have "user_from_context (empty_ctx\<lparr>cx_user := Some sample_user\<rparr>) = Some sample_user"
    by (simp add: user_from_context_def)
  from log_stream_is_confined_and_audited [OF this r [unfolded ws_sample_run_def]]
  obtain ev where ev: "evs = [ev]" "ev_outcome ev = OutcomeSuccess" by auto
  have "fst (snd ws_sample_run) = [ev]" by (simp only: r ev fst_conv snd_conv)
  with s ev(2) show ?thesis by simp
qed

text \<open>
  The backfill a client can ask for is bounded. Whatever the parameter is, the number of lines
  lies between 0 and 5000; a decimal number in this range is taken as it is, and everything that is
  not a number, or negative, or outside 64 bits, gives 500.
\<close>

theorem tail_is_bounded:
  "0 \<le> parse_tail_param raw \<and> parse_tail_param raw \<le> 5000 \<and>
   (\<forall>v. parse_int64 raw = Some v \<longrightarrow> 0 \<le> v \<longrightarrow> parse_tail_param raw = min v 5000) \<and>
   ((parse_int64 raw = None \<or> (\<exists>v. parse_int64 raw = Some v \<and> v < 0)) \<longrightarrow> parse_tail_param raw = 500)"
  by (auto simp: parse_tail_param_def logTailDefault_def logTailMax_def parse_int64_def Let_def
      split: option.split)

theorem tail_is_bounded_witness: "parse_tail_param ''999999'' = 5000 \<and> parse_tail_param ''-1'' = 500"
proof -
  have "parse_int64 ''999999'' = Some 999999" "parse_int64 ''-1'' = Some (-1)" by code_simp+
  with tail_is_bounded [of "''999999''"] tail_is_bounded [of "''-1''"] show ?thesis by simp
qed

end
