(* ===== verification/Log_Pump.thy ===== *)
theory Log_Pump
  imports Log_Stream
begin

text \<open>
  The goroutines behind one log stream of \<open>ws_logs.go\<close>: \<open>readChunks\<close> reads the log and sends to a
  channel of four chunks, \<open>writeLoop\<close> takes from it and writes to the socket, and
  \<open>watchPeerDisconnect\<close> cancels the context when the peer goes. \<open>Log_Stream\<close> describes what the
  three achieve as one function; here they are interleaved steps, and the function is what they
  are shown to implement.
\<close>

section \<open>State\<close>

definition forwardChanDepth :: nat where "forwardChanDepth = 4"
definition logReadChunk :: nat where "logReadChunk = 4 * 1024"

text \<open>In nanoseconds.\<close>

definition wsPingInterval :: int where "wsPingInterval = 30 * 10 ^ 9"
definition wsWriteDeadline :: int where "wsWriteDeadline = 10 * 10 ^ 9"

text \<open>Reading; handing over a chunk that came with an error or none; reporting an error; returned.\<close>

datatype reader_pc = RReading | RSending string "gerr option" | RReporting gerr | RDone

text \<open>
  In the \<open>select\<close> of \<open>writeLoop\<close>; back in \<open>pump\<close>; after its deferred \<open>stream.Close\<close>; after its deferred
  \<open>cancel\<close>; after the deferred \<open>conn.Close\<close> of \<open>Stream\<close>.
\<close>

datatype writer_pc = WSelect | WReturned | WStreamClosed | WCancelled | WDone

text \<open>
  \<open>lg_todo\<close> is what the reads to come give, \<open>lg_tick\<close> that a tick waits in the channel of the ticker
  and \<open>lg_ticks\<close> how many are still to come; \<open>lg_gone\<close> says that the context was cancelled from
  outside, by the peer or the deadline, and \<open>lg_broken\<close> that a write to the socket failed.
\<close>

record log_pump =
  lg_todo :: "(string \<times> gerr option) list"
  lg_reader :: reader_pc
  lg_bytes :: "string list"
  lg_bytes_closed :: bool
  lg_err :: "gerr option"
  lg_writer :: writer_pc
  lg_tick :: bool
  lg_ticks :: nat
  lg_sent :: "string list"
  lg_watching :: bool
  lg_cancelled :: bool
  lg_stream_closed :: bool
  lg_conn_closed :: bool
  lg_gone :: bool
  lg_broken :: bool

definition forward_bytes :: "nat \<Rightarrow> (string \<times> gerr option) list \<Rightarrow> log_pump" where
  "forward_bytes ticks reads =
     \<lparr>lg_todo = reads, lg_reader = RReading, lg_bytes = [], lg_bytes_closed = False, lg_err = None, lg_writer = WSelect,
      lg_tick = False, lg_ticks = ticks, lg_sent = [], lg_watching = True, lg_cancelled = False, lg_stream_closed = False,
      lg_conn_closed = False, lg_gone = False, lg_broken = False\<rparr>"

text \<open>The errors that \<open>reportReadErr\<close> drops.\<close>

definition ErrEOF :: gerr where "ErrEOF = Sentinel ''EOF''"
definition ErrCanceled :: gerr where "ErrCanceled = Sentinel ''context canceled''"

definition drops_read_err :: "gerr \<Rightarrow> bool" where
  "drops_read_err e \<longleftrightarrow> errors_is e ErrEOF \<or> errors_is e ErrCanceled"

text \<open>Where the loop of \<open>readChunks\<close> goes once a chunk is handed over.\<close>

definition after_read :: "gerr option \<Rightarrow> reader_pc" where
  "after_read err = (case err of None \<Rightarrow> RReading | Some e \<Rightarrow> RReporting e)"

section \<open>Steps\<close>

text \<open>
  \<open>readChunks\<close> with \<open>sendChunkCtx\<close> and \<open>reportReadErr\<close>. A read of a closed stream, or one whose
  context is cancelled, may fail with any error. Returning closes the channel.
\<close>

inductive reader_step :: "log_pump \<Rightarrow> log_pump \<Rightarrow> bool" where
  read: "lg_reader s = RReading \<Longrightarrow> lg_todo s = (bytes, err) # rest \<Longrightarrow> \<not> lg_stream_closed s \<Longrightarrow>
    reader_step s (s\<lparr>lg_todo := rest, lg_reader := (if bytes \<noteq> '''' then RSending bytes err else after_read err)\<rparr>)"
| read_fails: "lg_reader s = RReading \<Longrightarrow> lg_stream_closed s \<or> lg_cancelled s \<Longrightarrow>
    reader_step s (s\<lparr>lg_reader := RReporting e\<rparr>)"
| send_chunk: "lg_reader s = RSending chunk err \<Longrightarrow> length (lg_bytes s) < forwardChanDepth \<Longrightarrow>
    reader_step s (s\<lparr>lg_bytes := lg_bytes s @ [chunk], lg_reader := after_read err\<rparr>)"
| send_given_up: "lg_reader s = RSending chunk err \<Longrightarrow> lg_cancelled s \<Longrightarrow>
    reader_step s (s\<lparr>lg_reader := RDone, lg_bytes_closed := True\<rparr>)"
| err_dropped: "lg_reader s = RReporting e \<Longrightarrow> drops_read_err e \<Longrightarrow>
    reader_step s (s\<lparr>lg_reader := RDone, lg_bytes_closed := True\<rparr>)"
| err_reported: "lg_reader s = RReporting e \<Longrightarrow> \<not> drops_read_err e \<Longrightarrow> lg_err s = None \<Longrightarrow>
    reader_step s (s\<lparr>lg_reader := RDone, lg_bytes_closed := True, lg_err := Some e\<rparr>)"
| err_given_up: "lg_reader s = RReporting e \<Longrightarrow> \<not> drops_read_err e \<Longrightarrow> lg_cancelled s \<Longrightarrow>
    reader_step s (s\<lparr>lg_reader := RDone, lg_bytes_closed := True\<rparr>)"

text \<open>\<open>writeLoop\<close> with \<open>sendChunk\<close>, then the deferred calls up to the end of the request.\<close>

inductive writer_step :: "log_pump \<Rightarrow> log_pump \<Rightarrow> bool" where
  ctx_done: "lg_writer s = WSelect \<Longrightarrow> lg_cancelled s \<Longrightarrow> writer_step s (s\<lparr>lg_writer := WReturned\<rparr>)"
| ping: "lg_writer s = WSelect \<Longrightarrow> lg_tick s \<Longrightarrow> writer_step s (s\<lparr>lg_tick := False\<rparr>)"
| ping_fails: "lg_writer s = WSelect \<Longrightarrow> lg_tick s \<Longrightarrow>
    writer_step s (s\<lparr>lg_tick := False, lg_writer := WReturned, lg_broken := True\<rparr>)"
| write_chunk: "lg_writer s = WSelect \<Longrightarrow> lg_bytes s = chunk # rest \<Longrightarrow>
    writer_step s (s\<lparr>lg_bytes := rest, lg_sent := lg_sent s @ [chunk]\<rparr>)"
| write_fails: "lg_writer s = WSelect \<Longrightarrow> lg_bytes s = chunk # rest \<Longrightarrow>
    writer_step s (s\<lparr>lg_bytes := rest, lg_writer := WReturned, lg_broken := True\<rparr>)"
| bytes_closed: "lg_writer s = WSelect \<Longrightarrow> lg_bytes s = [] \<Longrightarrow> lg_bytes_closed s \<Longrightarrow>
    writer_step s (s\<lparr>lg_writer := WReturned\<rparr>)"
| read_err: "lg_writer s = WSelect \<Longrightarrow> lg_err s \<noteq> None \<Longrightarrow> writer_step s (s\<lparr>lg_writer := WReturned\<rparr>)"
| close_stream: "lg_writer s = WReturned \<Longrightarrow> writer_step s (s\<lparr>lg_writer := WStreamClosed, lg_stream_closed := True\<rparr>)"
| cancel_ctx: "lg_writer s = WStreamClosed \<Longrightarrow> writer_step s (s\<lparr>lg_writer := WCancelled, lg_cancelled := True\<rparr>)"
| close_conn: "lg_writer s = WCancelled \<Longrightarrow> writer_step s (s\<lparr>lg_writer := WDone, lg_conn_closed := True\<rparr>)"

text \<open>\<open>watchPeerDisconnect\<close>: reading a closed connection fails.\<close>

inductive watch_step :: "log_pump \<Rightarrow> log_pump \<Rightarrow> bool" where
  conn_closed: "lg_watching s \<Longrightarrow> lg_conn_closed s \<Longrightarrow> watch_step s (s\<lparr>lg_watching := False, lg_cancelled := True\<rparr>)"

text \<open>
  The world: the ticker fires, the peer goes, the deadline passes. The channel of the ticker has a
  capacity of one: a tick that finds one waiting is dropped, which is no step.
\<close>

inductive world_step :: "log_pump \<Rightarrow> log_pump \<Rightarrow> bool" where
  tick: "lg_writer s = WSelect \<Longrightarrow> lg_ticks s = Suc n \<Longrightarrow> \<not> lg_tick s \<Longrightarrow>
    world_step s (s\<lparr>lg_tick := True, lg_ticks := n\<rparr>)"
| peer_gone: "lg_watching s \<Longrightarrow> world_step s (s\<lparr>lg_watching := False, lg_cancelled := True, lg_gone := True\<rparr>)"
| deadline: "\<not> lg_cancelled s \<Longrightarrow> world_step s (s\<lparr>lg_cancelled := True, lg_gone := True\<rparr>)"

definition pump_step :: "log_pump \<Rightarrow> log_pump \<Rightarrow> bool" where
  "pump_step s s' \<longleftrightarrow> reader_step s s' \<or> writer_step s s' \<or> watch_step s s'"

definition lg_step :: "log_pump \<Rightarrow> log_pump \<Rightarrow> bool" where
  "lg_step s s' \<longleftrightarrow> pump_step s s' \<or> world_step s s'"

inductive_cases reader_stepE: "reader_step s s'"
inductive_cases writer_stepE: "writer_step s s'"
inductive_cases watch_stepE: "watch_step s s'"
inductive_cases world_stepE: "world_step s s'"

section \<open>What is sent\<close>

text \<open>The chunks on their way: in the channel, in the reader's hand, and still to be read.\<close>

definition in_hand :: "log_pump \<Rightarrow> string list" where
  "in_hand s =
     (case lg_reader s of
        RReading \<Rightarrow> read_chunks (lg_todo s)
      | RSending b None \<Rightarrow> b # read_chunks (lg_todo s)
      | RSending b (Some e) \<Rightarrow> [b]
      | _ \<Rightarrow> [])"

definition pump_flags :: "log_pump \<Rightarrow> bool" where
  "pump_flags s \<longleftrightarrow>
     length (lg_bytes s) \<le> forwardChanDepth \<and>
     (lg_cancelled s \<longleftrightarrow> lg_gone s \<or> lg_writer s = WCancelled \<or> lg_writer s = WDone) \<and>
     (lg_stream_closed s \<longleftrightarrow> lg_writer s \<noteq> WSelect \<and> lg_writer s \<noteq> WReturned) \<and>
     (lg_conn_closed s \<longleftrightarrow> lg_writer s = WDone) \<and>
     (lg_bytes_closed s \<longleftrightarrow> lg_reader s = RDone)"

lemma after_read_done [simp]: "after_read err \<noteq> RDone"
  by (simp add: after_read_def split: option.split)

lemma pump_flags_step:
  assumes "lg_step s s'" "pump_flags s"
  shows "pump_flags s'"
proof -
  have "reader_step s s' \<Longrightarrow> pump_flags s'"
    using assms(2) by (elim reader_stepE) (simp_all add: pump_flags_def split: if_split)
  moreover have "writer_step s s' \<Longrightarrow> pump_flags s'"
    using assms(2) by (elim writer_stepE) (simp_all add: pump_flags_def)
  moreover have "watch_step s s' \<Longrightarrow> pump_flags s'"
    using assms(2) by (elim watch_stepE) (simp_all add: pump_flags_def)
  moreover have "world_step s s' \<Longrightarrow> pump_flags s'"
    using assms(2) by (elim world_stepE) (simp_all add: pump_flags_def)
  ultimately show ?thesis using assms(1) by (auto simp: lg_step_def pump_step_def)
qed

text \<open>
  The chunks of the log are those sent, those on their way while the writer is in its loop, and
  those given up, which are none unless the context was cancelled from outside, a write failed or a read
  error was reported.
\<close>

definition undisturbed :: "log_pump \<Rightarrow> bool" where
  "undisturbed s \<longleftrightarrow> \<not> lg_gone s \<and> \<not> lg_broken s \<and> lg_err s = None"

definition accounted :: "string list \<Rightarrow> log_pump \<Rightarrow> string list \<Rightarrow> bool" where
  "accounted cs s lost \<longleftrightarrow>
     cs = lg_sent s @ (if lg_writer s = WSelect then lg_bytes s @ in_hand s else []) @ lost \<and>
     (undisturbed s \<longrightarrow> lost = [])"

lemma in_hand_cong: "lg_reader s' = lg_reader s \<Longrightarrow> lg_todo s' = lg_todo s \<Longrightarrow> in_hand s' = in_hand s"
  by (simp add: in_hand_def cong: reader_pc.case_cong option.case_cong)

lemma accounted_same:
  assumes "accounted cs s lost" "lg_reader s' = lg_reader s" "lg_todo s' = lg_todo s" "lg_bytes s' = lg_bytes s"
    "lg_writer s' = lg_writer s" "lg_sent s' = lg_sent s" "undisturbed s' \<Longrightarrow> undisturbed s"
  shows "accounted cs s' lost"
  using assms in_hand_cong [OF assms(2,3)] by (simp add: accounted_def)

text \<open>The writer leaves its loop: what is on its way is given up.\<close>

lemma accounted_leave:
  assumes "accounted cs s lost" "lg_writer s = WSelect" "lg_writer s' \<noteq> WSelect" "lg_sent s' = lg_sent s"
    "undisturbed s' \<Longrightarrow> undisturbed s \<and> lg_bytes s = [] \<and> in_hand s = []"
  shows "\<exists>lost'. accounted cs s' lost'"
  using assms by (intro exI [of _ "lg_bytes s @ in_hand s @ lost"]) (auto simp: accounted_def)

text \<open>The reader gives up what it holds, or is past its last chunk.\<close>

lemma accounted_give_up:
  assumes "accounted cs s lost" "lg_bytes s' = lg_bytes s" "lg_writer s' = lg_writer s" "lg_sent s' = lg_sent s"
    "in_hand s' = []" "undisturbed s' \<Longrightarrow> undisturbed s \<and> (lg_writer s = WSelect \<longrightarrow> in_hand s = [])"
  shows "\<exists>lost'. accounted cs s' lost'"
  using assms by (intro exI [of _ "if lg_writer s = WSelect then in_hand s @ lost else lost"]) (auto simp: accounted_def)

lemma accounted_reader:
  assumes "reader_step s s'" "pump_flags s" "accounted cs s lost"
  shows "\<exists>lost'. accounted cs s' lost'"
  using assms(1)
proof (rule reader_stepE)
  fix bytes err rest
  assume s: "s' = s\<lparr>lg_todo := rest, lg_reader := if bytes \<noteq> '''' then RSending bytes err else after_read err\<rparr>"
    "lg_reader s = RReading" "lg_todo s = (bytes, err) # rest"
  then have "in_hand s' = in_hand s"
    by (auto simp: in_hand_def after_read_def split: option.splits)
  with s(1) assms(3) have "accounted cs s' lost" by (simp add: accounted_def undisturbed_def)
  then show ?thesis ..
next
  fix chunk err
  assume s: "s' = s\<lparr>lg_bytes := lg_bytes s @ [chunk], lg_reader := after_read err\<rparr>" "lg_reader s = RSending chunk err"
  then have "lg_bytes s' @ in_hand s' = lg_bytes s @ in_hand s"
    by (auto simp: in_hand_def after_read_def split: option.splits)
  with s(1) assms(3) have "accounted cs s' lost" by (simp add: accounted_def undisturbed_def)
  then show ?thesis ..
qed (rule accounted_give_up [OF assms(3)]; use assms(2) in \<open>auto simp: undisturbed_def pump_flags_def in_hand_def\<close>)+

lemma accounted_writer:
  assumes "writer_step s s'" "pump_flags s" "accounted cs s lost"
  shows "\<exists>lost'. accounted cs s' lost'"
  using assms(1)
proof (rule writer_stepE)
  fix chunk rest
  assume s: "s' = s\<lparr>lg_bytes := rest, lg_sent := lg_sent s @ [chunk]\<rparr>" "lg_writer s = WSelect" "lg_bytes s = chunk # rest"
  then have "in_hand s' = in_hand s" by (intro in_hand_cong) simp_all
  with s assms(3) have "accounted cs s' lost" by (simp add: accounted_def undisturbed_def)
  then show ?thesis ..
next
  assume "s' = s\<lparr>lg_tick := False\<rparr>"
  then show ?thesis by (intro exI [of _ lost], intro accounted_same [OF assms(3)]) (auto simp: undisturbed_def)
next
  assume "s' = s\<lparr>lg_writer := WStreamClosed, lg_stream_closed := True\<rparr>" "lg_writer s = WReturned"
  with assms(3) show ?thesis by (intro exI [of _ lost]) (simp add: accounted_def undisturbed_def)
next
  assume "s' = s\<lparr>lg_writer := WCancelled, lg_cancelled := True\<rparr>" "lg_writer s = WStreamClosed"
  with assms(3) show ?thesis by (intro exI [of _ lost]) (simp add: accounted_def undisturbed_def)
next
  assume "s' = s\<lparr>lg_writer := WDone, lg_conn_closed := True\<rparr>" "lg_writer s = WCancelled"
  with assms(3) show ?thesis by (intro exI [of _ lost]) (simp add: accounted_def undisturbed_def)
qed (rule accounted_leave [OF assms(3)]; use assms(2) in \<open>auto simp: undisturbed_def pump_flags_def in_hand_def\<close>)+

lemma accounted_step:
  assumes "lg_step s s'" "pump_flags s" "accounted cs s lost"
  shows "\<exists>lost'. accounted cs s' lost'"
proof -
  have "watch_step s s' \<Longrightarrow> ?thesis"
    by (elim watch_stepE, intro exI [of _ lost], intro accounted_same [OF assms(3)]) (auto simp: undisturbed_def)
  moreover have "world_step s s' \<Longrightarrow> ?thesis"
    by (elim world_stepE; intro exI [of _ lost], intro accounted_same [OF assms(3)]) (auto simp: undisturbed_def)
  ultimately show ?thesis
    using assms accounted_reader accounted_writer by (auto simp: lg_step_def pump_step_def)
qed

lemma pump_reachable:
  assumes "lg_step\<^sup>*\<^sup>* (forward_bytes ticks reads) s"
  shows "pump_flags s \<and> (\<exists>lost. accounted (read_chunks reads) s lost)"
  using assms
proof (induction rule: rtranclp_induct)
  case base
  show ?case by (auto simp: forward_bytes_def pump_flags_def accounted_def undisturbed_def in_hand_def forwardChanDepth_def)
next
  case (step s s')
  then show ?case by (blast intro: pump_flags_step dest: accounted_step)
qed

section \<open>That it ends\<close>

fun reader_left :: "reader_pc \<Rightarrow> nat" where
  "reader_left (RSending b e) = 3"
| "reader_left RReading = 2"
| "reader_left (RReporting e) = 1"
| "reader_left RDone = 0"

fun writer_left :: "writer_pc \<Rightarrow> nat" where
  "writer_left WSelect = 4"
| "writer_left WReturned = 3"
| "writer_left WStreamClosed = 2"
| "writer_left WCancelled = 1"
| "writer_left WDone = 0"

definition pump_left :: "log_pump \<Rightarrow> nat" where
  "pump_left s =
     4 * length (lg_todo s) + 2 * reader_left (lg_reader s) + length (lg_bytes s) + of_bool (lg_tick s) + 2 * lg_ticks s
     + writer_left (lg_writer s) + of_bool (lg_watching s) + of_bool (\<not> lg_cancelled s)"

text \<open>The pump is on its way out.\<close>

definition leaving :: "log_pump \<Rightarrow> bool" where
  "leaving s \<longleftrightarrow> lg_cancelled s \<or> lg_writer s \<noteq> WSelect"

lemma leaving_step:
  assumes "lg_step s s'" "leaving s"
  shows "leaving s' \<and> pump_left s' < pump_left s"
proof -
  have "reader_step s s' \<Longrightarrow> ?thesis"
    using assms(2) by (elim reader_stepE) (auto simp: leaving_def pump_left_def after_read_def split: option.splits)
  moreover have "writer_step s s' \<Longrightarrow> ?thesis"
    using assms(2) by (elim writer_stepE) (auto simp: leaving_def pump_left_def)
  moreover have "watch_step s s' \<Longrightarrow> ?thesis"
    using assms(2) by (elim watch_stepE) (auto simp: leaving_def pump_left_def)
  moreover have "world_step s s' \<Longrightarrow> ?thesis"
    using assms(2) by (elim world_stepE) (auto simp: leaving_def pump_left_def)
  ultimately show ?thesis using assms(1) by (auto simp: lg_step_def pump_step_def)
qed

lemma leaving_run: "(lg_step ^^ n) s s' \<Longrightarrow> leaving s \<Longrightarrow> leaving s' \<and> n + pump_left s' \<le> pump_left s"
proof (induction n arbitrary: s')
  case (Suc n)
  then obtain t where t: "(lg_step ^^ n) s t" "lg_step t s'" by auto
  from Suc.IH [OF t(1) Suc.prems(2)] leaving_step [OF t(2)] show ?case by auto
qed simp

text \<open>Until the three goroutines are gone one of them can go on by itself.\<close>

definition all_returned :: "log_pump \<Rightarrow> bool" where
  "all_returned s \<longleftrightarrow> lg_reader s = RDone \<and> lg_writer s = WDone \<and> \<not> lg_watching s"

lemma leaving_progress:
  assumes "leaving s" "pump_flags s" "\<not> all_returned s"
  shows "\<exists>s'. pump_step s s'"
proof (cases "lg_writer s")
  case WSelect
  with assms(1) show ?thesis by (auto simp: leaving_def pump_step_def intro: writer_step.intros)
next
  case WReturned
  then show ?thesis by (auto simp: pump_step_def intro: writer_step.intros)
next
  case WStreamClosed
  then show ?thesis by (auto simp: pump_step_def intro: writer_step.intros)
next
  case WCancelled
  then show ?thesis by (auto simp: pump_step_def intro: writer_step.intros)
next
  case WDone
  with assms(2) have c: "lg_cancelled s" "lg_conn_closed s" by (auto simp: pump_flags_def)
  show ?thesis
  proof (cases "lg_watching s")
    case True
    with c show ?thesis by (auto simp: pump_step_def intro: watch_step.intros)
  next
    case False
    with WDone assms(3) have "lg_reader s \<noteq> RDone" by (simp add: all_returned_def)
    then show ?thesis
    proof (cases "lg_reader s")
      case (RReporting e)
      with c show ?thesis by (cases "drops_read_err e") (auto simp: pump_step_def intro: reader_step.intros)
    qed (use c in \<open>auto simp: pump_step_def intro: reader_step.intros\<close>)
  qed
qed

section \<open>Properties\<close>

text \<open>
  C26: the interleaved pump implements the function. In every state the goroutines can reach, in
  any interleaving with the ticker, the peer and the deadline, what was sent is a prefix of what
  the log yielded, in order and each chunk once; never more than four chunks wait; and a pump that
  returned without a disturbance (the peer and the deadline left it alone, no write failed and no
  read error was reported) has sent all of it.
\<close>

theorem pump_sends_the_log:
  assumes "lg_step\<^sup>*\<^sup>* (forward_bytes ticks reads) s"
  shows "(\<exists>k. lg_sent s = take k (read_chunks reads)) \<and> length (lg_bytes s) \<le> 4 \<and>
    (lg_writer s \<noteq> WSelect \<longrightarrow> \<not> lg_gone s \<longrightarrow> \<not> lg_broken s \<longrightarrow> lg_err s = None \<longrightarrow> lg_sent s = read_chunks reads)"
proof -
  from pump_reachable [OF assms] obtain lost where
    s: "pump_flags s" "accounted (read_chunks reads) s lost" by blast
  then have "\<exists>k. lg_sent s = take k (read_chunks reads)"
    by (intro exI [of _ "length (lg_sent s)"]) (simp add: accounted_def)
  moreover have "length (lg_bytes s) \<le> 4"
    using s(1) by (simp add: pump_flags_def forwardChanDepth_def)
  moreover have "undisturbed s \<Longrightarrow> lg_writer s \<noteq> WSelect \<Longrightarrow> lg_sent s = read_chunks reads"
    using s(2) by (simp add: accounted_def)
  ultimately show ?thesis by (simp add: undisturbed_def)
qed

theorem pump_sends_the_log_witness:
  "\<exists>s. lg_step\<^sup>*\<^sup>* (forward_bytes 0 [(''one'', Some ErrEOF)]) s \<and> lg_writer s = WReturned \<and> lg_sent s = [''one'']"
proof -
  let ?a = "forward_bytes 0 [(''one'', Some ErrEOF)]"
  let ?b = "?a\<lparr>lg_todo := [], lg_reader := RSending ''one'' (Some ErrEOF)\<rparr>"
  let ?c = "?b\<lparr>lg_bytes := [''one''], lg_reader := RReporting ErrEOF\<rparr>"
  let ?d = "?c\<lparr>lg_reader := RDone, lg_bytes_closed := True\<rparr>"
  let ?e = "?d\<lparr>lg_bytes := [], lg_sent := [''one'']\<rparr>"
  let ?f = "?e\<lparr>lg_writer := WReturned\<rparr>"
  have eof: "drops_read_err ErrEOF" by (simp add: drops_read_err_def ErrEOF_def)
  have "reader_step ?a ?b"
    using reader_step.read [of ?a "''one''" "Some ErrEOF" "[]"] by (simp add: forward_bytes_def)
  moreover have "reader_step ?b ?c"
    using send_chunk [of ?b "''one''" "Some ErrEOF"] by (simp add: forward_bytes_def forwardChanDepth_def after_read_def)
  moreover have "reader_step ?c ?d" by (rule err_dropped [OF _ eof]) simp
  moreover have "writer_step ?d ?e"
    using write_chunk [of ?d "''one''" "[]"] by (simp add: forward_bytes_def)
  moreover have "writer_step ?e ?f" by (rule bytes_closed) (simp_all add: forward_bytes_def)
  ultimately have "lg_step ?a ?b" "lg_step ?b ?c" "lg_step ?c ?d" "lg_step ?d ?e" "lg_step ?e ?f"
    by (simp_all only: lg_step_def pump_step_def simp_thms)
  then have run: "lg_step\<^sup>*\<^sup>* ?a ?f" by (meson rtranclp.rtrancl_into_rtrancl rtranclp.rtrancl_refl)
  from pump_sends_the_log [OF run] have "lg_sent ?f = read_chunks [(''one'', Some ErrEOF)]"
    by (simp add: forward_bytes_def)
  with run show ?thesis by (intro exI [of _ ?f]) simp
qed

text \<open>
  C27: a log stream leaks no goroutine. From every reachable state in which the context is
  cancelled or the writer has left its loop, every run ends after at most as many steps as
  \<open>4 * n + 2 * t + 17\<close>, where \<open>n\<close> counts the reads that still hold data and \<open>t\<close> the ticks still to
  come; and as long as the reader, the
  writer and the watcher of the peer have not all returned, one of them can take a step that needs
  nothing from the peer, the cluster or the clock.
\<close>

theorem pump_leaks_nothing:
  assumes "lg_step\<^sup>*\<^sup>* (forward_bytes ticks reads) s" "lg_cancelled s \<or> lg_writer s \<noteq> WSelect" "(lg_step ^^ n) s s'"
  shows "n \<le> 4 * length (lg_todo s) + 2 * lg_ticks s + 17 \<and>
    (lg_reader s' = RDone \<and> lg_writer s' = WDone \<and> \<not> lg_watching s' \<or> (\<exists>s''. pump_step s' s''))"
proof -
  have "lg_step\<^sup>*\<^sup>* (forward_bytes ticks reads) s'"
    using assms(1,3) by (metis relpowp_imp_rtranclp rtranclp_trans)
  then have "pump_flags s'" using pump_reachable by blast
  moreover have run: "leaving s' \<and> n + pump_left s' \<le> pump_left s"
    by (rule leaving_run [OF assms(3)]) (use assms(2) in \<open>simp add: leaving_def\<close>)
  moreover have "pump_left s \<le> 4 * length (lg_todo s) + 2 * lg_ticks s + 17"
  proof -
    have "length (lg_bytes s) \<le> 4"
      using pump_reachable [OF assms(1)] by (simp add: pump_flags_def forwardChanDepth_def)
    moreover have "reader_left (lg_reader s) \<le> 3" by (cases "lg_reader s") auto
    moreover have "writer_left (lg_writer s) \<le> 4" by (cases "lg_writer s") auto
    ultimately show ?thesis by (simp add: pump_left_def)
  qed
  ultimately show ?thesis using leaving_progress [of s'] by (auto simp: all_returned_def)
qed

text \<open>The deadline passes while the first read is pending: the writer returns, and the pump goes on.\<close>

theorem pump_leaks_nothing_witness:
  "\<exists>s'. (lg_step ^^ 1) (forward_bytes 3 [(''x'', None)]\<lparr>lg_cancelled := True, lg_gone := True\<rparr>) s' \<and>
    lg_writer s' = WReturned \<and> (\<exists>s''. pump_step s' s'')"
proof -
  let ?init = "forward_bytes 3 [(''x'', None)]"
  let ?s = "?init\<lparr>lg_cancelled := True, lg_gone := True\<rparr>"
  have "world_step ?init ?s" using deadline [of ?init] by (simp add: forward_bytes_def)
  then have reach: "lg_step\<^sup>*\<^sup>* ?init ?s" by (auto simp: lg_step_def)
  have "writer_step ?s (?s\<lparr>lg_writer := WReturned\<rparr>)" by (rule ctx_done) (simp_all add: forward_bytes_def)
  then have "lg_step ?s (?s\<lparr>lg_writer := WReturned\<rparr>)" by (simp only: lg_step_def pump_step_def simp_thms)
  then have step: "(lg_step ^^ 1) ?s (?s\<lparr>lg_writer := WReturned\<rparr>)" unfolding relpowp_1 .
  from pump_leaks_nothing [OF reach _ step] have "\<exists>s''. pump_step (?s\<lparr>lg_writer := WReturned\<rparr>) s''"
    by (simp add: forward_bytes_def)
  with step have "(lg_step ^^ 1) ?s (?s\<lparr>lg_writer := WReturned\<rparr>) \<and> lg_writer (?s\<lparr>lg_writer := WReturned\<rparr>) = WReturned \<and>
      (\<exists>s''. pump_step (?s\<lparr>lg_writer := WReturned\<rparr>) s'')" by (intro conjI; (assumption | simp))
  then show ?thesis by (rule exI)
qed

end
