(* ===== verification/Watch_Loop.thy ===== *)
theory Watch_Loop
  imports Watcher
begin

text \<open>
  The goroutine that feeds the watcher: \<open>Start\<close>, \<open>watchLoop\<close>, \<open>sleepCtx\<close> and \<open>processEvents\<close> of
  \<open>internal/k8s/watcher.go\<close>, as a step relation of the loop, the API server at the other end
  of the watch, and the context that may be cancelled at any point. A select with two ready
  cases may take either.
\<close>

section \<open>The loop\<close>

text \<open>In nanoseconds.\<close>

definition watchReconnectDelay :: int where "watchReconnectDelay = 2 * 10 ^ 9"

definition watchLabelSelector :: string where "watchLabelSelector = cozyAppKindLabel"

text \<open>
  An event of the watch: when it is taken, its type, and its object when that is an unstructured
  one.
\<close>

type_synonym watch_item = "int \<times> watch_kind \<times> jobj option"

text \<open>
  Where the loop is: at its top, in the call that opens the watch, taking events off the result
  channel (what is in it, and whether it is closed behind them), in the delay, or returned.
\<close>

datatype loop_pc = LTop | LOpening | LEvents "watch_item list" bool | LSleep | LDone

record watch_loop =
  lp_pc :: loop_pc
  lp_cancelled :: bool
  lp_watcher :: watcher
  lp_opened :: nat
  lp_slept :: nat

definition start :: "watcher \<Rightarrow> gerr option \<Rightarrow> watch_loop res" where
  "start w newForConfig =
     (case newForConfig of
        Some e \<Rightarrow> Inl e
      | None \<Rightarrow> Inr \<lparr>lp_pc = LTop, lp_cancelled = False, lp_watcher = w, lp_opened = 0, lp_slept = 0\<rparr>)"

text \<open>The body of \<open>processEvents\<close> for one event.\<close>

definition process_event :: "'w kenv \<Rightarrow> watch_item \<Rightarrow> watcher \<Rightarrow> watcher" where
  "process_event E item w =
     (case item of (now, kind, object) \<Rightarrow>
        (case object of None \<Rightarrow> w | Some obj \<Rightarrow> handle_event E now kind obj w))"

text \<open>
  The last three rules are the API server's: it delivers and closes, and \<open>Watch\<close> under a cancelled
  context opens and delivers nothing more; what was in the channel stays there.
\<close>

inductive loop_step :: "'w kenv \<Rightarrow> watch_loop \<Rightarrow> watch_loop \<Rightarrow> bool" for E :: "'w kenv" where
  top_done: "lp_pc s = LTop \<Longrightarrow> lp_cancelled s \<Longrightarrow> loop_step E s (s\<lparr>lp_pc := LDone\<rparr>)"
| top_open: "lp_pc s = LTop \<Longrightarrow> \<not> lp_cancelled s \<Longrightarrow> loop_step E s (s\<lparr>lp_pc := LOpening\<rparr>)"
| opened: "lp_pc s = LOpening \<Longrightarrow> \<not> lp_cancelled s \<Longrightarrow>
    loop_step E s (s\<lparr>lp_pc := LEvents [] False, lp_opened := Suc (lp_opened s)\<rparr>)"
| open_failed: "lp_pc s = LOpening \<Longrightarrow> loop_step E s (s\<lparr>lp_pc := LSleep\<rparr>)"
| event: "lp_pc s = LEvents (x # xs) cl \<Longrightarrow>
    loop_step E s (s\<lparr>lp_pc := LEvents xs cl, lp_watcher := process_event E x (lp_watcher s)\<rparr>)"
| events_cancelled: "lp_pc s = LEvents xs cl \<Longrightarrow> lp_cancelled s \<Longrightarrow> loop_step E s (s\<lparr>lp_pc := LSleep\<rparr>)"
| events_closed: "lp_pc s = LEvents [] True \<Longrightarrow> loop_step E s (s\<lparr>lp_pc := LSleep\<rparr>)"
| woken: "lp_pc s = LSleep \<Longrightarrow> loop_step E s (s\<lparr>lp_pc := LTop, lp_slept := Suc (lp_slept s)\<rparr>)"
| sleep_cancelled: "lp_pc s = LSleep \<Longrightarrow> lp_cancelled s \<Longrightarrow> loop_step E s (s\<lparr>lp_pc := LDone\<rparr>)"
| cancel: "\<not> lp_cancelled s \<Longrightarrow> loop_step E s (s\<lparr>lp_cancelled := True\<rparr>)"
| deliver: "lp_pc s = LEvents xs False \<Longrightarrow> \<not> lp_cancelled s \<Longrightarrow> loop_step E s (s\<lparr>lp_pc := LEvents (xs @ [x]) False\<rparr>)"
| close: "lp_pc s = LEvents xs False \<Longrightarrow> loop_step E s (s\<lparr>lp_pc := LEvents xs True\<rparr>)"

inductive_cases loop_stepE: "loop_step E s s'"

section \<open>Lemmas\<close>

text \<open>How many steps are left once the context is cancelled.\<close>

fun steps_left :: "loop_pc \<Rightarrow> nat" where
  "steps_left LDone = 0"
| "steps_left LTop = 1"
| "steps_left LSleep = 2"
| "steps_left LOpening = 3"
| "steps_left (LEvents xs cl) = length xs + (if cl then 3 else 4)"

lemma cancelled_step:
  "loop_step E s s' \<Longrightarrow> lp_cancelled s \<Longrightarrow>
     steps_left (lp_pc s') < steps_left (lp_pc s) \<and> lp_cancelled s' \<and> lp_opened s' = lp_opened s"
  by (erule loop_stepE) auto

lemma cancelled_run:
  "(loop_step E ^^ n) s s' \<Longrightarrow> lp_cancelled s \<Longrightarrow>
     n + steps_left (lp_pc s') \<le> steps_left (lp_pc s) \<and> lp_cancelled s' \<and> lp_opened s' = lp_opened s"
proof (induction n arbitrary: s')
  case (Suc n)
  then obtain t where t: "(loop_step E ^^ n) s t" "loop_step E t s'" by auto
  from Suc.IH [OF t(1) Suc.prems(2)] cancelled_step [OF t(2)] show ?case by auto
qed simp

text \<open>The loop never gets stuck.\<close>

lemma loop_progress: "lp_pc s \<noteq> LDone \<Longrightarrow> \<exists>s'. loop_step E s s'"
proof (cases "lp_pc s")
  case LTop
  then show ?thesis using top_done [of s E] top_open [of s E] by (cases "lp_cancelled s") auto
next
  case LOpening
  then show ?thesis using open_failed [of s E] by auto
next
  case LSleep
  then show ?thesis using woken [of s E] by auto
next
  case (LEvents xs cl)
  then show ?thesis
    using close [of s xs E] events_closed [of s E] loop_step.event [of s "hd xs" "tl xs" cl E]
    by (cases xs; cases cl) auto
qed simp

text \<open>What holds of every state the loop reaches: it returns only when cancelled, and it has slept between any two watches.\<close>

definition loop_inv :: "watch_loop \<Rightarrow> bool" where
  "loop_inv s \<longleftrightarrow>
     (lp_pc s = LDone \<longrightarrow> lp_cancelled s) \<and>
     lp_opened s \<le> lp_slept s + (case lp_pc s of LEvents xs cl \<Rightarrow> 1 | LSleep \<Rightarrow> 1 | LDone \<Rightarrow> 1 | _ \<Rightarrow> 0)"

lemma loop_inv_step: "loop_step E s s' \<Longrightarrow> loop_inv s \<Longrightarrow> loop_inv s'"
  by (erule loop_stepE) (auto simp: loop_inv_def split: loop_pc.splits)

lemma loop_inv_reachable: "(loop_step E)\<^sup>*\<^sup>* s s' \<Longrightarrow> loop_inv s \<Longrightarrow> loop_inv s'"
  by (induction rule: rtranclp_induct) (auto intro: loop_inv_step)

lemma loop_inv_start: "start w e = Inr s \<Longrightarrow> loop_inv s"
  by (auto simp: start_def loop_inv_def split: option.splits)

text \<open>From anywhere but the end, an uncancelled loop can get back to an open watch.\<close>

lemma can_reopen:
  assumes "\<not> lp_cancelled s" "lp_pc s \<noteq> LDone"
  shows "\<exists>s'. (loop_step E)\<^sup>*\<^sup>* s s' \<and> lp_opened s' = Suc (lp_opened s)"
proof -
  have from_call: ?thesis if "(loop_step E)\<^sup>*\<^sup>* s t" "lp_pc t = LOpening" "\<not> lp_cancelled t" "lp_opened t = lp_opened s" for t
    using that opened [of t E] by (intro exI [of _ "t\<lparr>lp_pc := LEvents [] False, lp_opened := Suc (lp_opened t)\<rparr>"]) auto
  have from_top: ?thesis if "(loop_step E)\<^sup>*\<^sup>* s t" "lp_pc t = LTop" "\<not> lp_cancelled t" "lp_opened t = lp_opened s" for t
    using that top_open [of t E] by (intro from_call [of "t\<lparr>lp_pc := LOpening\<rparr>"]) auto
  have from_sleep: ?thesis if "(loop_step E)\<^sup>*\<^sup>* s t" "lp_pc t = LSleep" "\<not> lp_cancelled t" "lp_opened t = lp_opened s" for t
    using that woken [of t E] by (intro from_top [of "t\<lparr>lp_pc := LTop, lp_slept := Suc (lp_slept t)\<rparr>"]) auto
  have drained: "(loop_step E)\<^sup>*\<^sup>* s t \<Longrightarrow> lp_pc t = LEvents xs True \<Longrightarrow> \<not> lp_cancelled t \<Longrightarrow> lp_opened t = lp_opened s \<Longrightarrow> ?thesis" for t xs
  proof (induction xs arbitrary: t)
    case Nil
    then show ?case using events_closed [of t E] by (intro from_sleep [of "t\<lparr>lp_pc := LSleep\<rparr>"]) auto
  next
    case (Cons x xs)
    have "loop_step E t (t\<lparr>lp_pc := LEvents xs True, lp_watcher := process_event E x (lp_watcher t)\<rparr>)"
      by (rule event [OF Cons.prems(2)])
    with Cons.prems(1) have "(loop_step E)\<^sup>*\<^sup>* s (t\<lparr>lp_pc := LEvents xs True, lp_watcher := process_event E x (lp_watcher t)\<rparr>)"
      by (rule rtranclp.rtrancl_into_rtrancl)
    then show ?case by (rule Cons.IH) (use Cons.prems in auto)
  qed
  show ?thesis
  proof (cases "lp_pc s")
    case (LEvents xs cl)
    then have "(loop_step E)\<^sup>*\<^sup>* s (s\<lparr>lp_pc := LEvents xs True\<rparr>)"
      using close [of s xs E] by (cases cl; cases s) auto
    then show ?thesis by (rule drained) (use assms in auto)
  qed (use assms from_top [of s] from_call [of s] from_sleep [of s] in auto)
qed

section \<open>Properties\<close>

text \<open>
  C25: the watch loop runs exactly as long as it should. In every state the started loop can
  reach: unless the context was cancelled it has not returned and can get to a newly opened watch;
  once it was cancelled no further watch is opened, the loop returns after at most four steps more
  than there are events in the channel, and it is never stuck before that. At any time it has slept
  the reconnect delay between every two watches, so a failing API server meets no hot loop.
\<close>

theorem watch_loop_ends_when_cancelled:
  assumes "start w err = Inr s0" and "(loop_step E)\<^sup>*\<^sup>* s0 s"
  shows "lp_opened s \<le> Suc (lp_slept s) \<and>
    (if \<not> lp_cancelled s
     then lp_pc s \<noteq> LDone \<and> (\<exists>s'. (loop_step E)\<^sup>*\<^sup>* s s' \<and> lp_opened s' = Suc (lp_opened s))
     else \<forall>n s'. (loop_step E ^^ n) s s' \<longrightarrow>
       n \<le> 4 + (case lp_pc s of LEvents xs cl \<Rightarrow> length xs | _ \<Rightarrow> 0) \<and> lp_opened s' = lp_opened s \<and>
       (lp_pc s' = LDone \<or> (\<exists>s''. loop_step E s' s'')))"
proof -
  have inv: "loop_inv s" using loop_inv_reachable [OF assms(2) loop_inv_start [OF assms(1)]] .
  have "steps_left (lp_pc s) \<le> 4 + (case lp_pc s of LEvents xs cl \<Rightarrow> length xs | _ \<Rightarrow> 0)"
    by (cases "lp_pc s") auto
  moreover have "lp_opened s \<le> Suc (lp_slept s)"
    using inv by (auto simp: loop_inv_def split: loop_pc.splits)
  ultimately show ?thesis
    using inv can_reopen [of s E] cancelled_run [of _ E s] loop_progress
    by (fastforce simp: loop_inv_def)
qed

theorem watch_loop_ends_when_cancelled_witness:
  "\<exists>s0 s. start new_watcher None = Inr s0 \<and> (loop_step sample_app_env)\<^sup>*\<^sup>* s0 s \<and> lp_cancelled s \<and>
     (\<forall>n s'. (loop_step sample_app_env ^^ n) s s' \<longrightarrow> n \<le> 4)"
proof -
  define s0 where "s0 = \<lparr>lp_pc = LTop, lp_cancelled = False, lp_watcher = new_watcher, lp_opened = 0, lp_slept = 0\<rparr>"
  have s0: "start new_watcher None = Inr s0" by (simp add: start_def s0_def)
  have run: "(loop_step sample_app_env)\<^sup>*\<^sup>* s0 (s0\<lparr>lp_cancelled := True\<rparr>)"
    using cancel [of s0 sample_app_env] by (auto simp: s0_def)
  from watch_loop_ends_when_cancelled [OF s0 run] s0 run show ?thesis
    by (intro exI [of _ s0] exI [of _ "s0\<lparr>lp_cancelled := True\<rparr>"]) (simp add: s0_def)
qed

end
