(* ===== verification/Vm_Actions.thy ===== *)
theory Vm_Actions
  imports Kube_Client
begin

text \<open>
  \<open>internal/actions\<close>: the registry of operations per application kind (\<open>registry.go\<close>), the
  probe that decides which of them a user may invoke (\<open>probe.go\<close>), and the three KubeVirt
  operations it holds (\<open>vm.go\<close>). The clientset of client-go is the record \<open>vm_api\<close>. The
  registry is the state; a panic of \<open>Register\<close> is the left injection.
\<close>

section \<open>registry.go\<close>

record capability =
  cp_group :: string
  cp_resource :: string
  cp_subresource :: string
  cp_verb :: string

definition has_resource :: "capability \<Rightarrow> bool" where
  "has_resource c = (cp_resource c \<noteq> '''')"

text \<open>
  Building a clientset, one access review, and a PUT of a body to the path that the segments
  make.
\<close>

record 'w vm_api =
  va_clientset :: "rest_config \<Rightarrow> gerr option"
  va_review :: "rest_config \<Rightarrow> capability \<Rightarrow> string \<Rightarrow> bool res"
  va_put :: "rest_config \<Rightarrow> string list \<Rightarrow> string \<Rightarrow> 'w \<Rightarrow> 'w \<times> gerr option"

record 'w app_action =
  aa_id :: string
  aa_label_key :: string
  aa_audit_category :: string
  aa_destructive :: bool
  aa_capability :: capability
  aa_target_name :: "(string \<Rightarrow> string) option"
  aa_run :: "'w vm_api \<Rightarrow> rest_config \<Rightarrow> string \<Rightarrow> string \<Rightarrow> 'w \<Rightarrow> 'w \<times> gerr option"

type_synonym 'w registry = "(string, 'w app_action list) gomap"

definition registered :: "'w registry \<Rightarrow> string \<Rightarrow> 'w app_action list" where
  "registered reg kind = mget_or [] reg kind"

definition register :: "string \<Rightarrow> 'w app_action \<Rightarrow> 'w registry \<Rightarrow> string + 'w registry" where
  "register kind act reg =
     (if kind = '''' then Inl ''actions.Register: empty kind''
      else if aa_id act = '''' then Inl ''actions.Register: empty action ID''
      else if aa_id act \<in> set (map aa_id (registered reg kind)) then
        Inl (''actions.Register: duplicate action ID '' @ aa_id act @ '' for kind '' @ kind)
      else Inr (mput kind (registered reg kind @ [act]) reg))"

text \<open>\<open>For\<close> and \<open>Lookup\<close>.\<close>

definition actions_for :: "'w registry \<Rightarrow> string \<Rightarrow> 'w app_action list" where
  "actions_for reg kind = registered reg kind"

definition lookup_action :: "'w registry \<Rightarrow> string \<Rightarrow> string \<Rightarrow> 'w app_action option" where
  "lookup_action reg kind actionID = find (\<lambda>a. aa_id a = actionID) (registered reg kind)"

definition resolve_target_name :: "'w app_action \<Rightarrow> string \<Rightarrow> string" where
  "resolve_target_name a appName =
     (case aa_target_name a of None \<Rightarrow> appName | Some f \<Rightarrow> f appName)"

text \<open>A program registers in sequence and stops at the first panic.\<close>

fun register_all :: "(string \<times> 'w app_action) list \<Rightarrow> 'w registry \<Rightarrow> string + 'w registry" where
  "register_all [] reg = Inr reg"
| "register_all ((kind, a) # rest) reg =
     (case register kind a reg of Inl p \<Rightarrow> Inl p | Inr reg' \<Rightarrow> register_all rest reg')"

section \<open>probe.go\<close>

definition live_allowed :: "'w vm_api \<Rightarrow> rest_config \<Rightarrow> capability \<Rightarrow> string \<Rightarrow> bool res" where
  "live_allowed api cfg cap ns =
     (case va_clientset api cfg of
        Some e \<Rightarrow> Inl (Fmt ''building clientset for SSAR: '' e '''')
      | None \<Rightarrow>
          (case va_review api cfg cap ns of
             Inl e \<Rightarrow> Inl (Fmt (''SSAR for '' @ cp_group cap @ ''/'' @ cp_resource cap @ ''/'' @
                          cp_subresource cap @ '' verb='' @ cp_verb cap @ '': '') e '''')
           | Inr ok \<Rightarrow> Inr ok))"

definition allowed :: "'w vm_api \<Rightarrow> rest_config \<Rightarrow> capability \<Rightarrow> string \<Rightarrow> bool res" where
  "allowed api cfg cap ns = (if \<not> has_resource cap then Inr True else live_allowed api cfg cap ns)"

text \<open>The actions kept, the number of probes that failed, and the first failure.\<close>

definition filter_allowed ::
  "'w vm_api \<Rightarrow> rest_config \<Rightarrow> 'w app_action list \<Rightarrow> string \<Rightarrow> 'w app_action list \<times> nat \<times> gerr option" where
  "filter_allowed api cfg acts ns =
     fold (\<lambda>a (kept, errCount, firstErr).
        case allowed api cfg (aa_capability a) ns of
          Inl e \<Rightarrow> (kept, errCount + 1, case firstErr of None \<Rightarrow> Some e | Some e0 \<Rightarrow> Some e0)
        | Inr ok \<Rightarrow> (if ok then kept @ [a] else kept, errCount, firstErr)) acts ([], 0, None)"

section \<open>vm.go\<close>

definition vmSubresourcePath :: string where "vmSubresourcePath = ''/apis/subresources.kubevirt.io/v1''"
definition vmInstanceReleasePrefix :: string where "vmInstanceReleasePrefix = ''vm-instance-''"

definition vm_instance_target_name :: "string \<Rightarrow> string" where
  "vm_instance_target_name appName = vmInstanceReleasePrefix @ appName"

definition vm_subresource_capability :: "string \<Rightarrow> capability" where
  "vm_subresource_capability verb =
     \<lparr>cp_group = ''subresources.kubevirt.io'', cp_resource = ''virtualmachines'', cp_subresource = verb,
      cp_verb = ''update''\<rparr>"

definition invoke_vm_subresource ::
  "string \<Rightarrow> 'w vm_api \<Rightarrow> rest_config \<Rightarrow> string \<Rightarrow> string \<Rightarrow> 'w \<Rightarrow> 'w \<times> gerr option" where
  "invoke_vm_subresource verb api cfg ns name w =
     (case va_clientset api cfg of
        Some e \<Rightarrow> (w, Some (Fmt ''building clientset: '' e ''''))
      | None \<Rightarrow>
          (case va_put api cfg [vmSubresourcePath, ''namespaces'', ns, ''virtualmachines'', name, verb] ''{}'' w of
             (w', Some e) \<Rightarrow>
               (w', Some (Fmt (''kubevirt '' @ verb @ '' '' @ ns @ ''/'' @ name @ '': '') e ''''))
           | (w', None) \<Rightarrow> (w', None)))"

definition vm_action :: "string \<Rightarrow> string \<Rightarrow> string \<Rightarrow> bool \<Rightarrow> 'w app_action" where
  "vm_action verb labelKey category destructive =
     \<lparr>aa_id = verb, aa_label_key = labelKey, aa_audit_category = category, aa_destructive = destructive,
      aa_capability = vm_subresource_capability verb, aa_target_name = Some vm_instance_target_name,
      aa_run = invoke_vm_subresource verb\<rparr>"

text \<open>The registrations of \<open>init\<close>.\<close>

definition vm_registrations :: "(string \<times> 'w app_action) list" where
  "vm_registrations =
     [(''VMInstance'', vm_action ''start'' ''page.appDetail.action.vmStart'' ''vm.start'' False),
      (''VMInstance'', vm_action ''stop'' ''page.appDetail.action.vmStop'' ''vm.stop'' True),
      (''VMInstance'', vm_action ''restart'' ''page.appDetail.action.vmRestart'' ''vm.restart'' True)]"

definition vm_registry :: "string + 'w registry" where
  "vm_registry = register_all vm_registrations []"

section \<open>Lemmas\<close>

text \<open>What registration keeps: ids are there, and unique within a kind.\<close>

definition well_registered :: "'w registry \<Rightarrow> bool" where
  "well_registered reg \<longleftrightarrow>
     (\<forall>kind. distinct (map aa_id (registered reg kind)) \<and> (\<forall>a\<in>set (registered reg kind). aa_id a \<noteq> '''' \<and> kind \<noteq> ''''))"

lemma registered_Nil [simp]: "registered [] kind = []"
  by (simp add: registered_def mget_or_def)

lemma registered_mput [simp]:
  "registered (mput kind as reg) kind' = (if kind' = kind then as else registered reg kind')"
  by (simp add: registered_def mget_or_def)

lemma register_well: "register kind a reg = Inr reg' \<Longrightarrow> well_registered reg \<Longrightarrow> well_registered reg'"
  by (auto simp: register_def well_registered_def split: if_splits) blast+

lemma register_all_well: "register_all rs reg = Inr reg' \<Longrightarrow> well_registered reg \<Longrightarrow> well_registered reg'"
  by (induction rs reg rule: register_all.induct) (auto dest: register_well split: sum.splits)

lemma well_registered_Nil [simp]: "well_registered []"
  by (simp add: well_registered_def)

lemma register_all_members:
  "register_all rs reg = Inr reg' \<Longrightarrow>
     registered reg' kind = registered reg kind @ map snd (filter (\<lambda>r. fst r = kind) rs)"
proof (induction rs reg rule: register_all.induct)
  case (2 k a rest reg)
  then obtain r1 where r1: "register k a reg = Inr r1" by (cases "register k a reg") auto
  then have "registered r1 kind = registered reg kind @ (if k = kind then [a] else [])"
    by (auto simp: register_def split: if_splits)
  with 2 r1 show ?case by simp
qed simp

lemma find_unique_key:
  "distinct (map key xs) \<Longrightarrow> x \<in> set xs \<Longrightarrow> find (\<lambda>y. key y = key x) xs = Some x"
  by (induction xs) (auto dest: image_eqI [of "key x" key])

lemma vm_registry_ok: "\<exists>reg. vm_registry = Inr (reg :: 'w registry)"
  by (simp add: vm_registry_def vm_registrations_def vm_action_def register_def registered_def mget_or_def)

lemma vm_registry_members:
  assumes "vm_registry = Inr reg"
  shows "registered reg kind = (if kind = ''VMInstance'' then map snd vm_registrations else [])"
  using register_all_members [OF assms [unfolded vm_registry_def], of kind]
  by (auto simp: vm_registrations_def)

lemma filter_allowed_fold:
  "fold (\<lambda>a (kept, errCount, firstErr).
        case allowed api cfg (aa_capability a) ns of
          Inl e \<Rightarrow> (kept, errCount + 1, case firstErr of None \<Rightarrow> Some e | Some e0 \<Rightarrow> Some e0)
        | Inr ok \<Rightarrow> (if ok then kept @ [a] else kept, errCount, firstErr)) acts (kept, n, fe) =
     (kept @ filter (\<lambda>a. allowed api cfg (aa_capability a) ns = Inr True) acts,
      n + length (filter (\<lambda>a. \<exists>e. allowed api cfg (aa_capability a) ns = Inl e) acts),
      case fe of Some e \<Rightarrow> Some e
      | None \<Rightarrow> map_option (\<lambda>a. projl (allowed api cfg (aa_capability a) ns))
          (find (\<lambda>a. \<exists>e. allowed api cfg (aa_capability a) ns = Inl e) acts))"
  by (induction acts arbitrary: kept n fe) (auto split: sum.split option.split)

lemma filter_allowed_eq:
  "filter_allowed api cfg acts ns =
     (filter (\<lambda>a. allowed api cfg (aa_capability a) ns = Inr True) acts,
      length (filter (\<lambda>a. \<exists>e. allowed api cfg (aa_capability a) ns = Inl e) acts),
      map_option (\<lambda>a. projl (allowed api cfg (aa_capability a) ns))
          (find (\<lambda>a. \<exists>e. allowed api cfg (aa_capability a) ns = Inl e) acts))"
  by (simp add: filter_allowed_def filter_allowed_fold)

text \<open>The names that reach the path of a VM operation hold no slash.\<close>

lemma vm_target_no_slash:
  "is_valid_label_value n \<Longrightarrow> CHR ''/'' \<notin> set (vm_instance_target_name n)"
  using label_no_slash [of n] by (simp add: vm_instance_target_name_def vmInstanceReleasePrefix_def)

section \<open>Properties\<close>

text \<open>
  The registry is a table. Whatever sequence of registrations a program makes, if none of
  them panics then every registered action is the one its kind and id look up, ids are never
  empty, and \<open>For\<close> lists the actions of a kind in registration order.
\<close>

theorem registry_is_a_table:
  assumes "register_all rs [] = Inr reg"
  shows "actions_for reg kind = map snd (filter (\<lambda>r. fst r = kind) rs) \<and>
    (\<forall>a. a \<in> set (actions_for reg kind) \<longleftrightarrow> lookup_action reg kind (aa_id a) = Some a) \<and>
    (\<forall>a\<in>set (actions_for reg kind). aa_id a \<noteq> '''' \<and> kind \<noteq> '''')"
proof -
  have well: "well_registered reg" using register_all_well [OF assms] by simp
  then have "distinct (map aa_id (registered reg kind))" by (simp add: well_registered_def)
  then have "a \<in> set (actions_for reg kind) \<longleftrightarrow> lookup_action reg kind (aa_id a) = Some a" for a
    using find_unique_key [of aa_id "registered reg kind" a]
    by (auto simp: actions_for_def lookup_action_def find_Some_iff)
  moreover have "\<forall>a\<in>set (actions_for reg kind). aa_id a \<noteq> '''' \<and> kind \<noteq> ''''"
    using well by (simp add: actions_for_def well_registered_def)
  ultimately show ?thesis using register_all_members [OF assms, of kind]
    by (simp add: actions_for_def)
qed

theorem registry_is_a_table_witness:
  "\<exists>reg. vm_registry = Inr (reg :: nat registry) \<and> map aa_id (actions_for reg ''VMInstance'') = [''start'', ''stop'', ''restart'']"
proof -
  obtain reg where reg: "vm_registry = Inr (reg :: nat registry)" using vm_registry_ok by blast
  have "actions_for reg ''VMInstance'' = map snd (filter (\<lambda>r. fst r = ''VMInstance'') vm_registrations)"
    by (rule registry_is_a_table [OF reg [unfolded vm_registry_def], THEN conjunct1])
  then have ids: "map aa_id (actions_for reg ''VMInstance'') = [''start'', ''stop'', ''restart'']"
    by (simp add: vm_registrations_def vm_action_def)
  show ?thesis by (rule exI, rule conjI [OF reg ids])
qed

text \<open>
  C16: a VM operation does what it was probed for. The registrations of the program do not panic;
  what they leave are start, stop and restart of VM instances; the permission probed for one is
  the update of exactly the subresource its run writes to; and the run on an application with a
  valid name in a tenant with a valid name is at most one call, a PUT of an empty object to
  exactly the machine that the application's release names, with names that hold no slash.
\<close>

theorem vm_actions_run_what_is_probed:
  "\<exists>reg. vm_registry = Inr (reg :: 'w registry) \<and>
     (\<forall>kind i a. lookup_action reg kind i = Some a \<longrightarrow>
        kind = ''VMInstance'' \<and> i \<in> {''start'', ''stop'', ''restart''} \<and>
        aa_capability a = \<lparr>cp_group = ''subresources.kubevirt.io'', cp_resource = ''virtualmachines'',
           cp_subresource = i, cp_verb = ''update''\<rparr> \<and>
        (aa_destructive a \<longleftrightarrow> i \<noteq> ''start'') \<and>
        (\<forall>ns n. is_valid_label_value ns \<longrightarrow> is_valid_label_value n \<longrightarrow>
           CHR ''/'' \<notin> set ns \<and> CHR ''/'' \<notin> set (''vm-instance-'' @ n) \<and>
           (\<forall>api cfg w. va_clientset api cfg = None \<longrightarrow>
              fst (aa_run a api cfg ns (resolve_target_name a n) w) =
              fst (va_put api cfg [''/apis/subresources.kubevirt.io/v1'', ''namespaces'', ns, ''virtualmachines'',
                ''vm-instance-'' @ n, i] ''{}'' w) \<and>
              (snd (aa_run a api cfg ns (resolve_target_name a n) w) = None \<longleftrightarrow>
               snd (va_put api cfg [''/apis/subresources.kubevirt.io/v1'', ''namespaces'', ns, ''virtualmachines'',
                ''vm-instance-'' @ n, i] ''{}'' w) = None))))"
proof -
  obtain reg where reg: "vm_registry = Inr (reg :: 'w registry)" using vm_registry_ok by blast
  have act: "kind = ''VMInstance'' \<and> i \<in> {''start'', ''stop'', ''restart''} \<and>
      (\<exists>l c. a = vm_action i l c (i \<noteq> ''start''))" if "lookup_action reg kind i = Some a" for kind i a
    using that by (auto simp: lookup_action_def vm_registry_members [OF reg] vm_registrations_def vm_action_def
        split: if_splits)
  let ?path = "\<lambda>ns n i. [''/apis/subresources.kubevirt.io/v1'', ''namespaces'', ns, ''virtualmachines'',
    ''vm-instance-'' @ n, i]"
  have run: "aa_capability a = \<lparr>cp_group = ''subresources.kubevirt.io'', cp_resource = ''virtualmachines'',
      cp_subresource = i, cp_verb = ''update''\<rparr>" "aa_destructive a \<longleftrightarrow> i \<noteq> ''start''"
      "va_clientset api cfg = None \<Longrightarrow>
         fst (aa_run a api cfg ns (resolve_target_name a n) w) = fst (va_put api cfg (?path ns n i) ''{}'' w)"
      "va_clientset api cfg = None \<Longrightarrow> snd (aa_run a api cfg ns (resolve_target_name a n) w) = None \<longleftrightarrow>
          snd (va_put api cfg (?path ns n i) ''{}'' w) = None"
    if "a = vm_action i l c (i \<noteq> ''start'')" for a :: "'w app_action" and i l c api cfg ns n w
    by (simp_all add: that vm_action_def vm_subresource_capability_def invoke_vm_subresource_def
        resolve_target_name_def vm_instance_target_name_def vmInstanceReleasePrefix_def vmSubresourcePath_def
        split: option.split prod.split)
  have names: "CHR ''/'' \<notin> set ns" "CHR ''/'' \<notin> set (''vm-instance-'' @ n)"
    if "is_valid_label_value ns" "is_valid_label_value n" for ns n
    using that label_no_slash [of ns] label_no_slash [of n] by simp_all
  show ?thesis
  proof (intro exI [of _ reg] conjI [OF reg] allI impI)
    fix kind i a assume l: "lookup_action reg kind i = Some a"
    from act [OF l] obtain lk c where a: "a = vm_action i lk c (i \<noteq> ''start'')" by blast
    note k = act [OF l, THEN conjunct1] act [OF l, THEN conjunct2, THEN conjunct1]
    show "kind = ''VMInstance'' \<and> i \<in> {''start'', ''stop'', ''restart''} \<and>
        aa_capability a = \<lparr>cp_group = ''subresources.kubevirt.io'', cp_resource = ''virtualmachines'',
           cp_subresource = i, cp_verb = ''update''\<rparr> \<and> (aa_destructive a \<longleftrightarrow> i \<noteq> ''start'') \<and>
        (\<forall>ns n. is_valid_label_value ns \<longrightarrow> is_valid_label_value n \<longrightarrow>
           CHR ''/'' \<notin> set ns \<and> CHR ''/'' \<notin> set (''vm-instance-'' @ n) \<and>
           (\<forall>api cfg w. va_clientset api cfg = None \<longrightarrow>
              fst (aa_run a api cfg ns (resolve_target_name a n) w) = fst (va_put api cfg (?path ns n i) ''{}'' w) \<and>
              (snd (aa_run a api cfg ns (resolve_target_name a n) w) = None \<longleftrightarrow>
               snd (va_put api cfg (?path ns n i) ''{}'' w) = None)))"
      by (intro conjI allI impI) (rule k run [OF a] names; assumption)+
  qed
qed

definition vm_sample_api :: "nat vm_api" where
  "vm_sample_api = \<lparr>va_clientset = (\<lambda>_. None), va_review = (\<lambda>_ _ _. Inr True),
     va_put = (\<lambda>_ path _ n. (n + length path, None))\<rparr>"

theorem vm_actions_run_what_is_probed_witness:
  "\<exists>reg a. vm_registry = Inr (reg :: nat registry) \<and> lookup_action reg ''VMInstance'' ''stop'' = Some a \<and>
     (\<forall>cfg. fst (aa_run a vm_sample_api cfg ''tenant-a'' (resolve_target_name a ''vm1'') 0) = 6)"
proof -
  obtain reg where reg: "vm_registry = Inr (reg :: nat registry)"
    and all: "\<And>kind i a ns n api cfg w. lookup_action reg kind i = Some a \<Longrightarrow> is_valid_label_value ns \<Longrightarrow>
        is_valid_label_value n \<Longrightarrow> va_clientset api cfg = None \<Longrightarrow>
        fst (aa_run a api cfg ns (resolve_target_name a n) w) =
        fst (va_put api cfg [''/apis/subresources.kubevirt.io/v1'', ''namespaces'', ns, ''virtualmachines'',
                ''vm-instance-'' @ n, i] ''{}'' w)"
    using vm_actions_run_what_is_probed by blast
  obtain a where l: "lookup_action reg ''VMInstance'' ''stop'' = Some a"
    by (simp add: lookup_action_def vm_registry_members [OF reg] vm_registrations_def vm_action_def)
  have v: "is_valid_label_value ''tenant-a''" "is_valid_label_value ''vm1''" by code_simp+
  have "fst (aa_run a vm_sample_api cfg ''tenant-a'' (resolve_target_name a ''vm1'') 0) = 6" for cfg
    using all [OF l v, of vm_sample_api cfg 0] by (simp add: vm_sample_api_def)
  with reg l show ?thesis by blast
qed

end
