(* ===== verification/Page_Data.thy ===== *)
theory Page_Data
  imports Kube_Reads Vm_Actions
begin

text \<open>
  What the pages show: the records of \<open>internal/view/viewdata.go\<close> and the pure functions of
  \<open>internal/handler\<close> that fill them from lists the services returned, that is filtering, sorting,
  grouping and the whitelist of kinds (\<open>page.go\<close>, \<open>fragment.go\<close>, \<open>overview.go\<close>).
\<close>

section \<open>viewdata.go\<close>

record dashboard_data =
  db_tenants :: int
  db_apps :: int
  db_ready :: int
  db_failed :: int
  db_recent :: "application list"

record kind_group =
  kg_kind :: string
  kg_apps :: "application list"

record overview_data =
  ov_groups :: "kind_group list"
  ov_total_apps :: int
  ov_total_tenants :: int
  ov_query :: string

record tenant_with_usage =
  tw_tenant :: tenant
  tw_usage :: tenant_usage

record tenants_page_data =
  tsp_tenants :: "tenant_with_usage list"
  tsp_schema :: "app_schema option"
  tsp_overrides :: "(string, form_field_override) gomap"
  tsp_metrics :: bool
  tsp_preselected :: string

record tenant_page_data =
  tpd_tenant :: tenant
  tpd_usage :: tenant_usage
  tpd_quotas :: "quota_entry list"
  tpd_children :: "tenant list"
  tpd_apps :: "application list"
  tpd_truncated :: bool
  tpd_schemas :: "app_schema list"
  tpd_events :: "kube_event list"
  tpd_query :: string
  tpd_kind_filter :: string
  tpd_sort_by :: string
  tpd_create_kind :: string

record 'w app_detail_data =
  adt_app :: application
  adt_tenant :: string
  adt_tab :: string
  adt_events :: "kube_event list"
  adt_pods :: "pod_info list"
  adt_selected_pod :: string
  adt_selected_container :: string
  adt_log_tail :: string
  adt_log_error :: string
  adt_actions :: "'w app_action list"
  adt_node_groups :: "node_group list"

record category_group =
  cg_name :: string
  cg_schemas :: "app_schema list"

record marketplace_data =
  md_schemas :: "app_schema list"
  md_categories :: "category_group list"
  md_tags :: "string list"
  md_query :: string
  md_category_filter :: string
  md_tag_filter :: string

text \<open>\<open>PaletteIndex\<close> and its entries (\<open>internal/api/palette.go\<close>).\<close>

record palette_tenant =
  pt_namespace :: string
  pt_display_name :: string

record palette_app =
  pa_name :: string
  pa_tenant :: string
  pa_kind :: string

record palette_index =
  px_tenants :: "palette_tenant list"
  px_apps :: "palette_app list"
  px_truncated :: "string list"

section \<open>Order of statuses\<close>

text \<open>A status is a string in the source, and sorts as one.\<close>

lemma app_status_text_inj: "app_status_text a = app_status_text b \<longleftrightarrow> a = b"
  by (cases a; cases b) simp_all

instantiation app_status :: linorder
begin

definition less_eq_app_status :: "app_status \<Rightarrow> app_status \<Rightarrow> bool" where
  "less_eq_app_status a b = (app_status_text a \<le> app_status_text b)"

definition less_app_status :: "app_status \<Rightarrow> app_status \<Rightarrow> bool" where
  "less_app_status a b = (app_status_text a < app_status_text b)"

instance
  by standard (auto simp: less_eq_app_status_def less_app_status_def app_status_text_inj less_le)

end

section \<open>Filtering and sorting\<close>

definition matches_query :: "app_schema \<Rightarrow> string \<Rightarrow> bool" where
  "matches_query s query =
     (let q = to_lower query in
      contains (to_lower (sc_kind s)) q \<or> contains (to_lower (sc_display_name s)) q \<or>
      contains (to_lower (sc_description s)) q)"

definition filter_schemas :: "app_schema list \<Rightarrow> string \<Rightarrow> string \<Rightarrow> string \<Rightarrow> app_schema list" where
  "filter_schemas schemas query category tag =
     filter (\<lambda>s. \<not> (category \<noteq> '''' \<and> sc_category s \<noteq> category) \<and>
        \<not> (tag \<noteq> '''' \<and> tag \<notin> set (sc_tags s)) \<and> \<not> (query \<noteq> '''' \<and> \<not> matches_query s query)) schemas"

text \<open>Tags in order of first appearance, then sorted.\<close>

definition collect_tags :: "app_schema list \<Rightarrow> string list" where
  "collect_tags schemas =
     sort_strings (fold (\<lambda>s tags. fold (\<lambda>tag tags. if tag \<in> set tags then tags else tags @ [tag])
        (sc_tags s) tags) schemas [])"

text \<open>
  \<open>m[k] = append(m[k], x)\<close> for every element: the keys stand in order of first appearance, which
  is the list \<open>order\<close> of the source.
\<close>

definition bucket_add :: "('a \<Rightarrow> string) \<Rightarrow> 'a \<Rightarrow> (string, 'a list) gomap \<Rightarrow> (string, 'a list) gomap" where
  "bucket_add key x m = mput (key x) (mget_or [] m (key x) @ [x]) m"

definition bucket_by :: "('a \<Rightarrow> string) \<Rightarrow> 'a list \<Rightarrow> (string, 'a list) gomap" where
  "bucket_by key xs = fold (bucket_add key) xs []"

definition category_of :: "app_schema \<Rightarrow> string" where
  "category_of s = (if sc_category s = '''' then ''Other'' else sc_category s)"

definition group_by_category :: "app_schema list \<Rightarrow> category_group list" where
  "group_by_category schemas =
     (let catMap = bucket_by category_of schemas
      in map (\<lambda>cat. \<lparr>cg_name = cat, cg_schemas = mget_or [] catMap cat\<rparr>) (sort_strings (mkeys catMap)))"

definition build_marketplace_data :: "app_schema list \<Rightarrow> string \<Rightarrow> string \<Rightarrow> string \<Rightarrow> marketplace_data" where
  "build_marketplace_data schemas query categoryFilter tagFilter =
     (let filtered = filter_schemas schemas query categoryFilter tagFilter
      in \<lparr>md_schemas = filtered, md_categories = group_by_category filtered, md_tags = collect_tags schemas,
          md_query = query, md_category_filter = categoryFilter, md_tag_filter = tagFilter\<rparr>)"

definition app_less :: "string \<Rightarrow> application \<Rightarrow> application \<Rightarrow> bool" where
  "app_less sortBy a b =
     (if sortBy = ''kind'' then ap_kind a < ap_kind b
      else if sortBy = ''status'' then ap_status a < ap_status b
      else ap_name a < ap_name b)"

definition filter_and_sort_apps ::
  "application list \<Rightarrow> string \<Rightarrow> string \<Rightarrow> string \<Rightarrow> application list" where
  "filter_and_sort_apps apps query kindFilter sortBy =
     sort_slice (app_less (if sortBy = '''' then ''name'' else sortBy))
       (filter (\<lambda>a. \<not> (kindFilter \<noteq> '''' \<and> ap_kind a \<noteq> kindFilter) \<and>
          \<not> (query \<noteq> '''' \<and> \<not> contains (to_lower (ap_name a)) (to_lower query))) apps)"

definition tenant_name_less :: "application \<Rightarrow> application \<Rightarrow> bool" where
  "tenant_name_less a b =
     (if ap_tenant a \<noteq> ap_tenant b then ap_tenant a < ap_tenant b else ap_name a < ap_name b)"

definition build_overview_data :: "application list \<Rightarrow> int \<Rightarrow> string \<Rightarrow> overview_data" where
  "build_overview_data apps tenantCount query =
     (let byKind = bucket_by ap_kind apps
      in \<lparr>ov_groups = map (\<lambda>kind. \<lparr>kg_kind = kind, kg_apps = sort_slice tenant_name_less (mget_or [] byKind kind)\<rparr>)
             (sort_strings (mkeys byKind)),
          ov_total_apps = int (length apps), ov_total_tenants = tenantCount, ov_query = query\<rparr>)"

section \<open>The whitelist of kinds\<close>

definition createKindQueryParam :: string where "createKindQueryParam = ''createKind''"

definition select_known_kind :: "string \<Rightarrow> app_schema list \<Rightarrow> string" where
  "select_known_kind raw schemas =
     (if raw = '''' then '''' else if raw \<in> set (map sc_kind schemas) then raw else '''')"

definition extract_create_kind_from_query :: "request \<Rightarrow> app_schema list \<Rightarrow> string" where
  "extract_create_kind_from_query req schemas = select_known_kind (query_get req createKindQueryParam) schemas"

definition display_name_for_kind :: "string \<Rightarrow> app_schema list \<Rightarrow> string" where
  "display_name_for_kind kind schemas =
     (if kind = '''' then ''''
      else case find (\<lambda>s. sc_kind s = kind) schemas of None \<Rightarrow> kind | Some s \<Rightarrow> sc_display_name s)"

definition redirect_to_create_kind :: "request \<Rightarrow> string \<Rightarrow> string \<Rightarrow> 'p writer \<Rightarrow> 'p writer" where
  "redirect_to_create_kind req ns kind w =
     (let dest = ''/tenants/'' @ ns @ (if kind \<noteq> '''' then ''?createKind='' @ query_escape kind else '''') in
      if header_get req ''Hx-Request'' \<noteq> '''' then write_header 200 (set_header ''Hx-Redirect'' dest w)
      else http_redirect dest 303 w)"

section \<open>Lemmas\<close>

lemma weak_order_app_less: "weak_order (app_less s)"
proof -
  consider "s = ''kind''" | "s = ''status''" | "s \<noteq> ''kind''" "s \<noteq> ''status''" by blast
  then show ?thesis
    by cases (simp_all add: app_less_def [abs_def] weak_order_key)
qed

lemma weak_order_tenant_name: "weak_order tenant_name_less"
  by (auto simp: weak_order_def tenant_name_less_def split: if_splits)

lemma mget_or_bucket_add:
  "mget_or [] (bucket_add key x m) k = mget_or [] m k @ (if key x = k then [x] else [])"
  by (simp add: bucket_add_def mget_or_def)

lemma bucket_add_keys:
  "distinct (mkeys m) \<Longrightarrow> distinct (mkeys (bucket_add key x m))"
  "set (mkeys (bucket_add key x m)) = insert (key x) (set (mkeys m))"
  unfolding bucket_add_def by (rule distinct_mput, assumption) (rule set_mkeys_mput)

lemma mget_or_bucket_fold:
  "mget_or [] (fold (bucket_add key) xs m) k = mget_or [] m k @ filter (\<lambda>x. key x = k) xs"
  by (induction xs arbitrary: m) (simp_all add: mget_or_bucket_add)

lemma bucket_lookup: "mget_or [] (bucket_by key xs) k = filter (\<lambda>x. key x = k) xs"
  by (simp add: bucket_by_def mget_or_bucket_fold) (simp add: mget_or_def)

lemma bucket_fold_keys:
  "distinct (mkeys m) \<Longrightarrow> distinct (mkeys (fold (bucket_add key) xs m))"
  "set (mkeys (fold (bucket_add key) xs m)) = set (mkeys m) \<union> key ` set xs"
  by (induction xs arbitrary: m) (simp_all add: bucket_add_keys del: set_map)

lemma bucket_keys: "distinct (mkeys (bucket_by key xs))" "set (mkeys (bucket_by key xs)) = key ` set xs"
  using bucket_fold_keys [where m = "[]" and key = key and xs = xs] by (simp_all add: bucket_by_def del: set_map)

text \<open>The buckets together hold every element once.\<close>

lemma mset_buckets:
  "distinct ks \<Longrightarrow> key ` set xs \<subseteq> set ks \<Longrightarrow>
     mset (concat (map (\<lambda>k. filter (\<lambda>x. key x = k) xs) ks)) = mset xs"
proof (induction xs)
  case (Cons x xs)
  then have "key x \<in> set ks" by simp
  then obtain a b where ks: "ks = a @ key x # b" by (meson split_list)
  with Cons.prems have "key x \<notin> set a" "key x \<notin> set b" by auto
  then have ab: "map (\<lambda>k. filter (\<lambda>y. key y = k) (x # xs)) a = map (\<lambda>k. filter (\<lambda>y. key y = k) xs) a"
    "map (\<lambda>k. filter (\<lambda>y. key y = k) (x # xs)) b = map (\<lambda>k. filter (\<lambda>y. key y = k) xs) b"
    by (auto intro!: map_cong)
  from Cons have "mset (concat (map (\<lambda>k. filter (\<lambda>y. key y = k) xs) ks)) = mset xs" by simp
  then show ?case unfolding ks map_append list.map ab by simp
qed simp

lemma distinct_sort_strings: "distinct (sort_strings xs) = distinct xs"
  by (simp add: sort_strings_def)

lemma sorted_distinct_sort_strings: "distinct xs \<Longrightarrow> sorted_wrt (<) (sort_strings xs)"
  by (simp add: strict_sorted_iff distinct_sort_strings)

lemma collect_tags_inner:
  "distinct tags \<Longrightarrow> distinct (fold (\<lambda>tag tags. if tag \<in> set tags then tags else tags @ [tag]) ts tags) \<and>
     set (fold (\<lambda>tag tags. if tag \<in> set tags then tags else tags @ [tag]) ts tags) = set tags \<union> set ts"
  by (induction ts arbitrary: tags) auto

lemma collect_tags_fold:
  "distinct tags \<Longrightarrow> distinct (fold (\<lambda>s tags. fold (\<lambda>tag tags. if tag \<in> set tags then tags else tags @ [tag])
        (sc_tags s) tags) schemas tags) \<and>
     set (fold (\<lambda>s tags. fold (\<lambda>tag tags. if tag \<in> set tags then tags else tags @ [tag])
        (sc_tags s) tags) schemas tags) = set tags \<union> (\<Union>s\<in>set schemas. set (sc_tags s))"
  by (induction schemas arbitrary: tags) (use collect_tags_inner in \<open>auto\<close>)

section \<open>Properties\<close>

text \<open>
  The overview shows every application once. The groups stand in strictly increasing order of
  their kinds; a group holds exactly the applications of its kind, ordered by tenant and then by
  name; together the groups are a rearrangement of the list, whatever order the map of groups is
  iterated in.
\<close>

theorem overview_partitions:
  "sorted_wrt (<) (map kg_kind (ov_groups (build_overview_data apps n q))) \<and>
   (\<forall>g\<in>set (ov_groups (build_overview_data apps n q)).
      mset (kg_apps g) = filter_mset (\<lambda>a. ap_kind a = kg_kind g) (mset apps) \<and> kg_apps g \<noteq> [] \<and>
      sorted_wrt (\<lambda>a b. ap_tenant a < ap_tenant b \<or> ap_tenant a = ap_tenant b \<and> ap_name a \<le> ap_name b) (kg_apps g)) \<and>
   mset (concat (map kg_apps (ov_groups (build_overview_data apps n q)))) = mset apps"
proof -
  let ?kinds = "sort_strings (mkeys (bucket_by ap_kind apps))"
  have kinds: "set ?kinds = ap_kind ` set apps" "distinct ?kinds" "sorted_wrt (<) ?kinds"
    using bucket_keys [of ap_kind apps] sorted_distinct_sort_strings by (simp_all add: distinct_sort_strings del: set_map)
  have groups: "ov_groups (build_overview_data apps n q) =
      map (\<lambda>kind. \<lparr>kg_kind = kind, kg_apps = sort_slice tenant_name_less (filter (\<lambda>a. ap_kind a = kind) apps)\<rparr>) ?kinds"
    by (simp add: build_overview_data_def Let_def bucket_lookup)
  have sorted: "sorted_wrt (\<lambda>a b. ap_tenant a < ap_tenant b \<or> ap_tenant a = ap_tenant b \<and> ap_name a \<le> ap_name b)
      (sort_slice tenant_name_less xs)" for xs
    by (rule sorted_wrt_mono_rel [OF _ sorted_sort_slice [OF weak_order_tenant_name]])
      (auto simp: tenant_name_less_def split: if_splits)
  have sort: "mset (concat (map (\<lambda>k. sort_slice tenant_name_less (f k)) ks)) = mset (concat (map f ks))"
    for f :: "string \<Rightarrow> application list" and ks by (induction ks) simp_all
  have all: "mset (concat (map kg_apps (ov_groups (build_overview_data apps n q)))) = mset apps"
    unfolding groups using kinds(1,2) by (simp add: comp_def sort mset_buckets)
  have "sort_slice tenant_name_less (filter (\<lambda>a. ap_kind a = k) apps) \<noteq> []" if "k \<in> set ?kinds" for k
    using that kinds(1) by (auto simp flip: set_empty simp: filter_empty_conv)
  with sorted kinds(3) all show ?thesis
    unfolding groups by (auto simp: comp_def)
qed

text \<open>
  The application table. Its rows are the applications that pass the two filters, each as
  often as it was listed, and they ascend in the column chosen; an unknown column sorts by name.
\<close>

theorem app_table_rows:
  "mset (filter_and_sort_apps apps query kindFilter sortBy) = filter_mset (\<lambda>a.
     (kindFilter = '''' \<or> ap_kind a = kindFilter) \<and>
     (query = '''' \<or> contains (to_lower (ap_name a)) (to_lower query))) (mset apps) \<and>
   sorted_wrt (\<lambda>a b.
     if sortBy = ''kind'' then ap_kind a \<le> ap_kind b
     else if sortBy = ''status'' then app_status_text (ap_status a) \<le> app_status_text (ap_status b)
     else ap_name a \<le> ap_name b) (filter_and_sort_apps apps query kindFilter sortBy)"
proof
  show "mset (filter_and_sort_apps apps query kindFilter sortBy) = filter_mset (\<lambda>a.
     (kindFilter = '''' \<or> ap_kind a = kindFilter) \<and>
     (query = '''' \<or> contains (to_lower (ap_name a)) (to_lower query))) (mset apps)"
    by (simp add: filter_and_sort_apps_def mset_filter)
  show "sorted_wrt (\<lambda>a b.
     if sortBy = ''kind'' then ap_kind a \<le> ap_kind b
     else if sortBy = ''status'' then app_status_text (ap_status a) \<le> app_status_text (ap_status b)
     else ap_name a \<le> ap_name b) (filter_and_sort_apps apps query kindFilter sortBy)"
    unfolding filter_and_sort_apps_def
    by (rule sorted_wrt_mono_rel [OF _ sorted_sort_slice [OF weak_order_app_less]])
      (auto simp: app_less_def less_app_status_def split: if_splits)
qed

text \<open>
  The marketplace. The catalogue shows exactly the schemas that pass the three filters, once
  each, under their category or under Other; the categories are strictly sorted and never empty;
  and the tags offered are those of all schemas, strictly sorted, whatever the filters are.
\<close>

theorem marketplace_catalogue:
  "sorted_wrt (<) (map cg_name (md_categories (build_marketplace_data schemas q c t))) \<and>
   mset (concat (map cg_schemas (md_categories (build_marketplace_data schemas q c t)))) =
     filter_mset (\<lambda>s. (c = '''' \<or> sc_category s = c) \<and> (t = '''' \<or> t \<in> set (sc_tags s)) \<and>
        (q = '''' \<or> matches_query s q)) (mset schemas) \<and>
   (\<forall>g\<in>set (md_categories (build_marketplace_data schemas q c t)). cg_schemas g \<noteq> [] \<and>
      (\<forall>s\<in>set (cg_schemas g). category_of s = cg_name g)) \<and>
   sorted_wrt (<) (md_tags (build_marketplace_data schemas q c t)) \<and>
   set (md_tags (build_marketplace_data schemas q c t)) = (\<Union>s\<in>set schemas. set (sc_tags s))"
proof -
  let ?f = "filter_schemas schemas q c t"
  let ?cats = "sort_strings (mkeys (bucket_by category_of ?f))"
  have cats: "set ?cats = category_of ` set ?f" "distinct ?cats" "sorted_wrt (<) ?cats"
    using bucket_keys [of category_of ?f] sorted_distinct_sort_strings
    by (simp_all add: distinct_sort_strings del: set_map)
  have groups: "md_categories (build_marketplace_data schemas q c t) =
      map (\<lambda>cat. \<lparr>cg_name = cat, cg_schemas = filter (\<lambda>s. category_of s = cat) ?f\<rparr>) ?cats"
    by (simp add: build_marketplace_data_def group_by_category_def Let_def bucket_lookup)
  have "mset (concat (map cg_schemas (md_categories (build_marketplace_data schemas q c t)))) = mset ?f"
    unfolding groups using cats by (simp add: comp_def mset_buckets)
  also have "\<dots> = filter_mset (\<lambda>s. (c = '''' \<or> sc_category s = c) \<and> (t = '''' \<or> t \<in> set (sc_tags s)) \<and>
      (q = '''' \<or> matches_query s q)) (mset schemas)"
    by (simp add: filter_schemas_def mset_filter)
  finally have all: "mset (concat (map cg_schemas (md_categories (build_marketplace_data schemas q c t)))) = \<dots>" .
  have "filter (\<lambda>s. category_of s = k) ?f \<noteq> []" if "k \<in> set ?cats" for k
    using that cats(1) by (auto simp: filter_empty_conv)
  moreover have "md_tags (build_marketplace_data schemas q c t) = collect_tags schemas"
    by (simp add: build_marketplace_data_def Let_def)
  moreover have "sorted_wrt (<) (collect_tags schemas)" "set (collect_tags schemas) = (\<Union>s\<in>set schemas. set (sc_tags s))"
    using collect_tags_fold [of "[]" schemas] sorted_distinct_sort_strings by (simp_all add: collect_tags_def)
  ultimately show ?thesis using all cats(3) unfolding groups by (auto simp: comp_def)
qed

end
