(* ===== verification/Page_Core.thy ===== *)
theory Page_Core
  imports Page_Data Audit_Log
begin

text \<open>
  What the page handlers of \<open>internal/handler\<close> share: the state they act on, the request as a
  handler receives it, and the helpers every one of them calls (\<open>middleware.go\<close> and the end of
  \<open>page.go\<close>, the toasts of \<open>crud.go\<close>). A handler is a function from the writer and the state to
  both. The state is the cluster, the schema cache and the audit log; all of a handler's effects
  are changes to it or to the writer. Templates are arguments only in so far as their data is
  what \<open>BPage\<close> records; a template that fails to render is logged and leaves a truncated body.
\<close>

section \<open>State\<close>

record 'w hstate =
  hs_world :: 'w
  hs_cache :: schema_cache
  hs_audit :: "event list"

text \<open>
  A request as a handler sees it: what the router matched, the context of the middlewares
  (identity, mode, correlation id, localizer), the clock, and for the JSON API the value the
  JSON parser finds in the body (\<open>None\<close> is a nil body; the error includes a body beyond the limit).
\<close>

type_synonym localizer = "string \<Rightarrow> (string, string) gomap \<Rightarrow> string"

record inbound =
  in_req :: request
  in_ctx :: ctx
  in_request_id :: string
  in_localizer :: "localizer option"
  in_now :: int
  in_body :: "jval res option"

text \<open>
  \<open>PageHandler\<close>: the services share one environment; the optional services are flags. Of the
  libraries it needs \<open>sigs.k8s.io/yaml\<close> in both directions and \<open>strconv.ParseFloat\<close>.
\<close>

record 'w page_handler =
  ph_kube :: "'w kenv"
  ph_quant :: quantities
  ph_logs :: "string log_api"
  ph_vm :: "'w vm_api"
  ph_registry :: "'w registry"
  ph_has_form_defs :: bool
  ph_has_capi :: bool
  ph_yaml :: "string \<Rightarrow> jobj res"
  ph_yaml_text :: "jobj \<Rightarrow> string res"
  ph_parse_float :: "string \<Rightarrow> 64 word option"

section \<open>What is rendered\<close>

type_synonym overrides = "(string, form_field_override) gomap"

text \<open>The values the JSON API encodes.\<close>

datatype json_payload =
    JTenants "tenant list"
  | JTenant tenant
  | JApps application_list
  | JApp application
  | JSchemas "app_schema list"
  | JSchema app_schema
  | JPalette palette_index

text \<open>\<open>layout.App\<close> and \<open>partial.SidebarOOB\<close> take the tenants and what is active.\<close>

datatype 'w page_view =
    VLayout string "tenant list" string string "'w page_view"
  | VSidebar "tenant list" string string
  | VError int string string string
  | VDashboard dashboard_data
  | VOverview overview_data
  | VMarketplace marketplace_data
  | VMarketplaceGrid marketplace_data
  | VLaunchModal string string "tenant list"
  | VProfile user_context auth_mode
  | VTenants tenants_page_data
  | VTenant tenant_page_data
  | VAppDetail "'w app_detail_data"
  | VAppTableRows string "application list"
  | VSchemaFields app_schema jobj overrides
  | VAppEditModal string application "app_schema option" jobj string string overrides
  | VTenantEditModal tenant "app_schema option" jobj string overrides
  | VJson json_payload

type_synonym 'w page_writer = "'w page_view writer"
type_synonym 'w handler = "'w page_writer \<Rightarrow> 'w hstate \<Rightarrow> 'w hstate \<times> 'w page_writer"

section \<open>Calls into the services\<close>

definition call_kop :: "('w, 'a) kop \<Rightarrow> 'w hstate \<Rightarrow> 'w hstate \<times> 'a res" where
  "call_kop m s = (case m (hs_world s) of (w, r) \<Rightarrow> (s\<lparr>hs_world := w\<rparr>, r))"

definition call_schema ::
  "'w page_handler \<Rightarrow> inbound \<Rightarrow> user_context \<Rightarrow> string \<Rightarrow> 'w hstate \<Rightarrow> 'w hstate \<times> app_schema res" where
  "call_schema ph inb usr kind s =
     (case schema_get (ph_kube ph) (in_now inb) usr kind (hs_cache s) (hs_world s) of
        (cache, w, r) \<Rightarrow> (s\<lparr>hs_cache := cache, hs_world := w\<rparr>, r))"

definition call_app_get ::
  "'w page_handler \<Rightarrow> inbound \<Rightarrow> user_context \<Rightarrow> string \<Rightarrow> string \<Rightarrow> 'w hstate \<Rightarrow> 'w hstate \<times> application res" where
  "call_app_get ph inb usr tenant name s =
     (case app_get (ph_kube ph) (in_now inb) usr tenant name (hs_cache s) (hs_world s) of
        (cache, w, r) \<Rightarrow> (s\<lparr>hs_cache := cache, hs_world := w\<rparr>, r))"

text \<open>An error leaves the default: an empty list, a missing schema.\<close>

definition or_else :: "'a \<Rightarrow> 'a res \<Rightarrow> 'a" where
  "or_else d r = (case r of Inl e \<Rightarrow> d | Inr x \<Rightarrow> x)"

lemma or_else_simps [simp]: "or_else d (Inl e) = d" "or_else d (Inr x) = x"
  by (simp_all add: or_else_def)

section \<open>middleware.go\<close>

definition require_user ::
  "inbound \<Rightarrow> (user_context \<Rightarrow> 'w handler) \<Rightarrow> 'w handler" where
  "require_user inb next' w s =
     (case user_from_context (in_ctx inb) of
        None \<Rightarrow> (s, http_error ''unauthorized'' 401 w)
      | Some usr \<Rightarrow> next' usr w s)"

section \<open>page.go and crud.go: helpers\<close>

definition translate :: "inbound \<Rightarrow> string \<Rightarrow> (string, string) gomap \<Rightarrow> string" where
  "translate inb messageID data =
     (case in_localizer inb of None \<Rightarrow> ''['' @ messageID @ '']'' | Some t \<Rightarrow> t messageID data)"

definition audit_event ::
  "inbound \<Rightarrow> user_context \<Rightarrow> action \<Rightarrow> string \<Rightarrow> string \<Rightarrow> outcome \<Rightarrow> (string, jval) gomap \<Rightarrow> event" where
  "audit_event inb usr act resource tenant o' details =
     \<lparr>ev_time = None, ev_request_id = in_request_id inb, ev_actor = uc_username usr, ev_groups = uc_groups usr,
      ev_action = act, ev_resource = resource, ev_tenant = tenant, ev_outcome = o',
      ev_auth_mode = cx_mode (in_ctx inb), ev_details = details\<rparr>"

definition record_audit ::
  "inbound \<Rightarrow> user_context \<Rightarrow> action \<Rightarrow> string \<Rightarrow> string \<Rightarrow> outcome \<Rightarrow> (string, jval) gomap \<Rightarrow> 'w hstate \<Rightarrow> 'w hstate" where
  "record_audit inb usr act resource tenant o' details s =
     s\<lparr>hs_audit := hs_audit s @ [audit_event inb usr act resource tenant o' details]\<rparr>"

definition html_type :: "'p writer \<Rightarrow> 'p writer" where
  "html_type w = set_header ''Content-Type'' ''text/html; charset=utf-8'' w"

definition is_htmx :: "inbound \<Rightarrow> bool" where
  "is_htmx inb = (header_get (in_req inb) ''Hx-Request'' \<noteq> '''')"

definition render_error_toast :: "string \<Rightarrow> 'p writer \<Rightarrow> 'p writer" where
  "render_error_toast msg w =
     write_body (BToast ''error'' msg) (html_type (set_header ''Hx-Reswap'' ''none'' w))"

definition emit_success_toast :: "string \<Rightarrow> 'p writer \<Rightarrow> 'p writer" where
  "emit_success_toast msg w = write_body (BToast ''success'' msg) (html_type w)"

definition render_page ::
  "inbound \<Rightarrow> string \<Rightarrow> tenant list \<Rightarrow> string \<Rightarrow> string \<Rightarrow> 'w page_view \<Rightarrow> 'w page_writer \<Rightarrow> 'w page_writer" where
  "render_page inb username tenants activePage activeTenant content w =
     (let w' = html_type w in
      if is_htmx inb then
        write_body (BPage (VSidebar tenants activePage activeTenant)) (write_body (BPage content) w')
      else write_body (BPage (VLayout username tenants activePage activeTenant content)) w')"

text \<open>\<open>renderError\<close>; the status text of \<open>net/http\<close> follows from the status.\<close>

definition render_error ::
  "inbound \<Rightarrow> string \<Rightarrow> tenant list \<Rightarrow> int \<Rightarrow> string \<Rightarrow> string \<Rightarrow> 'w page_writer \<Rightarrow> 'w page_writer" where
  "render_error inb username tenants status title detail w =
     (let w' = write_header status (html_type w);
          backLabel = (case in_localizer inb of
             None \<Rightarrow> ''Back to dashboard'' | Some t \<Rightarrow> t ''action.backToDashboard'' []);
          content = VError status title detail backLabel
      in if is_htmx inb then write_body (BPage content) w'
         else write_body (BPage (VLayout username tenants '''' '''' content)) w')"

definition resolve_form_overrides ::
  "'w page_handler \<Rightarrow> user_context \<Rightarrow> string \<Rightarrow> 'w hstate \<Rightarrow> 'w hstate \<times> overrides" where
  "resolve_form_overrides ph usr kind s =
     (if \<not> ph_has_form_defs ph \<or> kind = '''' then (s, [])
      else
        let E = ph_kube ph in
        (case call_kop (get_overrides_for_kind (ke_unstr E) (ke_sdk E) (ke_base E) (ke_mode E) usr kind) s of
           (s', Inl e) \<Rightarrow> (s', [])
         | (s', Inr raw) \<Rightarrow> (s', overrides_by_path raw)))"

section \<open>What the handlers keep\<close>

text \<open>
  \<open>audits s es s'\<close>: a step from \<open>s\<close> to \<open>s'\<close> records exactly the events \<open>es\<close>, in order.
\<close>

definition audits :: "'w hstate \<Rightarrow> event list \<Rightarrow> 'w hstate \<Rightarrow> bool" where
  "audits s es s' \<longleftrightarrow> hs_audit s' = hs_audit s @ es"

named_theorems audit_steps "what the steps of the handlers record"

lemma audits_refl [audit_steps]: "audits s [] s"
  by (simp add: audits_def)

lemma audits_trans: "audits s es s' \<Longrightarrow> audits s' es' s'' \<Longrightarrow> audits s (es @ es') s''"
  by (simp add: audits_def)

lemma audits_silent: "audits s [] s' \<Longrightarrow> audits s' es s'' \<Longrightarrow> audits s es s''"
  by (simp add: audits_def)

lemma hs_audit_call_kop [simp]: "hs_audit (fst (call_kop m s)) = hs_audit s"
  by (simp add: call_kop_def split: prod.split)

lemma hs_audit_call_schema [simp]: "hs_audit (fst (call_schema ph inb usr kind s)) = hs_audit s"
  by (simp add: call_schema_def split: prod.split)

lemma hs_audit_call_app_get [simp]: "hs_audit (fst (call_app_get ph inb usr t n s)) = hs_audit s"
  by (simp add: call_app_get_def split: prod.split)

text \<open>Rules that use a call's equation, as the case splits of the handlers leave it.\<close>

lemma call_kop_keeps: "call_kop m s = (s', r) \<Longrightarrow> hs_audit s' = hs_audit s \<and> hs_cache s' = hs_cache s"
  by (auto simp: call_kop_def split: prod.splits)

lemma hs_audit_overrides [simp]: "hs_audit (fst (resolve_form_overrides ph usr kind s)) = hs_audit s"
  by (auto simp: resolve_form_overrides_def Let_def split: prod.split sum.split dest!: call_kop_keeps)

lemma hs_audit_record [simp]:
  "hs_audit (record_audit inb usr act resource tenant o' details s) =
     hs_audit s @ [audit_event inb usr act resource tenant o' details]"
  by (simp add: record_audit_def)

lemma record_audit_sel [simp]:
  "hs_world (record_audit inb usr act resource tenant o' details s) = hs_world s"
  "hs_cache (record_audit inb usr act resource tenant o' details s) = hs_cache s"
  by (simp_all add: record_audit_def)

lemma call_schema_keeps: "call_schema ph inb usr kind s = (s', r) \<Longrightarrow> hs_audit s' = hs_audit s"
  by (auto simp: call_schema_def split: prod.splits)

lemma call_app_get_keeps: "call_app_get ph inb usr t n s = (s', r) \<Longrightarrow> hs_audit s' = hs_audit s"
  by (auto simp: call_app_get_def split: prod.splits)

lemma overrides_keeps: "resolve_form_overrides ph usr kind s = (s', r) \<Longrightarrow> hs_audit s' = hs_audit s"
  using hs_audit_overrides [of ph usr kind s] by simp

lemmas calls_keep = call_kop_keeps call_schema_keeps call_app_get_keeps overrides_keeps

text \<open>
  The contract of a handler: a request without an identity is refused, with the answer \<open>deny\<close>, and
  changes nothing; one with an identity appends to the audit log only events of this user, of the
  handler's actions, with an outcome and the correlation id of the request.
\<close>

definition own_event :: "inbound \<Rightarrow> user_context \<Rightarrow> action set \<Rightarrow> event \<Rightarrow> bool" where
  "own_event inb usr acts ev \<longleftrightarrow>
     ev_actor ev = uc_username usr \<and> ev_groups ev = uc_groups usr \<and> ev_action ev \<in> acts \<and>
     ev_outcome ev \<noteq> OutcomeUnset \<and> ev_request_id ev = in_request_id inb"

lemma own_audit_event [simp]:
  "own_event inb usr acts (audit_event inb usr act r t o' d) \<longleftrightarrow> act \<in> acts \<and> o' \<noteq> OutcomeUnset"
  by (simp add: own_event_def audit_event_def)

locale guarded_operation =
  fixes op :: "'w page_handler \<Rightarrow> inbound \<Rightarrow> 'w handler"
    and deny :: "'w page_writer \<Rightarrow> 'w page_writer"
    and acts :: "action set"
  assumes anonymous: "user_from_context (in_ctx inb) = None \<Longrightarrow> op ph inb w s = (s, deny w)"
    and own_events: "user_from_context (in_ctx inb) = Some usr \<Longrightarrow>
      \<exists>es. audits s es (fst (op ph inb w s)) \<and> (\<forall>ev\<in>set es. own_event inb usr acts ev)"
begin

text \<open>Requests one after the other, each with a writer of its own.\<close>

fun serve_all :: "'w page_handler \<Rightarrow> inbound list \<Rightarrow> 'w hstate \<Rightarrow> 'w hstate" where
  "serve_all ph [] s = s"
| "serve_all ph (inb # inbs) s = serve_all ph inbs (fst (op ph inb new_writer s))"

lemma serve_all_events:
  "\<exists>es. audits s es (serve_all ph inbs s) \<and>
     (\<forall>ev\<in>set es. \<exists>inb\<in>set inbs. \<exists>usr. user_from_context (in_ctx inb) = Some usr \<and> own_event inb usr acts ev)"
proof (induction inbs arbitrary: s)
  case Nil
  show ?case by (intro exI [of _ "[]"]) (simp add: audits_def)
next
  case (Cons inb inbs)
  let ?s = "fst (op ph inb new_writer s)"
  have "\<exists>es. audits s es ?s \<and>
      (\<forall>ev\<in>set es. \<exists>usr. user_from_context (in_ctx inb) = Some usr \<and> own_event inb usr acts ev)"
  proof (cases "user_from_context (in_ctx inb)")
    case None
    then show ?thesis by (intro exI [of _ "[]"]) (simp add: anonymous audits_def)
  next
    case (Some usr)
    with own_events [OF Some] show ?thesis by blast
  qed
  then obtain e1 where e1: "audits s e1 ?s"
    "\<forall>ev\<in>set e1. \<exists>usr. user_from_context (in_ctx inb) = Some usr \<and> own_event inb usr acts ev" by blast
  from Cons.IH [of ?s] obtain e2 where e2: "audits ?s e2 (serve_all ph inbs ?s)"
    "\<forall>ev\<in>set e2. \<exists>inb\<in>set inbs. \<exists>usr. user_from_context (in_ctx inb) = Some usr \<and> own_event inb usr acts ev" by blast
  from audits_trans [OF e1(1) e2(1)] e1(2) e2(2) show ?case
    by (intro exI [of _ "e1 @ e2"]) auto
qed

end

text \<open>A page handler refuses in plain text.\<close>

locale page_operation = guarded_operation op "http_error ''unauthorized'' 401" acts
  for op :: "'w page_handler \<Rightarrow> inbound \<Rightarrow> 'w handler" and acts :: "action set"

text \<open>A page handler that records nothing.\<close>

locale silent_operation =
  fixes op :: "'w page_handler \<Rightarrow> inbound \<Rightarrow> 'w handler"
  assumes unidentified: "user_from_context (in_ctx inb) = None \<Longrightarrow> op ph inb w s = (s, http_error ''unauthorized'' 401 w)"
    and silent: "hs_audit (fst (op ph inb w s)) = hs_audit s"

sublocale silent_operation \<subseteq> page_operation op "{}"
  by unfold_locales (auto simp: unidentified audits_def silent)

text \<open>The writers of this theory on the parts a property speaks of.\<close>

lemma html_type_sel [simp]:
  "w_code (html_type w) = w_code w" "w_body (html_type w) = w_body w"
  "sent_header (html_type w) k = (if k = ''Content-Type'' then Some ''text/html; charset=utf-8'' else sent_header w k)"
  by (simp_all add: html_type_def sent_header_def)

lemma toast_sel [simp]:
  "w_body (render_error_toast m w) = w_body w @ [BToast ''error'' m]"
  "w_body (emit_success_toast m w) = w_body w @ [BToast ''success'' m]"
  "sent_header (render_error_toast m w) ''Hx-Reswap'' = Some ''none''"
  by (simp_all add: render_error_toast_def emit_success_toast_def html_type_def sent_header_def)

section \<open>A small cluster\<close>

text \<open>
  One tenant with one Postgres, whose secret holds a password, and one pod. The state counts the
  writes.
\<close>

definition page_kube :: "nat kube" where
  "page_kube = \<lparr>
     k_list = (\<lambda>g ns opts w. (w, Inr \<lparr>kl_items =
        (if g_resource g = ''helmreleases'' then
           [[(''metadata'', JMap [(''name'', JStr ''postgres-db''),
              (''labels'', JMap [(cozyAppKindLabel, JStr ''Postgres''), (cozyAppNameLabel, JStr ''db'')])])]]
         else if g_resource g = ''secrets'' then [[(''metadata'', JMap [(''name'', JStr ''postgres-db-credentials'')])]]
         else if g_resource g = ''tenants'' then
           [[(''metadata'', JMap [(''name'', JStr ''a''), (''namespace'', JStr ''tenant-root'')]),
             (''status'', JMap [(''namespace'', JStr ''tenant-a'')])]]
         else if g_resource g = ''pods'' then
           [[(''metadata'', JMap [(''name'', JStr ''db-0'')]),
             (''spec'', JMap [(''containers'', JList [JMap [(''name'', JStr ''main'')]])])]]
         else []), kl_continue = ''''\<rparr>)),
     k_get = (\<lambda>g ns n w. if g_resource g = ''applicationdefinitions'' then (w, Inl (ApiStatus 404 ''not found''))
        else if g_resource g = ''secrets'' then (w, Inr [(''data'', JMap [(''password'', JStr ''czNj'')])])
        else (w, Inr [(''kind'', JStr ''Postgres''), (''metadata'', JMap [(''name'', JStr n),
          (''resourceVersion'', JStr (show_nat w))]), (''spec'', JMap [(''replicas'', JInt 2)])])),
     k_create = (\<lambda>g ns obj w. (Suc w, Inr obj)),
     k_update = (\<lambda>g ns obj w. if u_resource_version plain_unstr obj = show_nat w then (Suc w, Inr obj)
        else (w, Inl (ApiStatus 409 ''the object has been modified''))),
     k_delete = (\<lambda>g ns n w. (Suc w, None))\<rparr>"

definition page_env :: "nat kenv" where
  "page_env = sample_app_env\<lparr>ke_sdk := (ke_sdk sample_app_env)\<lparr>sdk_dynamic := (\<lambda>_. Inr page_kube)\<rparr>\<rparr>"

lemma page_client: "user_client page_env sample_user = Inr page_kube"
  by (simp add: user_client_def new_user_client_def build_user_rest_config_def build_user_rest_config'_def
      page_env_def sample_app_env_def sample_user_def)

definition sample_vm_api :: "nat vm_api" where
  "sample_vm_api = \<lparr>va_clientset = (\<lambda>_. None), va_review = (\<lambda>cfg cap ns. Inr (cp_subresource cap \<noteq> ''stop'')),
     va_put = (\<lambda>_ _ _ w. (Suc w, None))\<rparr>"

definition sample_handler :: "nat page_handler" where
  "sample_handler = \<lparr>ph_kube = page_env, ph_quant = \<lparr>q_value = (\<lambda>_. None), q_milli = (\<lambda>_. None)\<rparr>,
     ph_logs = sample_logs, ph_vm = sample_vm_api,
     ph_registry = (case vm_registry of Inl _ \<Rightarrow> [] | Inr r \<Rightarrow> r), ph_has_form_defs = True, ph_has_capi = True,
     ph_yaml = (\<lambda>s. if s = ''replicas: 3'' then Inr [(''replicas'', JInt 3)]
        else if s = ''{}'' then Inr [] else Inl (Opaque ''yaml'')),
     ph_yaml_text = (\<lambda>_. Inr ''replicas: 2''), ph_parse_float = (\<lambda>_. None)\<rparr>"

definition sample_inbound :: "request \<Rightarrow> inbound" where
  "sample_inbound req = \<lparr>in_req = req, in_ctx = \<lparr>cx_user = Some sample_user, cx_mode = AuthModeToken\<rparr>,
     in_request_id = ''r1'', in_localizer = Some (\<lambda>i _. i), in_now = 0, in_body = None\<rparr>"

definition sample_state :: "nat hstate" where
  "sample_state = \<lparr>hs_world = 7, hs_cache = [], hs_audit = []\<rparr>"

lemma sample_inbound_user: "user_from_context (in_ctx (sample_inbound req)) = Some sample_user"
  by (simp add: sample_inbound_def user_from_context_def)

text \<open>The texts of a response, for evaluation.\<close>

definition texts :: "'p writer \<Rightarrow> string list" where
  "texts w = map (\<lambda>b. case b of BText s \<Rightarrow> s | BHtml s \<Rightarrow> s | BToast k m \<Rightarrow> k @ '': '' @ m | _ \<Rightarrow> ''page'') (w_body w)"

end
