(* ===== verification/Page_Reads.thy ===== *)
theory Page_Reads
  imports Page_Core
begin

text \<open>
  The pages and fragments of \<open>internal/handler\<close> that only read: \<open>page.go\<close>, \<open>overview.go\<close>, the list
  page of \<open>tenants.go\<close> and the fragments of \<open>fragment.go\<close> that need no form. Each handler is an
  interpretation of the contract of \<open>Page_Core\<close>; the two that show credentials are those that
  record events.
\<close>

section \<open>page.go: lists\<close>

definition aggregate_apps ::
  "'w page_handler \<Rightarrow> inbound \<Rightarrow> user_context \<Rightarrow> tenant list \<Rightarrow> 'w hstate \<Rightarrow> 'w hstate \<times> application list" where
  "aggregate_apps ph inb usr tenants s =
     fold (\<lambda>t (s, apps).
        case call_kop (app_list (ph_kube ph) (in_now inb) usr (tn_namespace t)) s of
          (s', Inl e) \<Rightarrow> (s', apps) | (s', Inr l) \<Rightarrow> (s', apps @ al_items l)) tenants (s, [])"

definition created_or_zero :: "application \<Rightarrow> int" where
  "created_or_zero a = (case ap_created a of None \<Rightarrow> zero_time_unix | Some t \<Rightarrow> t)"

definition dashboard_of :: "tenant list \<Rightarrow> application list \<Rightarrow> dashboard_data" where
  "dashboard_of tenants allApps =
     \<lparr>db_tenants = int (length tenants), db_apps = int (length allApps),
      db_ready = int (length (filter (\<lambda>a. ap_status a = AppStatusReady) allApps)),
      db_failed = int (length (filter (\<lambda>a. ap_status a = AppStatusFailed) allApps)),
      db_recent = sort_slice (\<lambda>a b. created_or_zero b < created_or_zero a) allApps\<rparr>"

definition dashboard_page :: "'w page_handler \<Rightarrow> inbound \<Rightarrow> 'w handler" where
  "dashboard_page ph inb = require_user inb (\<lambda>usr w s.
     (case call_kop (tenant_list (ph_kube ph) usr) s of
        (s1, r) \<Rightarrow>
          let tenants = or_else [] r in
          (case aggregate_apps ph inb usr tenants s1 of
             (s2, allApps) \<Rightarrow>
               (s2, render_page inb (uc_username usr) tenants ''dashboard'' ''''
                      (VDashboard (dashboard_of tenants allApps)) w))))"

text \<open>\<open>overview.go\<close>.\<close>

definition overview_page :: "'w page_handler \<Rightarrow> inbound \<Rightarrow> 'w handler" where
  "overview_page ph inb = require_user inb (\<lambda>usr w s.
     (case call_kop (tenant_list (ph_kube ph) usr) s of
        (s1, r) \<Rightarrow>
          let tenants = or_else [] r in
          (case aggregate_apps ph inb usr tenants s1 of
             (s2, allApps) \<Rightarrow>
               (s2, render_page inb (uc_username usr) tenants ''overview'' ''''
                      (VOverview (build_overview_data allApps (int (length tenants)) (query_get (in_req inb) ''q''))) w))))"

definition profile_page :: "'w page_handler \<Rightarrow> inbound \<Rightarrow> 'w handler" where
  "profile_page ph inb = require_user inb (\<lambda>usr w s.
     (case call_kop (tenant_list (ph_kube ph) usr) s of
        (s1, r) \<Rightarrow>
          let mode = (if cx_mode (in_ctx inb) = '''' then ke_mode (ph_kube ph) else cx_mode (in_ctx inb))
          in (s1, render_page inb (uc_username usr) (or_else [] r) ''profile'' '''' (VProfile usr mode) w)))"

definition not_found_page :: "'w page_handler \<Rightarrow> inbound \<Rightarrow> 'w handler" where
  "not_found_page ph inb = require_user inb (\<lambda>usr w s.
     (case call_kop (tenant_list (ph_kube ph) usr) s of
        (s1, r) \<Rightarrow>
          (s1, render_error inb (uc_username usr) (or_else [] r) 404 ''Page not found''
             (''The page '' @ [CHR 0x27] @ r_path (in_req inb) @ [CHR 0x27] @
              '' does not exist. Use the navigation on the left or head back to the dashboard.'') w)))"

section \<open>page.go: the marketplace\<close>

definition marketplace_page :: "'w page_handler \<Rightarrow> inbound \<Rightarrow> 'w handler" where
  "marketplace_page ph inb = require_user inb (\<lambda>usr w s.
     (case call_kop (tenant_list (ph_kube ph) usr) s of
        (s1, r) \<Rightarrow>
          (case call_kop (schema_list (ph_kube ph) usr) s1 of
             (s2, schemas) \<Rightarrow>
               (s2, render_page inb (uc_username usr) (or_else [] r) ''marketplace'' ''''
                  (VMarketplace (build_marketplace_data (or_else [] schemas) (query_get (in_req inb) ''q'')
                     (query_get (in_req inb) ''category'') (query_get (in_req inb) ''tag''))) w))))"

definition marketplace_fragment :: "'w page_handler \<Rightarrow> inbound \<Rightarrow> 'w handler" where
  "marketplace_fragment ph inb = require_user inb (\<lambda>usr w s.
     (case call_kop (schema_list (ph_kube ph) usr) s of
        (s1, schemas) \<Rightarrow>
          (s1, write_body (BPage (VMarketplaceGrid (build_marketplace_data (or_else [] schemas)
             (query_get (in_req inb) ''q'') (query_get (in_req inb) ''category'') (query_get (in_req inb) ''tag''))))
             (html_type w))))"

definition marketplace_launch_page :: "'w page_handler \<Rightarrow> inbound \<Rightarrow> 'w handler" where
  "marketplace_launch_page ph inb = require_user inb (\<lambda>usr w s.
     (case call_kop (tenant_list (ph_kube ph) usr) s of
        (s1, Inl e) \<Rightarrow>
          (s1, http_error ([CHR ''{'', CHR 0x22] @ ''error'' @ [CHR 0x22, CHR '':'', CHR 0x22] @
                 ''could not list tenants'' @ [CHR 0x22, CHR ''}'']) 500 w)
      | (s1, Inr tenants) \<Rightarrow>
          if tenants = [] then
            (s1, render_error_toast (translate inb ''error.marketplaceLaunch.noTenants'' []) w)
          else
            (case call_kop (schema_list (ph_kube ph) usr) s1 of
               (s2, r) \<Rightarrow>
                 let schemas = or_else [] r;
                     kind = select_known_kind (query_get (in_req inb) createKindQueryParam) schemas;
                     kindDisplay = display_name_for_kind kind schemas
                 in (case tenants of
                       [t] \<Rightarrow> (s2, redirect_to_create_kind (in_req inb) (tn_namespace t) kind w)
                     | _ \<Rightarrow> (s2, write_body (BPage (VLaunchModal kind kindDisplay tenants)) (html_type w))))))"

section \<open>page.go: the tenant page\<close>

definition tenantEventLimit :: int where "tenantEventLimit = 15"
definition appEventLimit :: int where "appEventLimit = 50"
definition appLogTailLines :: int where "appLogTailLines = 500"

definition build_tenant_page_data ::
  "'w page_handler \<Rightarrow> inbound \<Rightarrow> user_context \<Rightarrow> string \<Rightarrow> tenant \<Rightarrow> tenant list \<Rightarrow> 'w hstate \<Rightarrow>
     'w hstate \<times> tenant_page_data" where
  "build_tenant_page_data ph inb usr tenantNS t allTenants s =
     (let E = ph_kube ph; req = in_req inb in
      case call_kop (app_list E (in_now inb) usr tenantNS) s of (s1, appList) \<Rightarrow>
      case call_kop (schema_list E usr) s1 of (s2, schemas) \<Rightarrow>
      case call_kop (list_in_namespace E usr tenantNS tenantEventLimit) s2 of (s3, events) \<Rightarrow>
      case usage_collect E (ph_quant ph) usr tenantNS (hs_world s3) of (w4, usage, usageErr) \<Rightarrow>
      case call_kop (list_quotas E usr tenantNS) (s3\<lparr>hs_world := w4\<rparr>) of (s5, quotas) \<Rightarrow>
        (s5, \<lparr>tpd_tenant = t, tpd_usage = usage, tpd_quotas = or_else [] quotas,
          tpd_children = filter (\<lambda>c. tn_parent c = tenantNS) allTenants,
          tpd_apps = al_items (or_else \<lparr>al_items = [], al_truncated = False\<rparr> appList),
          tpd_truncated = al_truncated (or_else \<lparr>al_items = [], al_truncated = False\<rparr> appList),
          tpd_schemas = or_else [] schemas, tpd_events = or_else [] events,
          tpd_query = query_get req ''q'', tpd_kind_filter = query_get req ''kind'',
          tpd_sort_by = query_get req ''sort'',
          tpd_create_kind = extract_create_kind_from_query req (or_else [] schemas)\<rparr>))"

definition tenant_page :: "'w page_handler \<Rightarrow> inbound \<Rightarrow> 'w handler" where
  "tenant_page ph inb = require_user inb (\<lambda>usr w s.
     (let tenantNS = path_value (in_req inb) ''tenant'' in
      case call_kop (tenant_list (ph_kube ph) usr) s of (s1, r) \<Rightarrow>
      let tenants = or_else [] r in
      case call_kop (tenant_get (ph_kube ph) usr tenantNS) s1 of
        (s2, Inl e) \<Rightarrow>
          (s2, render_error inb (uc_username usr) tenants 404 ''Tenant not found''
             (''The tenant '' @ [CHR 0x27] @ tenantNS @ [CHR 0x27] @
              '' either does not exist or you do not have permission to view it.'') w)
      | (s2, Inr t) \<Rightarrow>
          (case build_tenant_page_data ph inb usr tenantNS t tenants s2 of
             (s3, data) \<Rightarrow> (s3, render_page inb (uc_username usr) tenants ''tenant'' tenantNS (VTenant data) w))))"

section \<open>tenants.go: the list page\<close>

definition tenantSchemaKind :: string where "tenantSchemaKind = ''Tenant''"

definition fetch_tenant_schema ::
  "'w page_handler \<Rightarrow> inbound \<Rightarrow> user_context \<Rightarrow> 'w hstate \<Rightarrow> 'w hstate \<times> app_schema option" where
  "fetch_tenant_schema ph inb usr s =
     (case call_schema ph inb usr tenantSchemaKind s of (s', r) \<Rightarrow> (s', res_to_option r))"

text \<open>A lister is what its call returned, or \<open>None\<close> where the caller passes none.\<close>

definition resolve_kind_param :: "string \<Rightarrow> app_schema list res option \<Rightarrow> string" where
  "resolve_kind_param raw lister =
     (if raw = '''' then ''''
      else case lister of
        None \<Rightarrow> raw
      | Some (Inl e) \<Rightarrow> ''''
      | Some (Inr schemas) \<Rightarrow> select_known_kind raw schemas)"

definition resolve_preselected_kind :: "inbound \<Rightarrow> string" where
  "resolve_preselected_kind inb = resolve_kind_param (query_get (in_req inb) ''kind'') None"

definition tenants_page :: "'w page_handler \<Rightarrow> inbound \<Rightarrow> 'w handler" where
  "tenants_page ph inb = require_user inb (\<lambda>usr w s.
     (let E = ph_kube ph in
      case call_kop (tenant_list E usr) s of (s1, r) \<Rightarrow>
      let tenants = or_else [] r in
      case usage_collect_all E (ph_quant ph) usr (map tn_namespace tenants) (hs_world s1) of (w2, usageMap) \<Rightarrow>
      let items = map (\<lambda>t. \<lparr>tw_tenant = t, tw_usage = mget_or (no_usage '''') usageMap (tn_namespace t)\<rparr>) tenants in
      case fetch_tenant_schema ph inb usr (s1\<lparr>hs_world := w2\<rparr>) of (s3, schema) \<Rightarrow>
      case resolve_form_overrides ph usr tenantSchemaKind s3 of (s4, overrides) \<Rightarrow>
        (s4, render_page inb (uc_username usr) tenants ''tenants'' ''''
           (VTenants \<lparr>tsp_tenants = items, tsp_schema = schema, tsp_overrides = overrides,
              tsp_metrics = list_ex (\<lambda>i. tu_metrics (tw_usage i)) items,
              tsp_preselected = resolve_preselected_kind inb\<rparr>) w)))"

section \<open>page.go: the application page\<close>

definition capability_probed_actions ::
  "'w page_handler \<Rightarrow> user_context \<Rightarrow> string \<Rightarrow> string \<Rightarrow> 'w app_action list" where
  "capability_probed_actions ph usr tenantNS kind =
     (let acts = actions_for (ph_registry ph) kind; E = ph_kube ph in
      if acts = [] then []
      else case build_user_rest_config (ke_sdk E) (ke_base E) usr (ke_mode E) of
        Inl e \<Rightarrow> []
      | Inr cfg \<Rightarrow> fst (filter_allowed (ph_vm ph) cfg acts tenantNS))"

record log_view =
  lv_pods :: "pod_info list"
  lv_pod :: string
  lv_container :: string
  lv_tail :: string
  lv_error :: string

definition fetch_app_logs ::
  "'w page_handler \<Rightarrow> inbound \<Rightarrow> user_context \<Rightarrow> string \<Rightarrow> string \<Rightarrow> 'w hstate \<Rightarrow> 'w hstate \<times> log_view" where
  "fetch_app_logs ph inb usr tenantNS appName s =
     (let E = ph_kube ph; req = in_req inb in
      case call_kop (list_pods_for_app E usr tenantNS appName) s of
        (s', Inl e) \<Rightarrow>
          (s', \<lparr>lv_pods = [], lv_pod = '''', lv_container = '''', lv_tail = '''',
             lv_error = translate inb ''error.logs.list'' [] @ '': '' @ err_text e\<rparr>)
      | (s', Inr pods) \<Rightarrow>
          if pods = [] then
            (s', \<lparr>lv_pods = pods, lv_pod = '''', lv_container = '''', lv_tail = '''',
               lv_error = translate inb ''empty.pods.body'' []\<rparr>)
          else
            let selectedPod = (if query_get req ''pod'' = '''' then pi_name (hd pods) else query_get req ''pod'') in
            (case find (\<lambda>p. pi_name p = selectedPod) pods of
               None \<Rightarrow>
                 (s', \<lparr>lv_pods = pods, lv_pod = selectedPod, lv_container = '''', lv_tail = '''',
                    lv_error = translate inb ''error.pods.selectedMissing'' []\<rparr>)
             | Some chosen \<Rightarrow>
                 let c0 = query_get req ''container'';
                     ct = (if c0 = '''' \<and> pi_containers chosen \<noteq> [] then hd (pi_containers chosen) else c0)
                 in (case tail_logs E (ph_logs ph) usr tenantNS selectedPod ct appLogTailLines of
                       Inl e \<Rightarrow>
                         (s', \<lparr>lv_pods = pods, lv_pod = selectedPod, lv_container = ct, lv_tail = '''',
                            lv_error = translate inb ''error.logs.read'' [] @ '': '' @ err_text e\<rparr>)
                     | Inr tail \<Rightarrow>
                         (s', \<lparr>lv_pods = pods, lv_pod = selectedPod, lv_container = ct, lv_tail = tail, lv_error = ''''\<rparr>))))"

definition no_logs :: log_view where
  "no_logs = \<lparr>lv_pods = [], lv_pod = '''', lv_container = '''', lv_tail = '''', lv_error = ''''\<rparr>"

definition build_app_detail_data ::
  "'w page_handler \<Rightarrow> inbound \<Rightarrow> user_context \<Rightarrow> string \<Rightarrow> string \<Rightarrow> application \<Rightarrow> string \<Rightarrow> 'w hstate \<Rightarrow>
     'w hstate \<times> 'w app_detail_data" where
  "build_app_detail_data ph inb usr tenantNS appName app tab s =
     (let E = ph_kube ph in
      case (if tab = ''events'' then
              (case call_kop (list_for_object E usr tenantNS appName appEventLimit) s of (s', r) \<Rightarrow> (s', or_else [] r))
            else (s, [])) of (s1, events) \<Rightarrow>
      case (if tab = ''logs'' then fetch_app_logs ph inb usr tenantNS appName s1 else (s1, no_logs)) of (s2, lv) \<Rightarrow>
      case (if ap_kind app = ''Kubernetes'' \<and> ph_has_capi ph then
              (case call_kop (list_machine_deployments E usr tenantNS appName) s2 of (s', r) \<Rightarrow> (s', or_else [] r))
            else (s2, [])) of (s3, groups) \<Rightarrow>
        (s3, \<lparr>adt_app = app, adt_tenant = tenantNS, adt_tab = tab, adt_events = events, adt_pods = lv_pods lv,
           adt_selected_pod = lv_pod lv, adt_selected_container = lv_container lv, adt_log_tail = lv_tail lv,
           adt_log_error = lv_error lv, adt_actions = capability_probed_actions ph usr tenantNS (ap_kind app),
           adt_node_groups = groups\<rparr>))"

definition no_store :: "'p writer \<Rightarrow> 'p writer" where
  "no_store w =
     set_header ''Expires'' ''0'' (set_header ''Pragma'' ''no-cache''
       (set_header ''Cache-Control'' ''no-store, no-cache, must-revalidate, private'' w))"

definition app_detail_page :: "'w page_handler \<Rightarrow> inbound \<Rightarrow> 'w handler" where
  "app_detail_page ph inb = require_user inb (\<lambda>usr w0 s.
     (let req = in_req inb; w = no_store w0; tenantNS = path_value req ''tenant''; appName = path_value req ''name'';
          tab = (if query_get req ''tab'' = '''' then ''overview'' else query_get req ''tab'') in
      case call_kop (tenant_list (ph_kube ph) usr) s of (s1, r) \<Rightarrow>
      let tenants = or_else [] r in
      case call_app_get ph inb usr tenantNS appName s1 of
        (s2, Inl e) \<Rightarrow>
          (s2, render_error inb (uc_username usr) tenants 404 ''Application not found''
             (''The application '' @ [CHR 0x27] @ appName @ [CHR 0x27] @ '' in tenant '' @ [CHR 0x27] @ tenantNS @
              [CHR 0x27] @ '' either does not exist or you do not have permission to view it.'') w)
      | (s2, Inr app) \<Rightarrow>
          let s3 = (if tab = ''connection'' then
                      record_audit inb usr ActionConnectionView appName tenantNS OutcomeSuccess
                        [(''kind'', JStr (ap_kind app))] s2
                    else s2) in
          (case build_app_detail_data ph inb usr tenantNS appName app tab s3 of
             (s4, data) \<Rightarrow>
               (s4, render_page inb (uc_username usr) tenants ''appDetail'' tenantNS (VAppDetail data) w))))"

section \<open>fragment.go\<close>

definition app_table_fragment :: "'w page_handler \<Rightarrow> inbound \<Rightarrow> 'w handler" where
  "app_table_fragment ph inb = require_user inb (\<lambda>usr w s.
     (let req = in_req inb; t = query_get req ''tenant'' in
      case call_kop (app_list (ph_kube ph) (in_now inb) usr t) s of (s1, r) \<Rightarrow>
        (s1, write_body (BPage (VAppTableRows t (filter_and_sort_apps
              (al_items (or_else \<lparr>al_items = [], al_truncated = False\<rparr> r))
              (query_get req ''q'') (query_get req ''kind'') (query_get req ''sort'')))) (html_type w))))"

definition schema_fields_fragment :: "'w page_handler \<Rightarrow> inbound \<Rightarrow> 'w handler" where
  "schema_fields_fragment ph inb = require_user inb (\<lambda>usr w s.
     (let kind = query_get (in_req inb) ''kind'' in
      if kind = '''' then (s, write_body (BHtml '''') (html_type w))
      else case call_schema ph inb usr kind s of
        (s1, Inl e) \<Rightarrow> (s1, http_error ''schema not found'' 404 w)
      | (s1, Inr schema) \<Rightarrow>
          (case resolve_form_overrides ph usr kind s1 of
             (s2, ovr) \<Rightarrow> (s2, write_body (BPage (VSchemaFields schema [] ovr)) (html_type w)))))"

definition marshal_spec_for_edit :: "'w page_handler \<Rightarrow> jobj \<Rightarrow> string" where
  "marshal_spec_for_edit ph spec =
     (if spec = [] then '''' else case ph_yaml_text ph spec of Inl e \<Rightarrow> '''' | Inr raw \<Rightarrow> raw)"

definition app_edit_fragment :: "'w page_handler \<Rightarrow> inbound \<Rightarrow> 'w handler" where
  "app_edit_fragment ph inb = require_user inb (\<lambda>usr w s.
     (let t = query_get (in_req inb) ''tenant''; name = query_get (in_req inb) ''name'' in
      if t = '''' \<or> name = '''' then (s, http_error ''tenant and name required'' 400 w)
      else case call_app_get ph inb usr t name s of
        (s1, Inl e) \<Rightarrow> (s1, http_error ''application not found'' 404 w)
      | (s1, Inr app) \<Rightarrow>
          (case call_kop (app_get_spec_snapshot (ph_kube ph) usr t name) s1 of (s2, snap) \<Rightarrow>
           case call_schema ph inb usr (ap_kind app) s2 of (s3, schema) \<Rightarrow>
           let currentSpec = (case snap of Inl e \<Rightarrow> [] | Inr sn \<Rightarrow> sn_spec sn);
               rv = (case snap of Inl e \<Rightarrow> '''' | Inr sn \<Rightarrow> sn_resource_version sn);
               specYAML = marshal_spec_for_edit ph currentSpec in
           case resolve_form_overrides ph usr (ap_kind app) s3 of (s4, ovr) \<Rightarrow>
             (s4, write_body (BPage (VAppEditModal t app (res_to_option schema) currentSpec rv specYAML ovr))
                (set_header ''Cache-Control'' ''no-store'' (html_type w))))))"

definition tenant_edit_fragment :: "'w page_handler \<Rightarrow> inbound \<Rightarrow> 'w handler" where
  "tenant_edit_fragment ph inb = require_user inb (\<lambda>usr w s.
     (let name = query_get (in_req inb) ''name''; ns = query_get (in_req inb) ''ns'' in
      if name = '''' \<or> ns = '''' then (s, http_error ''name and ns required'' 400 w)
      else case call_kop (tenant_get (ph_kube ph) usr name) s of
        (s1, Inl e) \<Rightarrow> (s1, http_error ''tenant not found'' 404 w)
      | (s1, Inr t) \<Rightarrow>
          (case call_kop (tenant_get_spec_snapshot (ph_kube ph) usr ns name) s1 of (s2, snap) \<Rightarrow>
           case call_schema ph inb usr tenantSchemaKind s2 of (s3, schema) \<Rightarrow>
           case resolve_form_overrides ph usr tenantSchemaKind s3 of (s4, ovr) \<Rightarrow>
             (s4, write_body (BPage (VTenantEditModal t (res_to_option schema)
                 (case snap of Inl e \<Rightarrow> [] | Inr sn \<Rightarrow> sn_spec sn)
                 (case snap of Inl e \<Rightarrow> '''' | Inr sn \<Rightarrow> sn_resource_version sn) ovr))
                (set_header ''Cache-Control'' ''no-store'' (html_type w))))))"

definition secret_reveal_fragment :: "'w page_handler \<Rightarrow> inbound \<Rightarrow> 'w handler" where
  "secret_reveal_fragment ph inb = require_user inb (\<lambda>usr w s.
     (let req = in_req inb; t = query_get req ''tenant''; appName = query_get req ''app''; field = query_get req ''field'' in
      if t = '''' \<or> appName = '''' \<or> field = '''' then (s, http_error ''tenant, app and field required'' 400 w)
      else case call_app_get ph inb usr t appName s of
        (s1, Inl e) \<Rightarrow>
          (record_audit inb usr ActionSecretView appName t OutcomeError
             [(''field'', JStr field), (''error'', JStr (err_text e))] s1,
           http_error ''application not found'' 404 w)
      | (s1, Inr app) \<Rightarrow>
          (case Option.bind (ap_connection_info app) (\<lambda>m. map_of m field) of
             None \<Rightarrow>
               (record_audit inb usr ActionSecretView appName t OutcomeDenied
                  [(''field'', JStr field), (''reason'', JStr ''field_not_found'')] s1,
                http_error ''secret field not found'' 404 w)
           | Some value \<Rightarrow>
               (record_audit inb usr ActionSecretView appName t OutcomeSuccess
                  [(''field'', JStr field), (''kind'', JStr (ap_kind app))] s1,
                write_body (BHtml (html_escape value))
                  (set_header ''Pragma'' ''no-cache''
                    (set_header ''Cache-Control'' ''no-store, no-cache, must-revalidate, private'' (html_type w)))))))"

section \<open>Lemmas\<close>

lemma aggregate_keeps: "aggregate_apps ph inb usr ts s = (s', apps) \<Longrightarrow> hs_audit s' = hs_audit s"
proof -
  let ?step = "\<lambda>t (s, apps). case call_kop (app_list (ph_kube ph) (in_now inb) usr (tn_namespace t)) s of
      (s', Inl e) \<Rightarrow> (s', apps) | (s', Inr l) \<Rightarrow> (s', apps @ al_items l)"
  have "hs_audit (fst (fold ?step ts (s, acc))) = hs_audit s" for acc
    by (induction ts arbitrary: s acc) (auto split: prod.split sum.split dest!: call_kop_keeps)
  from this [of "[]"] have "hs_audit (fst (aggregate_apps ph inb usr ts s)) = hs_audit s"
    by (simp only: aggregate_apps_def)
  then show "aggregate_apps ph inb usr ts s = (s', apps) \<Longrightarrow> hs_audit s' = hs_audit s" by simp
qed

lemma fetch_logs_keeps: "fetch_app_logs ph inb usr t n s = (s', v) \<Longrightarrow> hs_audit s' = hs_audit s"
  by (auto simp: fetch_app_logs_def Let_def split: prod.splits sum.splits if_splits option.splits dest!: call_kop_keeps)

lemma tenant_schema_keeps: "fetch_tenant_schema ph inb usr s = (s', v) \<Longrightarrow> hs_audit s' = hs_audit s"
  by (auto simp: fetch_tenant_schema_def split: prod.splits dest!: call_schema_keeps)

lemma tenant_data_keeps: "build_tenant_page_data ph inb usr ns t ts s = (s', d) \<Longrightarrow> hs_audit s' = hs_audit s"
  by (auto simp: build_tenant_page_data_def Let_def split: prod.splits dest!: call_kop_keeps)

lemma app_data_keeps: "build_app_detail_data ph inb usr t n app tab s = (s', d) \<Longrightarrow> hs_audit s' = hs_audit s"
  by (auto simp: build_app_detail_data_def Let_def split: prod.splits if_splits dest!: call_kop_keeps fetch_logs_keeps)

lemmas reads_keep = calls_keep aggregate_keeps fetch_logs_keeps tenant_schema_keeps tenant_data_keeps app_data_keeps

text \<open>The handlers that record nothing.\<close>

interpretation dashboard_op: silent_operation dashboard_page
  by unfold_locales (auto simp: dashboard_page_def require_user_def Let_def split: prod.split option.split dest!: reads_keep)

interpretation overview_op: silent_operation overview_page
  by unfold_locales (auto simp: overview_page_def require_user_def Let_def split: prod.split option.split dest!: reads_keep)

interpretation profile_op: silent_operation profile_page
  by unfold_locales (auto simp: profile_page_def require_user_def Let_def split: prod.split option.split dest!: reads_keep)

interpretation not_found_op: silent_operation not_found_page
  by unfold_locales (auto simp: not_found_page_def require_user_def split: prod.split option.split dest!: reads_keep)

interpretation marketplace_op: silent_operation marketplace_page
  by unfold_locales (auto simp: marketplace_page_def require_user_def split: prod.split option.split dest!: reads_keep)

interpretation marketplace_fragment_op: silent_operation marketplace_fragment
  by unfold_locales (auto simp: marketplace_fragment_def require_user_def split: prod.split option.split dest!: reads_keep)

interpretation launch_op: silent_operation marketplace_launch_page
  by unfold_locales (auto simp: marketplace_launch_page_def require_user_def Let_def
      split: prod.split option.split sum.split list.split dest!: reads_keep)

interpretation tenant_op: silent_operation tenant_page
  by unfold_locales (auto simp: tenant_page_def require_user_def Let_def split: prod.split option.split sum.split dest!: reads_keep)

interpretation tenants_op: silent_operation tenants_page
  by unfold_locales (auto simp: tenants_page_def require_user_def Let_def split: prod.split option.split dest!: reads_keep)

interpretation app_table_op: silent_operation app_table_fragment
  by unfold_locales (auto simp: app_table_fragment_def require_user_def Let_def split: prod.split option.split dest!: reads_keep)

interpretation schema_fields_op: silent_operation schema_fields_fragment
  by unfold_locales (auto simp: schema_fields_fragment_def require_user_def Let_def
      split: prod.split option.split sum.split dest!: reads_keep)

interpretation app_edit_op: silent_operation app_edit_fragment
  by unfold_locales (auto simp: app_edit_fragment_def require_user_def Let_def
      split: prod.split option.split sum.split dest!: reads_keep)

interpretation tenant_edit_op: silent_operation tenant_edit_fragment
  by unfold_locales (auto simp: tenant_edit_fragment_def require_user_def Let_def
      split: prod.split option.split sum.split dest!: reads_keep)

text \<open>The two handlers that show credentials.\<close>

lemma app_detail_events:
  assumes "user_from_context (in_ctx inb) = Some usr"
  shows "\<exists>es. audits s es (fst (app_detail_page ph inb w s)) \<and>
    (\<forall>ev\<in>set es. own_event inb usr {ActionConnectionView} ev)"
  using assms
  by (auto simp: app_detail_page_def require_user_def Let_def audits_def
      split: prod.split sum.split dest!: reads_keep intro!: exI)

interpretation app_detail_op: page_operation app_detail_page "{ActionConnectionView}"
  by unfold_locales (simp add: app_detail_page_def require_user_def, erule app_detail_events)

lemma secret_reveal_events:
  assumes "user_from_context (in_ctx inb) = Some usr"
  shows "\<exists>es. audits s es (fst (secret_reveal_fragment ph inb w s)) \<and>
    (\<forall>ev\<in>set es. own_event inb usr {ActionSecretView} ev)"
  using assms
  by (auto simp: secret_reveal_fragment_def require_user_def Let_def audits_def
      split: prod.split sum.split option.split dest!: reads_keep intro!: exI)

interpretation secret_reveal_op: page_operation secret_reveal_fragment "{ActionSecretView}"
  by unfold_locales (simp add: secret_reveal_fragment_def require_user_def, erule secret_reveal_events)

text \<open>The log of an application page, and the actions offered on it.\<close>

lemma fetch_app_logs_own_pod:
  assumes "fetch_app_logs ph inb usr t n s = (s', lv)" "lv_tail lv \<noteq> ''''"
  shows "\<exists>pods p w. list_pods_for_app (ph_kube ph) usr t n (hs_world s) = (w, Inr pods) \<and> p \<in> set pods \<and>
    pi_name p = lv_pod lv \<and>
    tail_logs (ph_kube ph) (ph_logs ph) usr t (pi_name p) (lv_container lv) appLogTailLines = Inr (lv_tail lv)"
  using assms
  by (auto simp: fetch_app_logs_def call_kop_def Let_def split: prod.splits sum.splits if_splits option.splits
      dest!: find_Some)

lemma app_data_logs:
  assumes "build_app_detail_data ph inb usr t n app tab s = (s', d)" "adt_log_tail d \<noteq> ''''"
  shows "tab = ''logs'' \<and> (\<exists>lv s''. fetch_app_logs ph inb usr t n s = (s'', lv) \<and>
    adt_log_tail d = lv_tail lv \<and> adt_selected_pod d = lv_pod lv \<and> adt_selected_container d = lv_container lv)"
  using assms by (auto simp: build_app_detail_data_def no_logs_def Let_def split: prod.splits if_splits)

lemma app_data_actions:
  "build_app_detail_data ph inb usr t n app tab s = (s', d) \<Longrightarrow>
     adt_actions d = capability_probed_actions ph usr t (ap_kind app)"
  by (auto simp: build_app_detail_data_def Let_def split: prod.splits)

lemma capability_probed_iff:
  "a \<in> set (capability_probed_actions ph usr t kind) \<longleftrightarrow> a \<in> set (actions_for (ph_registry ph) kind) \<and>
     (\<exists>cfg. build_user_rest_config (ke_sdk (ph_kube ph)) (ke_base (ph_kube ph)) usr (ke_mode (ph_kube ph)) = Inr cfg \<and>
        allowed (ph_vm ph) cfg (aa_capability a) t = Inr True)"
  by (cases "build_user_rest_config (ke_sdk (ph_kube ph)) (ke_base (ph_kube ph)) usr (ke_mode (ph_kube ph))")
    (auto simp: capability_probed_actions_def filter_allowed_eq Let_def)

text \<open>A page is shown bare to htmx and inside the layout otherwise.\<close>

definition shown :: "'w page_writer \<Rightarrow> 'w page_view list" where
  "shown w = concat (map (\<lambda>b. case b of BPage (VLayout u ts a at v) \<Rightarrow> [v] | BPage v \<Rightarrow> [v] | _ \<Rightarrow> []) (w_body w))"

lemma shown_writers [simp]:
  "shown (set_header k v w) = shown w" "shown (html_type w) = shown w" "shown (write_header c w) = shown w"
  "shown (write_body b w) = shown w @ (case b of BPage (VLayout u ts a at v) \<Rightarrow> [v] | BPage v \<Rightarrow> [v] | _ \<Rightarrow> [])"
  "shown new_writer = []" "shown (no_store w) = shown w"
  by (simp_all add: shown_def html_type_def no_store_def)

lemma shown_render_error: "shown (render_error inb u ts st ti de w) = shown w @ [VError st ti de
    (case in_localizer inb of None \<Rightarrow> ''Back to dashboard'' | Some t \<Rightarrow> t ''action.backToDashboard'' [])]"
  by (simp add: render_error_def Let_def)

text \<open>Headers set before a page is rendered are sent with it.\<close>

lemma sent_header_writers [simp]:
  "sent_header (set_header k v w) k' = (if k' = k then Some v else sent_header w k')"
  "sent_header (write_header c w) k' = sent_header w k'" "sent_header (write_body b w) k' = sent_header w k'"
  by (simp_all add: sent_header_def)

lemma sent_header_pages:
  "k \<noteq> ''Content-Type'' \<Longrightarrow> sent_header (render_error inb u ts st ti de w) k = sent_header w k"
  "k \<noteq> ''Content-Type'' \<Longrightarrow> sent_header (render_page inb u ts a at v w) k = sent_header w k"
  by (simp_all add: render_error_def render_page_def Let_def)

lemma no_store_sent: "sent_header (no_store w) ''Cache-Control'' = Some ''no-store, no-cache, must-revalidate, private''"
  by (simp add: no_store_def)

text \<open>Two requests against the small cluster.\<close>

definition reveal_inbound :: inbound where
  "reveal_inbound = sample_inbound (blank_request\<lparr>r_query :=
     [(''tenant'', ''tenant-a''), (''app'', ''db''), (''field'', ''password'')]\<rparr>)"

definition reveal_run :: "nat hstate \<times> nat page_writer" where
  "reveal_run = secret_reveal_fragment sample_handler reveal_inbound new_writer sample_state"

definition detail_inbound :: "string \<Rightarrow> inbound" where
  "detail_inbound tab = sample_inbound (blank_request\<lparr>r_query := [(''tab'', tab)],
     r_path_value := [(''tenant'', ''tenant-a''), (''name'', ''db'')]\<rparr>)"

definition detail_run :: "string \<Rightarrow> nat hstate \<times> nat page_writer" where
  "detail_run tab = app_detail_page sample_handler (detail_inbound tab) new_writer sample_state"

definition sample_vm :: application where
  "sample_vm = zero_application\<lparr>ap_name := ''vm1'', ap_kind := ''VMInstance''\<rparr>"

section \<open>Properties\<close>

text \<open>
  C29: revealing a secret is audited. A request of an identified user that names tenant,
  application and field leaves exactly one event, with this user, tenant, application and field.
  Its outcome is success exactly if a value was sent; then the body is the HTML-escaped value of
  this field in the connection information that the user's own lookup returned, marked as not to
  be stored, and it holds no character that could end the element it is put into.
\<close>

theorem secret_reveal_is_audited:
  assumes "user_from_context (in_ctx inb) = Some usr"
    and "query_get (in_req inb) ''tenant'' \<noteq> ''''" "query_get (in_req inb) ''app'' \<noteq> ''''"
    and "query_get (in_req inb) ''field'' \<noteq> ''''"
    and "secret_reveal_fragment ph inb new_writer s = (s', w')"
  shows "\<exists>ev. hs_audit s' = hs_audit s @ [ev] \<and> own_event inb usr {ActionSecretView} ev \<and>
    ev_tenant ev = query_get (in_req inb) ''tenant'' \<and> ev_resource ev = query_get (in_req inb) ''app'' \<and>
    map_of (ev_details ev) ''field'' = Some (JStr (query_get (in_req inb) ''field'')) \<and>
    (if ev_outcome ev = OutcomeSuccess
     then \<exists>app info value. snd (call_app_get ph inb usr (ev_tenant ev) (ev_resource ev) s) = Inr app \<and>
        ap_connection_info app = Some info \<and> map_of info (query_get (in_req inb) ''field'') = Some value \<and>
        w_body w' = [BHtml (html_escape value)] \<and> set (html_escape value) \<inter> {CHR ''<'', CHR ''>''} = {} \<and>
        sent_header w' ''Cache-Control'' = Some ''no-store, no-cache, must-revalidate, private''
     else w_code w' = Some 404 \<and> w_body w' \<in> {[BText ''application not found''], [BText ''secret field not found'']})"
proof -
  let ?t = "query_get (in_req inb) ''tenant''" and ?n = "query_get (in_req inb) ''app''"
    and ?f = "query_get (in_req inb) ''field''"
  obtain s1 r where get: "call_app_get ph inb usr ?t ?n s = (s1, r)" by fastforce
  have keep: "hs_audit s1 = hs_audit s" by (rule call_app_get_keeps [OF get])
  have inert: "set (html_escape v) \<inter> {CHR ''<'', CHR ''>''} = {}" for v
    using html_escape_inert [of v] by blast
  note run = assms(5) [unfolded secret_reveal_fragment_def require_user_def Let_def]
  have failed: ?thesis if "s' = record_audit inb usr ActionSecretView ?n ?t o' ((''field'', JStr ?f) # ds) s1"
      "w' = http_error m 404 new_writer" "o' \<in> {OutcomeError, OutcomeDenied}"
      "m \<in> {''application not found'', ''secret field not found''}" for o' ds m
    using that keep
    by (intro exI [of _ "audit_event inb usr ActionSecretView ?n ?t o' ((''field'', JStr ?f) # ds)"])
      (auto simp: audit_event_def own_event_def)
  show ?thesis
  proof (cases r)
    case (Inl e)
    with run get assms(1-4) show ?thesis by (intro failed) (auto simp: assms(1))
  next
    case (Inr app)
    show ?thesis
    proof (cases "Option.bind (ap_connection_info app) (\<lambda>m. map_of m ?f)")
      case None
      with Inr run get assms(1-4) show ?thesis by (intro failed) (auto simp: assms(1))
    next
      case (Some v)
      then obtain info where "ap_connection_info app = Some info" "map_of info ?f = Some v"
        by (auto simp: bind_eq_Some_conv)
      with Some Inr run get assms(1-4) keep inert show ?thesis
        by (auto simp: audit_event_def own_event_def sent_header_def)
    qed
  qed
qed

theorem secret_reveal_is_audited_witness:
  "\<exists>ev. hs_audit (fst reveal_run) = [ev] \<and> ev_tenant ev = ''tenant-a'' \<and> ev_outcome ev = OutcomeSuccess \<and>
     texts (snd reveal_run) = [''s3c'']"
proof -
  have t: "texts (snd reveal_run) = [''s3c'']" "map ev_outcome (hs_audit (fst reveal_run)) = [OutcomeSuccess]"
    by code_simp+
  have u: "user_from_context (in_ctx reveal_inbound) = Some sample_user"
    by (simp add: reveal_inbound_def sample_inbound_user)
  have q: "query_get (in_req reveal_inbound) ''tenant'' = ''tenant-a''" "query_get (in_req reveal_inbound) ''app'' = ''db''"
    "query_get (in_req reveal_inbound) ''field'' = ''password''" by code_simp+
  then have "query_get (in_req reveal_inbound) ''tenant'' \<noteq> ''''" "query_get (in_req reveal_inbound) ''app'' \<noteq> ''''"
    "query_get (in_req reveal_inbound) ''field'' \<noteq> ''''" by simp_all
  from secret_reveal_is_audited [OF u this, of sample_handler sample_state "fst reveal_run" "snd reveal_run"]
  obtain ev where "hs_audit (fst reveal_run) = hs_audit sample_state @ [ev]"
    "ev_tenant ev = query_get (in_req reveal_inbound) ''tenant''"
    by (auto simp: reveal_run_def)
  with t q(1) show ?thesis by (intro exI [of _ ev]) (simp add: sample_state_def)
qed

text \<open>
  Showing the connection tab is audited, and the page is never cached. Every answer to an
  identified user forbids storing it. If it shows the application, then one success event for
  this application is recorded when the tab is the connection tab, and none on the other tabs;
  an answer that does not show the application records nothing.
\<close>

theorem connection_view_is_audited:
  assumes "user_from_context (in_ctx inb) = Some usr" "app_detail_page ph inb new_writer s = (s', w')"
  shows "sent_header w' ''Cache-Control'' = Some ''no-store, no-cache, must-revalidate, private'' \<and>
    (\<exists>es. hs_audit s' = hs_audit s @ es \<and>
       (\<forall>d. VAppDetail d \<in> set (shown w') \<longrightarrow>
          (if adt_tab d = ''connection''
           then \<exists>ev. es = [ev] \<and> own_event inb usr {ActionConnectionView} ev \<and> ev_outcome ev = OutcomeSuccess \<and>
             ev_resource ev = path_value (in_req inb) ''name'' \<and> ev_tenant ev = path_value (in_req inb) ''tenant''
           else es = [])) \<and>
       ((\<forall>d. VAppDetail d \<notin> set (shown w')) \<longrightarrow> es = []))"
proof -
  let ?t = "path_value (in_req inb) ''tenant''" and ?n = "path_value (in_req inb) ''name''"
  let ?tab = "if query_get (in_req inb) ''tab'' = '''' then ''overview'' else query_get (in_req inb) ''tab''"
  obtain s1 r where l: "call_kop (tenant_list (ph_kube ph) usr) s = (s1, r)" by fastforce
  obtain s2 a where g: "call_app_get ph inb usr ?t ?n s1 = (s2, a)" by fastforce
  have k: "hs_audit s2 = hs_audit s" using call_kop_keeps [OF l] call_app_get_keeps [OF g] by simp
  note run = assms(2) [unfolded app_detail_page_def require_user_def]
  show ?thesis
  proof (cases a)
    case (Inl e)
    with run l g k assms(1) show ?thesis
      by (auto simp: Let_def shown_render_error sent_header_pages no_store_sent)
  next
    case (Inr app)
    define s3 where "s3 = (if ?tab = ''connection'' then
        record_audit inb usr ActionConnectionView ?n ?t OutcomeSuccess [(''kind'', JStr (ap_kind app))] s2 else s2)"
    obtain s4 d where d: "build_app_detail_data ph inb usr ?t ?n app ?tab s3 = (s4, d)" by fastforce
    have tab: "adt_tab d = ?tab" using d by (auto simp: build_app_detail_data_def Let_def split: prod.splits)
    have s': "s' = s4" and w': "w' = render_page inb (uc_username usr) (or_else [] r) ''appDetail'' ?t (VAppDetail d) (no_store new_writer)"
      using run l g d Inr assms(1) unfolding s3_def by (simp_all add: Let_def)
    have "shown w' = (if is_htmx inb then [VAppDetail d, VSidebar (or_else [] r) ''appDetail'' ?t] else [VAppDetail d])"
      by (simp add: w' render_page_def Let_def)
    moreover have "sent_header w' ''Cache-Control'' = Some ''no-store, no-cache, must-revalidate, private''"
      by (simp add: w' sent_header_pages no_store_sent)
    moreover have "hs_audit s' = hs_audit s @ (if ?tab = ''connection'' then
        [audit_event inb usr ActionConnectionView ?n ?t OutcomeSuccess [(''kind'', JStr (ap_kind app))]] else [])"
      using app_data_keeps [OF d] k by (simp add: s' s3_def)
    ultimately show ?thesis using tab
      by (intro conjI exI) (auto simp: audit_event_def own_event_def)
  qed
qed

theorem connection_view_is_audited_witness:
  "map ev_action (hs_audit (fst (detail_run ''connection''))) = [ActionConnectionView] \<and>
   sent_header (snd (detail_run ''logs'')) ''Cache-Control'' = Some ''no-store, no-cache, must-revalidate, private''"
proof -
  have "user_from_context (in_ctx (detail_inbound tab)) = Some sample_user" for tab
    by (simp add: detail_inbound_def sample_inbound_user)
  note shows' = connection_view_is_audited [OF this, of sample_handler _ sample_state]
  have "sent_header (snd (detail_run ''logs'')) ''Cache-Control'' = Some ''no-store, no-cache, must-revalidate, private''"
    by (rule shows' [THEN conjunct1, of "''logs''" "fst (detail_run ''logs'')"]) (simp add: detail_run_def)
  moreover have "map ev_action (hs_audit (fst (detail_run ''connection''))) = [ActionConnectionView]" by code_simp
  ultimately show ?thesis by blast
qed



end
