(* ===== verification/Page_Forms.thy ===== *)
theory Page_Forms
  imports Page_Reads "HOL-Library.Sublist"
begin

text \<open>
  From a submitted form to a spec: the name fences, the coercion of field values by the schema,
  the un-flattening of dotted keys, and the choice between form and YAML with the
  merge-or-replace policy that goes with it (\<open>crud.go\<close> and \<open>tenants.go\<close> of \<open>internal/handler\<close>).
  \<open>r_form\<close> is the map \<open>req.Form\<close> in the order the loop visits it; the YAML decoder and
  \<open>strconv.ParseFloat\<close> are arguments.
\<close>

section \<open>Names\<close>

definition formFieldName :: string where "formFieldName = ''name''"
definition formFieldKind :: string where "formFieldKind = ''kind''"
definition formFieldResourceVersion :: string where "formFieldResourceVersion = ''_resource_version''"
definition formFieldSpecYAML :: string where "formFieldSpecYAML = ''spec_yaml''"
definition formFieldTabMode :: string where "formFieldTabMode = ''_tabmode''"
definition tabModeYAML :: string where "tabModeYAML = ''yaml''"

definition maxAppNameLength :: nat where "maxAppNameLength = 53"
definition maxTenantNameLength :: nat where "maxTenantNameLength = 56"

definition dns_mid :: "char \<Rightarrow> bool" where
  "dns_mid c = (lower_alnum c \<or> c = CHR ''-'')"

text \<open>\<open>^[a-z0-9]([-a-z0-9]*[a-z0-9])?$\<close> and \<open>^[a-z][a-z0-9]*$\<close>\<close>

definition appNameRegex :: rexp where "appNameRegex = bounded_word lower_alnum dns_mid"
definition tenantNameRegex :: rexp where "tenantNameRegex = headed_word lower_char lower_alnum"

definition valid_app_name :: "string \<Rightarrow> bool" where
  "valid_app_name s = (if s = '''' \<or> length s > maxAppNameLength then False else matches appNameRegex s)"

definition valid_tenant_name :: "string \<Rightarrow> bool" where
  "valid_tenant_name s = (if s = '''' \<or> length s > maxTenantNameLength then False else matches tenantNameRegex s)"

definition is_reserved_form_field :: "string \<Rightarrow> bool" where
  "is_reserved_form_field key =
     (key \<in> {formFieldName, formFieldKind, formFieldResourceVersion, formFieldSpecYAML, formFieldTabMode})"

definition is_reserved_tenant_form_key :: "string \<Rightarrow> bool" where
  "is_reserved_tenant_form_key key =
     (key = formFieldName \<or> key = ''parent'' \<or> key = ''ns'' \<or> key = formFieldResourceVersion)"

interpretation app_name_rule: name_rule valid_app_name lower_alnum dns_mid "\<lambda>n. n \<le> maxAppNameLength"
  by unfold_locales (auto simp: valid_app_name_def appNameRegex_def dns_mid_def)

section \<open>Field types\<close>

definition maxFieldTypeDepth :: nat where "maxFieldTypeDepth = 2"

function walk_field_types ::
  "jobj \<Rightarrow> string \<Rightarrow> nat \<Rightarrow> (string, string) gomap \<Rightarrow> (string, string) gomap" where
  "walk_field_types obj pfx depth out =
     (case Option.bind (map_of obj ''properties'') as_map of
        None \<Rightarrow> out
      | Some rawProps \<Rightarrow>
          fold (\<lambda>(key, raw) out.
            case as_map raw of
              None \<Rightarrow> out
            | Some prop \<Rightarrow>
                let fullKey = (if pfx \<noteq> '''' then pfx @ ''.'' @ key else key);
                    fieldType = str_at prop ''type''
                in if fieldType = ''object'' then
                     (if depth \<ge> maxFieldTypeDepth - 1 then out else walk_field_types prop fullKey (depth + 1) out)
                   else if fieldType = ''array'' then out
                   else mput fullKey fieldType out) rawProps out)"
  by pat_completeness auto
termination
  by (relation "measure (\<lambda>(obj, pfx, depth, out). maxFieldTypeDepth - depth)") (auto simp: maxFieldTypeDepth_def)

declare walk_field_types.simps [simp del]

definition extract_field_types :: "app_schema option \<Rightarrow> (string, string) gomap" where
  "extract_field_types schema =
     (case schema of
        None \<Rightarrow> []
      | Some s \<Rightarrow> (case as_map (sc_json_schema s) of None \<Rightarrow> [] | Some obj \<Rightarrow> walk_field_types obj '''' 0 []))"

section \<open>Form fields\<close>

text \<open>The walk along the parts of a dotted key; \<open>cur\<close> of the source is the map in hand.\<close>

fun set_path :: "string list \<Rightarrow> jval \<Rightarrow> jobj \<Rightarrow> jobj" where
  "set_path [] v cur = cur"
| "set_path [part] v cur = mput part v cur"
| "set_path (part # parts) v cur =
     (case map_of cur part of
        None \<Rightarrow> mput part (JMap (set_path parts v [])) cur
      | Some existing \<Rightarrow>
          (case as_map existing of
             None \<Rightarrow> cur
           | Some child \<Rightarrow> mput part (JMap (set_path parts v child)) cur))"

definition set_nested_spec :: "jobj \<Rightarrow> string \<Rightarrow> jval \<Rightarrow> jobj" where
  "set_nested_spec spec key v = set_path (split_on (CHR ''.'') key) v spec"

definition convert_value :: "(string \<Rightarrow> 64 word option) \<Rightarrow> string \<Rightarrow> string \<Rightarrow> jval" where
  "convert_value parse_float raw fieldType =
     (if fieldType = ''boolean'' then JBool (raw = ''true'')
      else if fieldType = ''integer'' then (case parse_int64 raw of None \<Rightarrow> JStr raw | Some n \<Rightarrow> JInt n)
      else if fieldType = ''number'' then (case parse_float raw of None \<Rightarrow> JStr raw | Some f \<Rightarrow> JFloat f)
      else JStr raw)"

text \<open>The loop over the form that both extractors run, with their own reserved keys.\<close>

definition extract_fields ::
  "(string \<Rightarrow> bool) \<Rightarrow> (string \<Rightarrow> 64 word option) \<Rightarrow> (string, string) gomap \<Rightarrow> (string, string list) gomap \<Rightarrow> jobj" where
  "extract_fields reserved parse_float fieldTypes form =
     fold (\<lambda>(key, values) spec.
        if reserved key then spec
        else case values of
          [] \<Rightarrow> spec
        | v # _ \<Rightarrow>
            if v = '''' then spec
            else set_nested_spec spec key (convert_value parse_float v (mget_or '''' fieldTypes key))) form []"

definition extract_spec_from_form ::
  "(string \<Rightarrow> 64 word option) \<Rightarrow> request \<Rightarrow> (string, string) gomap \<Rightarrow> jobj" where
  "extract_spec_from_form parse_float req fieldTypes =
     extract_fields is_reserved_form_field parse_float fieldTypes (r_form req)"

definition extract_tenant_spec ::
  "(string \<Rightarrow> 64 word option) \<Rightarrow> request \<Rightarrow> (string, string) gomap \<Rightarrow> jobj" where
  "extract_tenant_spec parse_float req fieldTypes =
     extract_fields is_reserved_tenant_form_key parse_float fieldTypes (r_form req)"

section \<open>Form or YAML\<close>

definition ErrInvalidYAMLSpec :: gerr where "ErrInvalidYAMLSpec = Sentinel ''invalid yaml spec''"
definition ErrEmptyYAMLSpec :: gerr where "ErrEmptyYAMLSpec = Sentinel ''empty yaml spec on yaml tab''"

definition parse_spec_yaml :: "'w page_handler \<Rightarrow> string \<Rightarrow> jobj res" where
  "parse_spec_yaml ph raw =
     (case ph_yaml ph raw of Inl e \<Rightarrow> Inl (Fmt2 ErrInvalidYAMLSpec '': '' e) | Inr spec \<Rightarrow> Inr spec)"

text \<open>A spec with its policy: \<open>True\<close> replaces the stored spec, \<open>False\<close> merges into it.\<close>

definition parse_yaml_spec_or_empty_error :: "'w page_handler \<Rightarrow> string \<Rightarrow> (jobj \<times> bool) res" where
  "parse_yaml_spec_or_empty_error ph raw =
     (if raw = '''' then Inl ErrEmptyYAMLSpec
      else case parse_spec_yaml ph raw of
        Inl e \<Rightarrow> Inl e
      | Inr parsed \<Rightarrow> if parsed = [] then Inl ErrEmptyYAMLSpec else Inr (parsed, True))"

definition build_spec_from_request ::
  "'w page_handler \<Rightarrow> inbound \<Rightarrow> user_context \<Rightarrow> string \<Rightarrow> 'w hstate \<Rightarrow> 'w hstate \<times> (jobj \<times> bool) res" where
  "build_spec_from_request ph inb usr appKind s =
     (let req = in_req inb; tabMode = form_value req formFieldTabMode;
          yamlRaw = trim_space (form_value req formFieldSpecYAML) in
      if tabMode = tabModeYAML then (s, parse_yaml_spec_or_empty_error ph yamlRaw)
      else if tabMode = '''' \<and> yamlRaw \<noteq> '''' then (s, parse_yaml_spec_or_empty_error ph yamlRaw)
      else case call_schema ph inb usr appKind s of
        (s', Inl e) \<Rightarrow> (s', Inl (Fmt ''fetching schema: '' e ''''))
      | (s', Inr schema) \<Rightarrow>
          (s', Inr (extract_spec_from_form (ph_parse_float ph) req (extract_field_types (Some schema)), False)))"

definition tenant_spec ::
  "'w page_handler \<Rightarrow> inbound \<Rightarrow> user_context \<Rightarrow> 'w hstate \<Rightarrow> 'w hstate \<times> jobj" where
  "tenant_spec ph inb usr s =
     (case call_schema ph inb usr tenantSchemaKind s of
        (s', r) \<Rightarrow>
          (s', extract_tenant_spec (ph_parse_float ph) (in_req inb)
                 (case r of Inl e \<Rightarrow> [] | Inr schema \<Rightarrow> extract_field_types (Some schema))))"

section \<open>Lemmas: paths of a spec under construction\<close>

lemma split_on_join: "concat (map (\<lambda>p. p @ [c]) (split_on c s)) = s @ [c]"
  by (induction s) (auto split: list.splits)

lemma split_on_inj: "split_on c s = split_on c t \<Longrightarrow> s = t"
  by (metis append1_eq_conv split_on_join)

lemma split_on_eq: "split_on c s = split_on c t \<longleftrightarrow> s = t"
  using split_on_inj by blast

lemma mput_same: "map_of m k = Some v \<Longrightarrow> mput k v m = m"
  by (induction m) auto

lemma jget_Cons: "ks \<noteq> [] \<Longrightarrow> jget m (k # ks) = (case map_of m k of Some (JMap n) \<Rightarrow> jget n ks | _ \<Rightarrow> None)"
  by (auto split: option.split jval.split)

lemma jget_single: "jget m [k] = map_of m k"
  by (simp split: option.split)

text \<open>Below a value that is not a map there is nothing.\<close>

lemma jget_append: "q \<noteq> [] \<Longrightarrow> r \<noteq> [] \<Longrightarrow> jget m (q @ r) = (case jget m q of Some (JMap n) \<Rightarrow> jget n r | _ \<Rightarrow> None)"
proof (induction m q rule: jget.induct)
  case (2 m k ks)
  then show ?case by (cases "ks = []") (auto simp: jget_Cons split: option.splits jval.splits)
qed simp

text \<open>The path is blocked when a value that is not a map stands above it.\<close>

definition blocked :: "jobj \<Rightarrow> string list \<Rightarrow> bool" where
  "blocked m ks \<longleftrightarrow> (\<exists>q w. strict_prefix q ks \<and> q \<noteq> [] \<and> jget m q = Some w \<and> \<not> is_map w)"

lemma blocked_Cons:
  "ks \<noteq> [] \<Longrightarrow> blocked m (k # ks) \<longleftrightarrow>
     (case map_of m k of None \<Rightarrow> False | Some (JMap n) \<Rightarrow> blocked n ks | Some _ \<Rightarrow> True)"
proof -
  assume ks: "ks \<noteq> []"
  have "blocked m (k # ks) \<longleftrightarrow> (\<exists>q w. strict_prefix q ks \<and> jget m (k # q) = Some w \<and> \<not> is_map w)"
    unfolding blocked_def
  proof safe
    fix q w assume "strict_prefix q (k # ks)" "q \<noteq> []" "jget m q = Some w" "\<not> is_map w"
    moreover then obtain q' where "q = k # q'" by (cases q) auto
    ultimately show "\<exists>q w. strict_prefix q ks \<and> jget m (k # q) = Some w \<and> \<not> is_map w" by auto
  next
    fix q w assume "strict_prefix q ks" "jget m (k # q) = Some w" "\<not> is_map w"
    then show "\<exists>q w. strict_prefix q (k # ks) \<and> q \<noteq> [] \<and> jget m q = Some w \<and> \<not> is_map w"
      by (intro exI [of _ "k # q"] exI [of _ w]) simp
  qed
  also have "\<dots> \<longleftrightarrow> (\<exists>w. map_of m k = Some w \<and> \<not> is_map w) \<or>
      (\<exists>q w. q \<noteq> [] \<and> strict_prefix q ks \<and> jget m (k # q) = Some w \<and> \<not> is_map w)"
    using ks by (metis jget_single strict_prefix_simps(2) strict_prefix_def Nil_prefix)
  also have "\<dots> \<longleftrightarrow> (case map_of m k of None \<Rightarrow> False | Some (JMap n) \<Rightarrow> blocked n ks | Some _ \<Rightarrow> True)"
    by (auto simp: jget_Cons blocked_def split: option.splits jval.splits)
  finally show ?thesis .
qed

lemma blocked_single: "\<not> blocked m [k]"
  by (auto simp: blocked_def strict_prefix_def prefix_Cons)

text \<open>What one field does to the spec: nothing where it is blocked, else it stores its value.\<close>

lemma set_path_blocked: "blocked m ks \<Longrightarrow> set_path ks v m = m"
proof (induction ks v m rule: set_path.induct)
  case (3 k k' ks v m)
  then show ?case by (auto simp: blocked_Cons mput_same split: option.splits jval.splits)
qed (simp_all add: blocked_single)

lemma jget_empty [simp]: "p \<noteq> [] \<Longrightarrow> jget [] p = None"
  by (cases p) simp_all

lemma not_blocked_empty [simp]: "\<not> blocked [] ks"
  by (auto simp: blocked_def)

lemma set_path_open: "\<not> blocked m ks \<Longrightarrow> ks \<noteq> [] \<Longrightarrow> jget (set_path ks v m) ks = Some v"
proof (induction ks v m rule: set_path.induct)
  case (3 k k' ks v m)
  then show ?case
    by (cases "map_of m k") (auto simp: blocked_Cons jget_Cons split: option.splits jval.splits)
qed (auto simp: jget_single)

lemma set_path_above:
  "\<not> blocked m ks \<Longrightarrow> strict_prefix q ks \<Longrightarrow> q \<noteq> [] \<Longrightarrow> \<exists>n. jget (set_path ks v m) q = Some (JMap n)"
proof (induction ks v m arbitrary: q rule: set_path.induct)
  case (3 k k' ks v m)
  then obtain q' where q: "q = k # q'" "strict_prefix q' (k' # ks)" by (cases q) auto
  show ?case
  proof (cases "q' = []")
    case True
    with 3 q show ?thesis by (auto simp: blocked_Cons jget_single split: option.splits jval.splits)
  next
    case False
    with 3 q show ?thesis by (cases "map_of m k") (auto simp: blocked_Cons jget_Cons split: option.splits jval.splits)
  qed
qed (auto simp: strict_prefix_def prefix_Cons)

lemma set_path_aside:
  "\<not> prefix ks p \<Longrightarrow> \<not> prefix p ks \<Longrightarrow> jget (set_path ks v m) p = jget m p"
proof (induction ks v m arbitrary: p rule: set_path.induct)
  case (2 k v m)
  then obtain a as where p: "p = a # as" "a \<noteq> k" by (cases p) auto
  then show ?case by (simp split: option.split)
next
  case (3 k k' ks v m)
  then obtain a as where p: "p = a # as" by (cases p) auto
  show ?case
  proof (cases "a = k")
    case True
    with 3 p have as: "\<not> prefix (k' # ks) as" "\<not> prefix as (k' # ks)" "as \<noteq> []" by auto
    with 3(1) 3(2) p True show ?thesis
      by (cases "map_of m k") (auto simp: jget_Cons split: option.splits jval.splits)
  next
    case False
    with p show ?thesis by (auto split: option.split)
  qed
qed simp

lemma wf_set_path: "wf_obj m \<Longrightarrow> wf_val v \<Longrightarrow> wf_obj (set_path ks v m)"
proof (induction ks v m rule: set_path.induct)
  case (2 k v m)
  then show ?case by (simp only: set_path.simps) (rule wf_mput)
next
  case (3 k k' ks v m)
  show ?case
  proof (cases "map_of m k")
    case None
    with 3(1) [OF None] 3(4) have "wf_val (JMap (set_path (k' # ks) v []))" by simp
    with None 3(3) show ?thesis by (simp only: set_path.simps option.case) (rule wf_mput)
  next
    case (Some e)
    show ?thesis
    proof (cases "as_map e")
      case (Some child)
      then have e: "e = JMap child" by simp
      with wf_map_of [OF 3(3) \<open>map_of m k = Some e\<close>] have "wf_obj child" by simp
      with 3(2) [OF \<open>map_of m k = Some e\<close> Some] 3(4) have "wf_val (JMap (set_path (k' # ks) v child))" by simp
      with 3(3) \<open>map_of m k = Some e\<close> Some show ?thesis by (simp only: set_path.simps option.case) (rule wf_mput)
    qed (use 3(3) \<open>map_of m k = Some e\<close> in simp)
  qed
qed simp

lemma not_map_case: "\<not> is_map w \<Longrightarrow> (case w of JMap n \<Rightarrow> f n | _ \<Rightarrow> None) = None"
  by (cases w) simp_all

lemma set_path_scalar:
  assumes "ks \<noteq> []" "\<not> is_map v" "p \<noteq> []" "\<not> is_map w"
  shows "jget (set_path ks v m) p = Some w \<longleftrightarrow>
    (if blocked m ks then jget m p = Some w
     else if p = ks then w = v else \<not> strict_prefix ks p \<and> jget m p = Some w)"
proof (cases "blocked m ks")
  case True
  then show ?thesis by (simp add: set_path_blocked)
next
  case False
  consider (same) "p = ks" | (below) "strict_prefix ks p" | (above) "strict_prefix p ks" | (aside) "\<not> prefix ks p" "\<not> prefix p ks"
    by (auto simp: strict_prefix_def)
  then show ?thesis
  proof cases
    case same
    with False assms show ?thesis by (auto simp: set_path_open)
  next
    case below
    then obtain r where p: "p = ks @ r" "r \<noteq> []" by (auto elim!: strict_prefixE')
    with assms set_path_open [OF False] have "jget (set_path ks v m) p = None"
      by (simp add: jget_append not_map_case)
    with False below assms show ?thesis by auto
  next
    case above
    from set_path_above [OF False above assms(3), of v] obtain n where "jget (set_path ks v m) p = Some (JMap n)" ..
    with assms(4) have "jget (set_path ks v m) p \<noteq> Some w" by auto
    moreover from False above assms(3,4) have "jget m p \<noteq> Some w" unfolding blocked_def by blast
    moreover from above have "p \<noteq> ks" by simp
    ultimately show ?thesis using False by simp
  next
    case aside
    with False set_path_aside [OF aside, of v m] show ?thesis by (auto simp: strict_prefix_def)
  qed
qed

text \<open>The fields of a form that count, as paths and values.\<close>

definition form_entries ::
  "(string \<Rightarrow> bool) \<Rightarrow> (string \<Rightarrow> 64 word option) \<Rightarrow> (string, string) gomap \<Rightarrow> (string, string list) gomap \<Rightarrow>
     (string list \<times> jval) list" where
  "form_entries reserved parse_float types form =
     List.map_filter (\<lambda>(key, values). case values of
         [] \<Rightarrow> None
       | v # _ \<Rightarrow> if reserved key \<or> v = '''' then None
           else Some (split_on (CHR ''.'') key, convert_value parse_float v (mget_or '''' types key))) form"

lemma extract_fields_entries:
  "extract_fields reserved pf types form = fold (\<lambda>(ks, v). set_path ks v) (form_entries reserved pf types form) []"
proof -
  have "fold (\<lambda>(key, values) spec.
        if reserved key then spec
        else case values of
          [] \<Rightarrow> spec
        | v # _ \<Rightarrow> if v = '''' then spec
            else set_nested_spec spec key (convert_value pf v (mget_or '''' types key))) form m =
      fold (\<lambda>(ks, v). set_path ks v) (form_entries reserved pf types form) m" for m
    by (induction form arbitrary: m)
      (auto simp: form_entries_def map_filter_simps set_nested_spec_def split: list.splits)
  then show ?thesis by (simp add: extract_fields_def)
qed

lemma form_entries_paths:
  "distinct (map fst form) \<Longrightarrow> distinct (map fst (form_entries reserved pf types form))"
proof (induction form)
  case (Cons p form)
  obtain key vs where p: "p = (key, vs)" by fastforce
  have "split_on (CHR ''.'') key \<notin> fst ` set (form_entries reserved pf types form)"
  proof
    assume "split_on (CHR ''.'') key \<in> fst ` set (form_entries reserved pf types form)"
    then obtain k' vs' where "(k', vs') \<in> set form" "split_on (CHR ''.'') k' = split_on (CHR ''.'') key"
      by (auto simp: form_entries_def List.map_filter_def split: list.splits if_splits)
    with Cons.prems p split_on_inj [of "CHR ''.''" k' key] show False by (auto intro: rev_image_eqI)
  qed
  with Cons p show ?case by (auto simp: form_entries_def map_filter_simps split: list.splits)
qed (simp add: form_entries_def List.map_filter_def)

lemma convert_value_scalar: "\<not> is_map (convert_value pf v t)" "wf_val (convert_value pf v t)"
  by (auto simp: convert_value_def split: option.split)

lemma form_entries_shape:
  "(ks, v) \<in> set (form_entries reserved pf types form) \<Longrightarrow> ks \<noteq> [] \<and> \<not> is_map v \<and> wf_val v"
  using convert_value_scalar
  by (auto simp: form_entries_def List.map_filter_def split: list.splits if_splits)

lemma shortest_witness:
  assumes "P q0"
  shows "\<exists>q. P q \<and> (\<forall>r. P r \<longrightarrow> length q \<le> length r)"
  using ex_has_least_nat [of P q0 length] assms by blast

lemma fold_set_path:
  assumes "distinct (map fst es)" "\<forall>(ks, v)\<in>set es. ks \<noteq> [] \<and> \<not> is_map v" "p \<noteq> []" "\<not> is_map w"
  shows "jget (fold (\<lambda>(ks, v). set_path ks v) es []) p = Some w \<longleftrightarrow>
    (p, w) \<in> set es \<and> (\<forall>q\<in>fst ` set es. \<not> strict_prefix q p)"
  using assms
proof (induction es arbitrary: p w rule: rev_induct)
  case (snoc e es)
  obtain ks v where e: "e = (ks, v)" by fastforce
  let ?m = "fold (\<lambda>(ks, v). set_path ks v) es []"
  from snoc.prems e have ks: "ks \<noteq> []" "\<not> is_map v" "ks \<notin> fst ` set es" by auto
  have IH: "jget ?m q = Some u \<longleftrightarrow> (q, u) \<in> set es \<and> (\<forall>r\<in>fst ` set es. \<not> strict_prefix r q)"
    if "q \<noteq> []" "\<not> is_map u" for q u
    using that snoc.IH snoc.prems(1,2) by simp
  have bl: "blocked ?m ks \<longleftrightarrow> (\<exists>q\<in>fst ` set es. strict_prefix q ks)"
  proof
    assume "blocked ?m ks"
    then obtain q u where "strict_prefix q ks" "q \<noteq> []" "jget ?m q = Some u" "\<not> is_map u"
      by (auto simp: blocked_def)
    with IH [of q u] show "\<exists>q\<in>fst ` set es. strict_prefix q ks" by force
  next
    assume "\<exists>q\<in>fst ` set es. strict_prefix q ks"
    then obtain q0 where "q0 \<in> fst ` set es \<and> strict_prefix q0 ks" by blast
    from shortest_witness [of "\<lambda>q. q \<in> fst ` set es \<and> strict_prefix q ks", OF this] obtain q
      where q: "q \<in> fst ` set es" "strict_prefix q ks"
        and least: "\<And>r. r \<in> fst ` set es \<Longrightarrow> strict_prefix r ks \<Longrightarrow> length q \<le> length r" by blast
    then obtain u where u: "(q, u) \<in> set es" by auto
    with snoc.prems(2) have qu: "q \<noteq> []" "\<not> is_map u" by auto
    have "\<not> strict_prefix r q" if r: "r \<in> fst ` set es" for r
    proof
      assume "strict_prefix r q"
      then have "strict_prefix r ks" "length r < length q"
        by (rule prefix_order.less_trans [OF _ q(2)]) (rule prefix_length_less, fact)
      with least [OF r] show False by simp
    qed
    with IH [OF qu] u have "jget ?m q = Some u" by blast
    with q(2) qu show "blocked ?m ks" unfolding blocked_def by blast
  qed
  show ?case
  proof (cases "blocked ?m ks")
    case True
    then obtain q where q: "q \<in> fst ` set es" "strict_prefix q ks" using bl by blast
    then have up: "\<exists>q\<in>fst ` set es. strict_prefix q p" if "strict_prefix ks p"
      using that prefix_order.less_trans by blast
    have "fold (\<lambda>(ks, v). set_path ks v) (es @ [e]) [] = ?m" using True by (simp add: e set_path_blocked)
    moreover have "(\<forall>r\<in>fst ` set (es @ [e]). \<not> strict_prefix r p) \<longleftrightarrow> (\<forall>r\<in>fst ` set es. \<not> strict_prefix r p)"
      using up by (auto simp: e)
    moreover have "(p, w) \<in> set es \<longleftrightarrow> (p, w) \<in> set (es @ [e])" if "\<forall>r\<in>fst ` set es. \<not> strict_prefix r p"
      using that q by (auto simp: e)
    ultimately show ?thesis using IH [OF snoc.prems(3,4)] by argo
  next
    case False
    have "fold (\<lambda>(ks, v). set_path ks v) (es @ [e]) [] = set_path ks v ?m" by (simp add: e)
    with False have step: "jget (fold (\<lambda>(ks, v). set_path ks v) (es @ [e]) []) p = Some w \<longleftrightarrow>
        (if p = ks then w = v else \<not> strict_prefix ks p \<and> jget ?m p = Some w)"
      by (simp only: set_path_scalar [OF ks(1,2) snoc.prems(3,4)] if_False)
    show ?thesis
    proof (cases "p = ks")
      case True
      with ks(3) have "(p, w) \<in> set (es @ [e]) \<longleftrightarrow> w = v" by (auto simp: e intro: rev_image_eqI)
      moreover have "\<forall>r\<in>fst ` set (es @ [e]). \<not> strict_prefix r p" using False bl True by (auto simp: e)
      ultimately show ?thesis using step True by simp
    next
      case False
      then have "(p, w) \<in> set (es @ [e]) \<longleftrightarrow> (p, w) \<in> set es" by (simp add: e)
      moreover have "(\<forall>r\<in>fst ` set (es @ [e]). \<not> strict_prefix r p) \<longleftrightarrow>
          \<not> strict_prefix ks p \<and> (\<forall>r\<in>fst ` set es. \<not> strict_prefix r p)" by (auto simp: e)
      ultimately show ?thesis using step False IH [OF snoc.prems(3,4)] by argo
    qed
  qed
qed simp

lemma wf_fold_set_path:
  "wf_obj m \<Longrightarrow> \<forall>(ks, v)\<in>set es. wf_val v \<Longrightarrow> wf_obj (fold (\<lambda>(ks, v). set_path ks v) es m)"
proof (induction es arbitrary: m)
  case (Cons e es)
  obtain ks v where e: "e = (ks, v)" by fastforce
  with Cons.prems have "wf_obj (set_path ks v m)" by (intro wf_set_path) auto
  with Cons.IH [of "set_path ks v m"] Cons.prems(2) show ?case by (simp add: e)
qed simp

text \<open>What the form submits for a key: the first value of a field that is neither reserved nor empty.\<close>

definition submitted :: "(string \<Rightarrow> bool) \<Rightarrow> (string, string list) gomap \<Rightarrow> string \<Rightarrow> string option" where
  "submitted reserved form key =
     (case map_of form key of
        Some (v # _) \<Rightarrow> if reserved key \<or> v = '''' then None else Some v
      | _ \<Rightarrow> None)"

lemma mem_map_filter: "e \<in> set (List.map_filter f xs) \<longleftrightarrow> (\<exists>x\<in>set xs. f x = Some e)"
  by (induction xs) (auto simp: map_filter_simps split: option.splits)

lemma form_entries_iff:
  assumes "distinct (mkeys form)"
  shows "(ks, w) \<in> set (form_entries reserved pf types form) \<longleftrightarrow>
    (\<exists>key v. ks = split_on (CHR ''.'') key \<and> submitted reserved form key = Some v \<and>
       w = convert_value pf v (mget_or '''' types key))"
proof -
  have sub: "submitted reserved form key = Some v \<longleftrightarrow> (\<exists>vs. (key, v # vs) \<in> set form \<and> \<not> reserved key \<and> v \<noteq> '''')" for key v
    unfolding map_of_eq_Some_iff [OF assms, symmetric]
    by (auto simp: submitted_def split: option.splits list.splits if_splits)
  have "(ks, w) \<in> set (form_entries reserved pf types form) \<longleftrightarrow>
      (\<exists>key v vs. (key, v # vs) \<in> set form \<and> \<not> reserved key \<and> v \<noteq> '''' \<and>
         ks = split_on (CHR ''.'') key \<and> w = convert_value pf v (mget_or '''' types key))"
  proof
    assume "(ks, w) \<in> set (form_entries reserved pf types form)"
    then obtain key vs where k: "(key, vs) \<in> set form"
      "(case vs of [] \<Rightarrow> None | v # _ \<Rightarrow> if reserved key \<or> v = '''' then None
        else Some (split_on (CHR ''.'') key, convert_value pf v (mget_or '''' types key))) = Some (ks, w)"
      by (auto simp: form_entries_def mem_map_filter)
    then show "\<exists>key v vs. (key, v # vs) \<in> set form \<and> \<not> reserved key \<and> v \<noteq> '''' \<and>
        ks = split_on (CHR ''.'') key \<and> w = convert_value pf v (mget_or '''' types key)"
      by (cases vs) (auto split: if_splits)
  next
    assume "\<exists>key v vs. (key, v # vs) \<in> set form \<and> \<not> reserved key \<and> v \<noteq> '''' \<and>
        ks = split_on (CHR ''.'') key \<and> w = convert_value pf v (mget_or '''' types key)"
    then obtain key v vs where "(key, v # vs) \<in> set form" "\<not> reserved key" "v \<noteq> ''''"
      "ks = split_on (CHR ''.'') key" "w = convert_value pf v (mget_or '''' types key)" by blast
    then show "(ks, w) \<in> set (form_entries reserved pf types form)"
      by (auto simp: form_entries_def mem_map_filter intro!: bexI [of _ "(key, v # vs)"])
  qed
  also have "\<dots> \<longleftrightarrow> (\<exists>key v. ks = split_on (CHR ''.'') key \<and> submitted reserved form key = Some v \<and>
       w = convert_value pf v (mget_or '''' types key))"
    unfolding sub by blast
  finally show ?thesis .
qed

lemma extract_fields_at:
  assumes "distinct (mkeys form)" "p \<noteq> []" "\<not> is_map w"
  shows "jget (extract_fields reserved pf types form) p = Some w \<longleftrightarrow>
    (\<exists>key v. p = split_on (CHR ''.'') key \<and> submitted reserved form key = Some v \<and>
       w = convert_value pf v (mget_or '''' types key)) \<and>
    (\<forall>key. submitted reserved form key \<noteq> None \<longrightarrow> \<not> strict_prefix (split_on (CHR ''.'') key) p)"
proof -
  let ?es = "form_entries reserved pf types form"
  have shape: "\<forall>(ks, v)\<in>set ?es. ks \<noteq> [] \<and> \<not> is_map v" using form_entries_shape by blast
  have "distinct (map fst ?es)" using form_entries_paths assms(1) by simp
  from fold_set_path [OF this shape assms(2,3)]
  have "jget (extract_fields reserved pf types form) p = Some w \<longleftrightarrow>
      (p, w) \<in> set ?es \<and> (\<forall>q\<in>fst ` set ?es. \<not> strict_prefix q p)"
    by (simp only: extract_fields_entries)
  also have "(\<forall>q\<in>fst ` set ?es. \<not> strict_prefix q p) \<longleftrightarrow> (\<forall>ks w. (ks, w) \<in> set ?es \<longrightarrow> \<not> strict_prefix ks p)"
    by fastforce
  finally show ?thesis unfolding form_entries_iff [OF assms(1)] by blast
qed

lemma wf_extract_fields: "wf_obj (extract_fields reserved pf types form)"
  unfolding extract_fields_entries
  by (rule wf_fold_set_path) (use form_entries_shape in \<open>auto\<close>)

lemma submitted_perm:
  assumes "distinct (mkeys form)" "mset form' = mset form"
  shows "submitted reserved form' = submitted reserved form"
proof -
  from assms have "map_of form' = map_of form"
    by (metis map_of_inject_set mset_map mset_eq_setD mset_eq_imp_distinct_iff)
  then show ?thesis by (simp add: submitted_def fun_eq_iff)
qed

section \<open>Properties\<close>

text \<open>
  C13: the spec a form makes is the form. With distinct field names, a value stands at the dotted
  key's path in the spec exactly when the form submits that field, the value is the field's first
  one converted by the type of the schema, and no submitted field stands on a strict prefix of
  the path; where two fields collide the shorter one wins. The order in which the loop visits
  the form's map is without influence.
\<close>

theorem form_fields_are_the_spec:
  assumes "distinct (mkeys (r_form req))" "\<not> is_map w"
  shows "(jget (extract_spec_from_form pf req types) (split_on (CHR ''.'') key) = Some w \<longleftrightarrow>
      (\<exists>v. submitted is_reserved_form_field (r_form req) key = Some v \<and>
         w = convert_value pf v (mget_or '''' types key)) \<and>
      (\<forall>key'. submitted is_reserved_form_field (r_form req) key' \<noteq> None \<longrightarrow>
         \<not> strict_prefix (split_on (CHR ''.'') key') (split_on (CHR ''.'') key))) \<and>
    (\<forall>form'. mset form' = mset (r_form req) \<longrightarrow>
       (jget (extract_spec_from_form pf (req\<lparr>r_form := form'\<rparr>) types) (split_on (CHR ''.'') key) = Some w \<longleftrightarrow>
        jget (extract_spec_from_form pf req types) (split_on (CHR ''.'') key) = Some w))"
proof -
  have at: "jget (extract_spec_from_form pf (req\<lparr>r_form := form\<rparr>) types) (split_on (CHR ''.'') key) = Some w \<longleftrightarrow>
      (\<exists>v. submitted is_reserved_form_field form key = Some v \<and> w = convert_value pf v (mget_or '''' types key)) \<and>
      (\<forall>key'. submitted is_reserved_form_field form key' \<noteq> None \<longrightarrow>
         \<not> strict_prefix (split_on (CHR ''.'') key') (split_on (CHR ''.'') key))"
    if "distinct (mkeys form)" for form
    by (simp add: extract_spec_from_form_def extract_fields_at [OF that split_on_not_Nil assms(2)] split_on_eq)
  have "distinct (mkeys form')" if "mset form' = mset (r_form req)" for form'
    using assms(1) that by (metis mset_map mset_eq_imp_distinct_iff)
  then have "jget (extract_spec_from_form pf (req\<lparr>r_form := form'\<rparr>) types) (split_on (CHR ''.'') key) = Some w \<longleftrightarrow>
      jget (extract_spec_from_form pf (req\<lparr>r_form := r_form req\<rparr>) types) (split_on (CHR ''.'') key) = Some w"
    if "mset form' = mset (r_form req)" for form'
    using that submitted_perm [OF assms(1) that] by (simp only: at assms(1))
  with at [OF assms(1)] show ?thesis by simp
qed

definition sample_form :: request where
  "sample_form = blank_request\<lparr>r_form := [(''name'', [''db'']), (''backup.keep'', [''7'']), (''size'', [''''])]\<rparr>"

theorem form_fields_are_the_spec_witness:
  "extract_spec_from_form (\<lambda>_. None) sample_form [(''backup.keep'', ''integer'')] = [(''backup'', JMap [(''keep'', JInt 7)])] \<and>
   submitted is_reserved_form_field (r_form sample_form) ''backup.keep'' = Some ''7'' \<and>
   submitted is_reserved_form_field (r_form sample_form) ''backup'' = None"
proof -
  have "distinct (mkeys (r_form sample_form))" by code_simp
  moreover have "\<not> is_map (JInt 7)" by simp
  ultimately have it: "jget (extract_spec_from_form (\<lambda>_. None) sample_form [(''backup.keep'', ''integer'')]) (split_on (CHR ''.'') ''backup.keep'') = Some (JInt 7) \<Longrightarrow>
      submitted is_reserved_form_field (r_form sample_form) key' \<noteq> None \<Longrightarrow>
      \<not> strict_prefix (split_on (CHR ''.'') key') (split_on (CHR ''.'') ''backup.keep'')" for key'
    using form_fields_are_the_spec by blast
  have e: "extract_spec_from_form (\<lambda>_. None) sample_form [(''backup.keep'', ''integer'')] = [(''backup'', JMap [(''keep'', JInt 7)])]"
    "submitted is_reserved_form_field (r_form sample_form) ''backup.keep'' = Some ''7''"
    "split_on (CHR ''.'') ''backup.keep'' = [''backup'', ''keep'']" "split_on (CHR ''.'') ''backup'' = [''backup'']"
    by code_simp+
  from it [of "''backup''"] e have "submitted is_reserved_form_field (r_form sample_form) ''backup'' = None"
    by (cases "submitted is_reserved_form_field (r_form sample_form) ''backup''") auto
  with e show ?thesis by blast
qed

fun typed_as :: "string \<Rightarrow> jval \<Rightarrow> bool" where
  "typed_as t (JBool b) = (t = ''boolean'')"
| "typed_as t (JInt n) = (t = ''integer'' \<and> int64_min \<le> n \<and> n \<le> int64_max)"
| "typed_as t (JFloat f) = (t = ''number'')"
| "typed_as t (JStr s) = (t \<noteq> ''boolean'' \<and> s \<noteq> '''')"
| "typed_as t _ = False"

lemma convert_value_typed: "v \<noteq> '''' \<Longrightarrow> typed_as t (convert_value pf v t)"
  using parse_int64_range by (auto simp: convert_value_def split: option.split)



lemma build_spec_yaml:
  assumes "parse_yaml_spec_or_empty_error ph raw = Inr (spec, replace)"
  shows "replace \<and> raw \<noteq> '''' \<and> spec \<noteq> [] \<and> ph_yaml ph raw = Inr spec"
  using assms
  by (auto simp: parse_yaml_spec_or_empty_error_def parse_spec_yaml_def split: if_splits sum.splits)

lemma mput_not_Nil [simp]: "mput k v m \<noteq> []"
  by (cases m) auto

lemma deep_merge_keeps_some: "b \<noteq> [] \<Longrightarrow> deep_merge_spec b i \<noteq> []"
proof (induction i arbitrary: b)
  case (Cons p i)
  obtain k v where p: "p = (k, v)" by fastforce
  show ?case unfolding p deep_merge_Cons by (rule Cons.IH) simp
qed simp

text \<open>
  C31: the source of a spec and its policy go together. A spec that replaces the stored one is the
  non-empty document of the YAML field, read without a call to the cluster; a spec that merges
  was extracted from the form with the types of the kind's schema, on a request that is not on
  the YAML tab and, where it names no tab, has no YAML. Written over a stored spec that is not
  empty, neither leaves it empty.
\<close>

theorem spec_source_fixes_the_policy:
  assumes "build_spec_from_request ph inb usr kind s = (s', Inr (spec, replace))"
  shows "(if replace then spec \<noteq> [] \<and> s' = s \<and> form_value (in_req inb) formFieldTabMode \<in> {tabModeYAML, ''''} \<and>
        ph_yaml ph (trim_space (form_value (in_req inb) formFieldSpecYAML)) = Inr spec
      else form_value (in_req inb) formFieldTabMode \<noteq> tabModeYAML \<and>
        (form_value (in_req inb) formFieldTabMode = '''' \<longrightarrow>
           trim_space (form_value (in_req inb) formFieldSpecYAML) = '''') \<and>
        (\<exists>schema. call_schema ph inb usr kind s = (s', Inr schema) \<and>
           spec = extract_spec_from_form (ph_parse_float ph) (in_req inb) (extract_field_types (Some schema)))) \<and>
    (existing \<noteq> [] \<longrightarrow> pick_next_spec existing spec replace \<noteq> [])"
proof -
  let ?tab = "form_value (in_req inb) formFieldTabMode"
  let ?raw = "trim_space (form_value (in_req inb) formFieldSpecYAML)"
  consider (yaml) "?tab = tabModeYAML \<or> ?tab = '''' \<and> ?raw \<noteq> ''''"
    "s' = s" "parse_yaml_spec_or_empty_error ph ?raw = Inr (spec, replace)"
    | (form) schema where "?tab \<noteq> tabModeYAML" "?tab = '''' \<longrightarrow> ?raw = ''''"
      "call_schema ph inb usr kind s = (s', Inr schema)" "\<not> replace"
      "spec = extract_spec_from_form (ph_parse_float ph) (in_req inb) (extract_field_types (Some schema))"
    using assms by (auto simp: build_spec_from_request_def Let_def split: if_splits prod.splits sum.splits)
  then show ?thesis
  proof cases
    case yaml
    with build_spec_yaml [OF yaml(3)] show ?thesis by (auto simp: pick_next_spec_def)
  next
    case form
    with deep_merge_keeps_some [of existing spec] show ?thesis by (auto simp: pick_next_spec_def)
  qed
qed

definition yaml_form :: "string \<Rightarrow> inbound" where
  "yaml_form raw = sample_inbound (blank_request\<lparr>r_form := [(formFieldTabMode, [''yaml'']), (formFieldSpecYAML, [raw])]\<rparr>)"

theorem spec_source_fixes_the_policy_witness:
  "ph_yaml sample_handler (trim_space (form_value (in_req (yaml_form ''replicas: 3'')) formFieldSpecYAML)) = Inr [(''replicas'', JInt 3)] \<and>
   snd (build_spec_from_request sample_handler (yaml_form ''{}'') sample_user ''Postgres'' sample_state) = Inl ErrEmptyYAMLSpec"
proof -
  let ?run = "build_spec_from_request sample_handler (yaml_form ''replicas: 3'') sample_user ''Postgres'' sample_state"
  have v: "snd ?run = Inr ([(''replicas'', JInt 3)], True)" by code_simp
  then have "?run = (fst ?run, Inr ([(''replicas'', JInt 3)], True))" by (metis prod.collapse)
  from spec_source_fixes_the_policy [OF this]
  have "ph_yaml sample_handler (trim_space (form_value (in_req (yaml_form ''replicas: 3'')) formFieldSpecYAML)) = Inr [(''replicas'', JInt 3)]"
    by simp
  moreover have "snd (build_spec_from_request sample_handler (yaml_form ''{}'') sample_user ''Postgres'' sample_state) = Inl ErrEmptyYAMLSpec"
    by code_simp
  ultimately show ?thesis by blast
qed

text \<open>A word over the label characters, with letters or digits at its ends, passes the label rule.\<close>

lemma label_valueI:
  assumes "s \<noteq> []" "length s \<le> 63" "alnum (hd s)" "alnum (last s)" "\<forall>c\<in>set s. label_mid c"
  shows "is_valid_label_value s"
proof -
  have "set (butlast (tl s)) \<subseteq> set s" by (meson in_set_butlastD list.set_sel(2) subsetI assms(1))
  with assms show ?thesis
    by (auto simp: is_valid_label_value_def maxLabelValueLength_def labelValueRegex_def bounded_word_iff)
qed

text \<open>
  The names the forms accept are names the cluster accepts. An application name is a valid
  label value of at most 53 characters, so the guard of the service never refuses it; a tenant name with
  its namespace prefix is one too, within the 63 characters of a DNS label, and has no dash, so
  that the release name has exactly one.
\<close>

theorem accepted_names_fit:
  "(valid_app_name n \<longrightarrow> is_valid_label_value n \<and> length n \<le> 53 \<and> (\<forall>c\<in>set n. lower_alnum c \<or> c = CHR ''-'')) \<and>
   (valid_tenant_name n \<longrightarrow> is_valid_label_value (tenantNamespacePrefix @ n) \<and>
      length (tenantNamespacePrefix @ n) \<le> 63 \<and> count_list (tenantNamespacePrefix @ n) (CHR ''-'') = 1)"
proof (intro conjI impI)
  assume n: "valid_app_name n"
  then have len: "length n \<le> 53" and mid: "\<forall>c\<in>set n. dns_mid c"
    using app_name_rule.accepts_fits app_name_rule.accepts_chars by (auto simp: maxAppNameLength_def)
  from n have "n \<noteq> []" "lower_alnum (hd n)" "lower_alnum (last n)"
    by (auto simp: valid_app_name_def appNameRegex_def bounded_word_iff split: if_splits)
  then show "is_valid_label_value n"
    by (intro label_valueI) (use len mid in \<open>auto simp: lower_alnum_def alnum_def dns_mid_def label_mid_def\<close>)
  show "length n \<le> 53" by (fact len)
  show "\<forall>c\<in>set n. lower_alnum c \<or> c = CHR ''-''" using mid by (simp add: dns_mid_def)
next
  assume n: "valid_tenant_name n"
  then have "n \<noteq> []" and len: "length (tenantNamespacePrefix @ n) \<le> 63" and chars: "\<forall>c\<in>set n. lower_alnum c"
    by (auto simp: valid_tenant_name_def tenantNameRegex_def headed_word_iff maxTenantNameLength_def
        tenantNamespacePrefix_def lower_alnum_def split: if_splits)
      (metis list.collapse set_ConsD)
  moreover have "\<forall>c\<in>set tenantNamespacePrefix. label_mid c" "alnum (hd (tenantNamespacePrefix @ n))"
    by (simp_all add: tenantNamespacePrefix_def label_mid_def char_class_defs less_eq_char_def)
  ultimately show "is_valid_label_value (tenantNamespacePrefix @ n)"
    by (intro label_valueI) (auto simp: lower_alnum_def alnum_def label_mid_def)
  show "length (tenantNamespacePrefix @ n) \<le> 63" by (fact len)
  have "CHR ''-'' \<notin> set n" using chars by (auto simp: char_class_defs less_eq_char_def)
  then show "count_list (tenantNamespacePrefix @ n) (CHR ''-'') = 1"
    by (simp add: tenantNamespacePrefix_def count_notin)
qed

theorem accepted_names_fit_witness:
  "is_valid_label_value ''my-db'' \<and> is_valid_label_value ''tenant-acme'' \<and> \<not> valid_app_name ''My.db'' \<and>
   \<not> valid_tenant_name ''a-b''"
proof -
  have "valid_app_name ''my-db''" "valid_tenant_name ''acme''" by code_simp+
  with accepted_names_fit have "is_valid_label_value ''my-db''" "is_valid_label_value (tenantNamespacePrefix @ ''acme'')"
    by blast+
  moreover have "\<not> valid_app_name ''My.db''" "\<not> valid_tenant_name ''a-b''" by code_simp+
  ultimately show ?thesis by (simp add: tenantNamespacePrefix_def)
qed

end
