(* ===== verification/App_Mutations.thy ===== *)
theory App_Mutations
  imports Page_Forms
begin

text \<open>
  The handlers of \<open>crud.go\<close> that create, update and delete an application, and the two fragments
  of \<open>fragment.go\<close> that turn the form into YAML and back. Every mutation is a handler of
  \<open>Page_Core\<close> and meets its contract with its own audit action.
\<close>

section \<open>crud.go\<close>

text \<open>
  \<open>ParseForm\<close> under \<open>MaxBytesReader\<close>: \<open>r_form_err\<close> is its error, a body above
  \<open>maxFormBytes\<close> included.
\<close>

definition with_form :: "inbound \<Rightarrow> string \<Rightarrow> 'w handler \<Rightarrow> 'w handler" where
  "with_form inb msg next' w s =
     (case r_form_err (in_req inb) of Some e \<Rightarrow> (s, http_error msg 400 w) | None \<Rightarrow> next' w s)"

definition report_spec_build_error ::
  "inbound \<Rightarrow> user_context \<Rightarrow> action \<Rightarrow> string \<Rightarrow> string \<Rightarrow> string \<Rightarrow> gerr \<Rightarrow> 'w handler" where
  "report_spec_build_error inb usr act appName kind tenantNS err w s =
     (if errors_is err ErrInvalidYAMLSpec \<or> errors_is err ErrEmptyYAMLSpec then
        let reason = (if errors_is err ErrEmptyYAMLSpec then ''empty_yaml'' else ''invalid_yaml'') in
        (record_audit inb usr act appName tenantNS OutcomeDenied
           [(''kind'', JStr kind), (''reason'', JStr reason), (''error'', JStr (err_text err))] s,
         render_error_toast (translate inb ''error.app.invalidSpec'' []) w)
      else
        (record_audit inb usr act appName tenantNS OutcomeError
           [(''kind'', JStr kind), (''reason'', JStr ''spec_build_failed''), (''error'', JStr (err_text err))] s,
         render_error_toast (translate inb ''error.schema.load'' [(''Kind'', kind)]) w))"

definition do_create_app ::
  "'w page_handler \<Rightarrow> inbound \<Rightarrow> user_context \<Rightarrow> string \<Rightarrow> string \<Rightarrow> string \<Rightarrow> 'w handler" where
  "do_create_app ph inb usr tenantNS appName appKind w s =
     (case build_spec_from_request ph inb usr appKind s of
        (s1, Inl specErr) \<Rightarrow> report_spec_build_error inb usr ActionAppCreate appName appKind tenantNS specErr w s1
      | (s1, Inr (spec, _)) \<Rightarrow>
          (case call_kop (app_create (ph_kube ph) (in_now inb) usr tenantNS
                  \<lparr>cr_name = appName, cr_kind = appKind, cr_spec = spec\<rparr>) s1 of
             (s2, Inl e) \<Rightarrow>
               (record_audit inb usr ActionAppCreate appName tenantNS OutcomeError
                  [(''kind'', JStr appKind), (''error'', JStr (err_text e))] s2,
                render_error_toast (translate inb ''error.app.create'' [(''Name'', appName)]) w)
           | (s2, Inr created) \<Rightarrow>
               tenant_page ph inb (emit_success_toast (translate inb ''toast.app.created'' [(''Name'', appName)]) w)
                 (record_audit inb usr ActionAppCreate appName tenantNS OutcomeSuccess
                    [(''kind'', JStr appKind)] s2)))"

definition create_app :: "'w page_handler \<Rightarrow> inbound \<Rightarrow> 'w handler" where
  "create_app ph inb = require_user inb (\<lambda>usr. with_form inb ''bad request'' (\<lambda>w s.
     (let req = in_req inb; tenantNS = path_value req ''tenant'';
          appName = form_value req formFieldName; appKind = form_value req formFieldKind in
      if appName = '''' \<or> appKind = '''' then (s, http_error ''name and kind required'' 400 w)
      else if \<not> valid_app_name appName then
        (record_audit inb usr ActionAppCreate appName tenantNS OutcomeDenied
           [(''reason'', JStr ''invalid_name''), (''kind'', JStr appKind)] s,
         render_error_toast (translate inb ''error.app.invalidName'' []) w)
      else do_create_app ph inb usr tenantNS appName appKind w s)))"

definition do_update_app ::
  "'w page_handler \<Rightarrow> inbound \<Rightarrow> user_context \<Rightarrow> string \<Rightarrow> string \<Rightarrow> 'w handler" where
  "do_update_app ph inb usr tenantNS appName w s =
     (case call_kop (app_get_spec_snapshot (ph_kube ph) usr tenantNS appName) s of
        (s1, Inl e) \<Rightarrow> (s1, render_error_toast (translate inb ''error.app.load'' [(''Name'', appName)]) w)
      | (s1, Inr snap) \<Rightarrow>
          let kind = sn_kind snap in
          (case build_spec_from_request ph inb usr kind s1 of
             (s2, Inl specErr) \<Rightarrow> report_spec_build_error inb usr ActionAppUpdate appName kind tenantNS specErr w s2
           | (s2, Inr (newSpec, replaceSpec)) \<Rightarrow>
               (case call_kop (app_update (ph_kube ph) (in_now inb) usr tenantNS appName
                       \<lparr>ur_spec = newSpec,
                        ur_resource_version = form_value (in_req inb) formFieldResourceVersion,
                        ur_replace_spec = replaceSpec\<rparr>) s2 of
                  (s3, Inl e) \<Rightarrow>
                    if errors_is e ErrConflict then
                      (record_audit inb usr ActionAppUpdate appName tenantNS OutcomeError
                         [(''reason'', JStr ''conflict''), (''kind'', JStr kind)] s3,
                       render_error_toast (translate inb ''error.app.conflict'' [(''Name'', appName)]) w)
                    else
                      (record_audit inb usr ActionAppUpdate appName tenantNS OutcomeError
                         [(''kind'', JStr kind), (''error'', JStr (err_text e))] s3,
                       render_error_toast (translate inb ''error.app.update'' [(''Name'', appName)]) w)
                | (s3, Inr updated) \<Rightarrow>
                    tenant_page ph inb
                      (emit_success_toast (translate inb ''toast.app.updated'' [(''Name'', appName)]) w)
                      (record_audit inb usr ActionAppUpdate appName tenantNS OutcomeSuccess
                         [(''kind'', JStr kind), (''keys'', JInt (int (length newSpec)))] s3))))"

definition update_app :: "'w page_handler \<Rightarrow> inbound \<Rightarrow> 'w handler" where
  "update_app ph inb = require_user inb (\<lambda>usr. with_form inb ''bad request'' (\<lambda>w s.
     do_update_app ph inb usr (path_value (in_req inb) ''tenant'') (path_value (in_req inb) ''name'') w s))"

definition delete_app :: "'w page_handler \<Rightarrow> inbound \<Rightarrow> 'w handler" where
  "delete_app ph inb = require_user inb (\<lambda>usr w s.
     (let tenantNS = path_value (in_req inb) ''tenant''; appName = path_value (in_req inb) ''name'' in
      case call_kop (app_delete (ph_kube ph) usr tenantNS appName) s of
        (s1, Inl e) \<Rightarrow>
          (record_audit inb usr ActionAppDelete appName tenantNS OutcomeError [(''error'', JStr (err_text e))] s1,
           render_error_toast (translate inb ''error.app.delete'' [(''Name'', appName)]) w)
      | (s1, Inr _) \<Rightarrow>
          (record_audit inb usr ActionAppDelete appName tenantNS OutcomeSuccess [] s1,
           emit_success_toast (translate inb ''toast.app.deleted'' [(''Name'', appName)]) w)))"

section \<open>fragment.go: form and YAML\<close>

definition app_form_yaml_fragment :: "'w page_handler \<Rightarrow> inbound \<Rightarrow> 'w handler" where
  "app_form_yaml_fragment ph inb = require_user inb (\<lambda>usr. with_form inb ''bad form'' (\<lambda>w s.
     (let kind = form_value (in_req inb) formFieldKind in
      if kind = '''' then (s, write_body (BHtml '''') (html_type w))
      else case call_schema ph inb usr kind s of
        (s1, Inl e) \<Rightarrow> (s1, http_error ''schema not found'' 404 w)
      | (s1, Inr schema) \<Rightarrow>
          (case ph_yaml_text ph (extract_spec_from_form (ph_parse_float ph) (in_req inb)
                  (extract_field_types (Some schema))) of
             Inl e \<Rightarrow> (s1, http_error ''yaml marshal failed'' 500 w)
           | Inr raw \<Rightarrow> (s1, write_body (BHtml (html_escape raw)) (html_type w))))))"

definition app_form_yaml_to_form_fragment :: "'w page_handler \<Rightarrow> inbound \<Rightarrow> 'w handler" where
  "app_form_yaml_to_form_fragment ph inb = require_user inb (\<lambda>usr. with_form inb ''bad form'' (\<lambda>w s.
     (let kind = form_value (in_req inb) formFieldKind in
      if kind = '''' then (s, http_error ''kind required'' 400 w)
      else case call_schema ph inb usr kind s of
        (s1, Inl e) \<Rightarrow> (s1, http_error ''schema not found'' 404 w)
      | (s1, Inr schema) \<Rightarrow>
          let raw = trim_space (form_value (in_req inb) formFieldSpecYAML);
              spec = (if raw = '''' then [] else or_else [] (parse_spec_yaml ph raw))
          in (case resolve_form_overrides ph usr kind s1 of
                (s2, ovr) \<Rightarrow> (s2, write_body (BPage (VSchemaFields schema spec ovr)) (html_type w))))))"

section \<open>Lemmas\<close>

lemma build_spec_keeps: "build_spec_from_request ph inb usr kind s = (s', r) \<Longrightarrow> hs_audit s' = hs_audit s"
  by (auto simp: build_spec_from_request_def Let_def split: if_splits prod.splits sum.splits dest!: call_schema_keeps)

lemmas mutations_keep = reads_keep build_spec_keeps

lemma with_form_some [simp]: "r_form_err (in_req inb) = Some e \<Longrightarrow> with_form inb m f w s = (s, http_error m 400 w)"
  by (simp add: with_form_def)

lemma with_form_none [simp]: "r_form_err (in_req inb) = None \<Longrightarrow> with_form inb m f w s = f w s"
  by (simp add: with_form_def)

interpretation form_yaml_op: silent_operation app_form_yaml_fragment
  by unfold_locales (auto simp: app_form_yaml_fragment_def require_user_def with_form_def Let_def
      split: prod.split option.split sum.split dest!: mutations_keep)

interpretation yaml_to_form_op: silent_operation app_form_yaml_to_form_fragment
  by unfold_locales (auto simp: app_form_yaml_to_form_fragment_def require_user_def with_form_def Let_def
      split: prod.split option.split sum.split dest!: mutations_keep)

text \<open>
  What a mutation leaves behind: one event of its action with the outcome, and a toast that says
  the same. \<open>attempt\<close> is the shape of every branch that records.
\<close>

definition attempt ::
  "inbound \<Rightarrow> user_context \<Rightarrow> action \<Rightarrow> string \<Rightarrow> string \<Rightarrow> outcome \<Rightarrow> 'w page_writer \<Rightarrow> 'w hstate \<Rightarrow> 'w hstate \<times> 'w page_writer \<Rightarrow> bool" where
  "attempt inb usr act resource tenant o' w s res \<longleftrightarrow>
     (\<exists>d. hs_audit (fst res) = hs_audit s @ [audit_event inb usr act resource tenant o' d]) \<and>
     o' \<noteq> OutcomeUnset \<and>
     (if o' = OutcomeSuccess then \<exists>m. BToast ''success'' m \<in> set (w_body (snd res))
      else (\<exists>m. w_body (snd res) = w_body w @ [BToast ''error'' m]) \<and> sent_header (snd res) ''Hx-Reswap'' = Some ''none'')"

lemma attempt_failed:
  assumes "hs_audit s' = hs_audit s" "o' \<noteq> OutcomeUnset" "o' \<noteq> OutcomeSuccess"
  shows "attempt inb usr act r t o' w s (record_audit inb usr act r t o' d s', render_error_toast m w)"
  using assms by (auto simp: attempt_def)

lemma attempt_done:
  assumes "hs_audit s' = hs_audit s"
  shows "attempt inb usr act r t OutcomeSuccess w s (record_audit inb usr act r t OutcomeSuccess d s', emit_success_toast m w)"
  using assms by (auto simp: attempt_def)

lemma render_page_body: "set (w_body w) \<subseteq> set (w_body (render_page inb u ts a b c w))"
  by (auto simp: render_page_def Let_def)

lemma render_error_body: "set (w_body w) \<subseteq> set (w_body (render_error inb u ts c t d w))"
  by (auto simp: render_error_def Let_def)

lemma tenant_page_body: "set (w_body w) \<subseteq> set (w_body (snd (tenant_page ph inb w s)))"
  using render_page_body render_error_body
  by (fastforce simp: tenant_page_def require_user_def Let_def split: prod.split option.split sum.split)

lemma attempt_done_page:
  assumes "hs_audit s' = hs_audit s"
  shows "attempt inb usr act r t OutcomeSuccess w s
    (tenant_page ph inb (emit_success_toast m w) (record_audit inb usr act r t OutcomeSuccess d s'))"
proof -
  have "BToast ''success'' m \<in> set (w_body (snd (tenant_page ph inb (emit_success_toast m w) s'')))" for s''
    using tenant_page_body [of "emit_success_toast m w"] by auto
  then show ?thesis unfolding attempt_def using assms by (auto simp: tenant_op.silent)
qed

lemma report_attempt:
  assumes "hs_audit s' = hs_audit s"
  shows "\<exists>o'. o' \<noteq> OutcomeSuccess \<and> attempt inb usr act appName t o' w s
    (report_spec_build_error inb usr act appName kind t err w s')"
  using attempt_failed [OF assms, of OutcomeDenied] attempt_failed [OF assms, of OutcomeError]
  by (auto simp: report_spec_build_error_def Let_def)

section \<open>Properties\<close>

lemma create_app_run:
  assumes "user_from_context (in_ctx inb) = Some usr" "r_form_err (in_req inb) = None"
    "form_value (in_req inb) formFieldName = n" "form_value (in_req inb) formFieldKind = k" "n \<noteq> ''''" "k \<noteq> ''''"
    "path_value (in_req inb) ''tenant'' = t"
  shows "\<exists>o'. attempt inb usr ActionAppCreate n t o' w s (create_app ph inb w s) \<and>
    (o' = OutcomeSuccess \<longleftrightarrow> valid_app_name n \<and>
       (\<exists>s1 spec replace w1 app. build_spec_from_request ph inb usr k s = (s1, Inr (spec, replace)) \<and>
          app_create (ph_kube ph) (in_now inb) usr t \<lparr>cr_name = n, cr_kind = k, cr_spec = spec\<rparr> (hs_world s1) = (w1, Inr app)))"
proof (cases "valid_app_name n")
  case False
  with assms have "create_app ph inb w s =
      (record_audit inb usr ActionAppCreate n t OutcomeDenied [(''reason'', JStr ''invalid_name''), (''kind'', JStr k)] s,
       render_error_toast (translate inb ''error.app.invalidName'' []) w)"
    by (simp add: create_app_def require_user_def Let_def)
  with False show ?thesis
    using attempt_failed [OF refl, of OutcomeDenied inb usr ActionAppCreate n t] by (intro exI [of _ OutcomeDenied]) simp
next
  case True
  with assms have run: "create_app ph inb w s = do_create_app ph inb usr t n k w s"
    by (simp add: create_app_def require_user_def Let_def)
  obtain s1 r where b: "build_spec_from_request ph inb usr k s = (s1, r)" by fastforce
  note b' = build_spec_keeps [OF b]
  show ?thesis
  proof (cases r)
    case (Inl e)
    with run b report_attempt [OF b', of inb usr ActionAppCreate n t w k e] show ?thesis
      by (auto simp: do_create_app_def)
  next
    case (Inr sp)
    obtain spec replace where sp: "sp = (spec, replace)" by fastforce
    let ?req = "\<lparr>cr_name = n, cr_kind = k, cr_spec = spec\<rparr>"
    obtain w1 q where q: "app_create (ph_kube ph) (in_now inb) usr t ?req (hs_world s1) = (w1, q)" by fastforce
    then have call: "call_kop (app_create (ph_kube ph) (in_now inb) usr t ?req) s1 = (s1\<lparr>hs_world := w1\<rparr>, q)"
      by (simp add: call_kop_def)
    have keep: "hs_audit (s1\<lparr>hs_world := w1\<rparr>) = hs_audit s" using b' by simp
    show ?thesis
    proof (cases q)
      case (Inl e)
      with run b Inr sp call q True show ?thesis
        using attempt_failed [OF keep, of OutcomeError inb usr ActionAppCreate n t]
        by (intro exI [of _ OutcomeError]) (simp add: do_create_app_def)
    next
      case (Inr app)
      with run b \<open>r = Inr sp\<close> sp call q True show ?thesis
        using attempt_done_page [OF keep, of inb usr ActionAppCreate n t w ph]
        by (intro exI [of _ OutcomeSuccess]) (simp add: do_create_app_def)
    qed
  qed
qed

lemma delete_app_run:
  assumes "user_from_context (in_ctx inb) = Some usr"
    "path_value (in_req inb) ''tenant'' = t" "path_value (in_req inb) ''name'' = n"
  shows "\<exists>o'. attempt inb usr ActionAppDelete n t o' w s (delete_app ph inb w s) \<and>
    (o' = OutcomeSuccess \<longleftrightarrow> (\<exists>w1. app_delete (ph_kube ph) usr t n (hs_world s) = (w1, Inr ())))"
proof -
  obtain w1 q where q: "app_delete (ph_kube ph) usr t n (hs_world s) = (w1, q)" by fastforce
  then have call: "call_kop (app_delete (ph_kube ph) usr t n) s = (s\<lparr>hs_world := w1\<rparr>, q)" by (simp add: call_kop_def)
  have keep: "hs_audit (s\<lparr>hs_world := w1\<rparr>) = hs_audit s" by simp
  show ?thesis
  proof (cases q)
    case (Inl e)
    with call q assms show ?thesis
      using attempt_failed [OF keep, of OutcomeError inb usr ActionAppDelete n t]
      by (intro exI [of _ OutcomeError]) (simp add: delete_app_def require_user_def Let_def)
  next
    case (Inr u)
    with call q assms show ?thesis
      using attempt_done [OF keep, of inb usr ActionAppDelete n t]
      by (intro exI [of _ OutcomeSuccess]) (simp add: delete_app_def require_user_def Let_def)
  qed
qed

text \<open>The parts of an update: what was loaded, what was built and what the cluster answered.\<close>

lemma update_app_run:
  assumes "user_from_context (in_ctx inb) = Some usr" "r_form_err (in_req inb) = None"
    "path_value (in_req inb) ''tenant'' = t" "path_value (in_req inb) ''name'' = n"
  shows "(\<exists>w1 e. app_get_spec_snapshot (ph_kube ph) usr t n (hs_world s) = (w1, Inl e) \<and>
      hs_audit (fst (update_app ph inb w s)) = hs_audit s \<and>
      w_body (snd (update_app ph inb w s)) = w_body w @ [BToast ''error'' (translate inb ''error.app.load'' [(''Name'', n)])]) \<or>
    (\<exists>o'. attempt inb usr ActionAppUpdate n t o' w s (update_app ph inb w s))"
proof -
  have run: "update_app ph inb w s = do_update_app ph inb usr t n w s"
    using assms by (simp add: update_app_def require_user_def)
  obtain w1 r where g: "app_get_spec_snapshot (ph_kube ph) usr t n (hs_world s) = (w1, r)" by fastforce
  then have call: "call_kop (app_get_spec_snapshot (ph_kube ph) usr t n) s = (s\<lparr>hs_world := w1\<rparr>, r)"
    by (simp add: call_kop_def)
  show ?thesis
  proof (cases r)
    case (Inl e)
    with run g call show ?thesis by (intro disjI1) (simp add: do_update_app_def)
  next
    case (Inr snap)
    let ?s1 = "s\<lparr>hs_world := w1\<rparr>"
    obtain s2 b where b: "build_spec_from_request ph inb usr (sn_kind snap) ?s1 = (s2, b)" by fastforce
    have keep2: "hs_audit s2 = hs_audit s" using build_spec_keeps [OF b] by simp
    show ?thesis
    proof (cases b)
      case (Inl e)
      with run call Inr b report_attempt [OF keep2, of inb usr ActionAppUpdate n t w "sn_kind snap" e] show ?thesis
        by (auto simp: do_update_app_def Let_def)
    next
      case (Inr sp)
      obtain spec replace where sp: "sp = (spec, replace)" by fastforce
      let ?req = "\<lparr>ur_spec = spec, ur_resource_version = form_value (in_req inb) formFieldResourceVersion, ur_replace_spec = replace\<rparr>"
      obtain s3 q where q: "call_kop (app_update (ph_kube ph) (in_now inb) usr t n ?req) s2 = (s3, q)" by fastforce
      have keep3: "hs_audit s3 = hs_audit s" using call_kop_keeps [OF q] keep2 by simp
      note run' = run call \<open>r = Inr snap\<close> b Inr sp q
      show ?thesis
      proof (cases q)
        case (Inl e)
        with run' show ?thesis
          using attempt_failed [OF keep3, of OutcomeError inb usr ActionAppUpdate n t]
          by (intro disjI2 exI [of _ OutcomeError]) (simp add: do_update_app_def Let_def)
      next
        case (Inr u)
        with run' show ?thesis
          using attempt_done_page [OF keep3, of inb usr ActionAppUpdate n t w ph]
          by (intro disjI2 exI [of _ OutcomeSuccess]) (simp add: do_update_app_def Let_def)
      qed
    qed
  qed
qed

text \<open>The contract of \<open>Page_Core\<close>, with each handler's own action.\<close>

lemma attempt_own:
  assumes "attempt inb usr act r t o' w s res"
  shows "\<exists>es. audits s es (fst res) \<and> (\<forall>ev\<in>set es. own_event inb usr {act} ev)"
proof -
  from assms obtain d where "hs_audit (fst res) = hs_audit s @ [audit_event inb usr act r t o' d]" "o' \<noteq> OutcomeUnset"
    by (auto simp: attempt_def)
  then show ?thesis by (intro exI [of _ "[audit_event inb usr act r t o' d]"]) (simp add: audits_def)
qed

lemma refused_own: "hs_audit (fst res) = hs_audit s \<Longrightarrow> \<exists>es. audits s es (fst res) \<and> (\<forall>ev\<in>set es. own_event inb usr acts ev)"
  by (intro exI [of _ "[]"]) (simp add: audits_def)

lemma create_app_own:
  assumes "user_from_context (in_ctx inb) = Some usr"
  shows "\<exists>es. audits s es (fst (create_app ph inb w s)) \<and> (\<forall>ev\<in>set es. own_event inb usr {ActionAppCreate} ev)"
proof (cases "r_form_err (in_req inb) = None \<and> form_value (in_req inb) formFieldName \<noteq> '''' \<and>
    form_value (in_req inb) formFieldKind \<noteq> ''''")
  case True
  then have "r_form_err (in_req inb) = None" "form_value (in_req inb) formFieldName \<noteq> ''''"
    "form_value (in_req inb) formFieldKind \<noteq> ''''" by simp_all
  from create_app_run [OF assms this(1) refl refl this(2,3) refl] obtain o' where
    "attempt inb usr ActionAppCreate (form_value (in_req inb) formFieldName) (path_value (in_req inb) ''tenant'') o' w s
       (create_app ph inb w s)" by blast
  then show ?thesis by (rule attempt_own)
next
  case False
  with assms have "fst (create_app ph inb w s) = s"
    by (auto simp: create_app_def require_user_def with_form_def Let_def split: option.split)
  then show ?thesis by (intro refused_own) simp
qed

interpretation create_op: page_operation create_app "{ActionAppCreate}"
  by unfold_locales (simp add: create_app_def require_user_def, erule create_app_own)

lemma update_app_own:
  assumes "user_from_context (in_ctx inb) = Some usr"
  shows "\<exists>es. audits s es (fst (update_app ph inb w s)) \<and> (\<forall>ev\<in>set es. own_event inb usr {ActionAppUpdate} ev)"
proof (cases "r_form_err (in_req inb)")
  case None
  from update_app_run [OF assms None refl refl, of ph s w] show ?thesis
    by (elim disjE exE conjE) (erule refused_own, erule attempt_own)
next
  case (Some e)
  with assms show ?thesis by (intro refused_own) (simp add: update_app_def require_user_def)
qed

interpretation update_op: page_operation update_app "{ActionAppUpdate}"
  by unfold_locales (simp add: update_app_def require_user_def, erule update_app_own)

lemma delete_app_own:
  assumes "user_from_context (in_ctx inb) = Some usr"
  shows "\<exists>es. audits s es (fst (delete_app ph inb w s)) \<and> (\<forall>ev\<in>set es. own_event inb usr {ActionAppDelete} ev)"
  using delete_app_run [OF assms refl refl, of w s ph] by (elim exE conjE) (erule attempt_own)

interpretation delete_op: page_operation delete_app "{ActionAppDelete}"
  by unfold_locales (simp add: delete_app_def require_user_def, erule delete_app_own)

section \<open>Properties\<close>


definition mutation_form :: "(string, string list) gomap \<Rightarrow> inbound" where
  "mutation_form form = sample_inbound (blank_request\<lparr>r_path_value := [(''tenant'', ''tenant-a''), (''name'', ''db'')],
     r_form := form\<rparr>)"

definition create_form :: inbound where
  "create_form = mutation_form [(formFieldName, [''db2'']), (formFieldKind, [''Postgres'']), (formFieldSpecYAML, [''replicas: 3''])]"


text \<open>
  C8: a stale edit is refused from the form to the cluster. When the edit form names the version
  it was rendered with, and at the moment of the write the stored object has another one, then the
  handler writes nothing, records one event with the reason conflict, and answers with the
  conflict toast.
\<close>

theorem stale_edit_is_refused:
  assumes "user_from_context (in_ctx inb) = Some usr" "r_form_err (in_req inb) = None"
    and "path_value (in_req inb) ''tenant'' = t" "path_value (in_req inb) ''name'' = n"
    and "unstr_laws (ke_unstr (ph_kube ph))" "user_client (ph_kube ph) usr = Inr c" "refuses_stale (ph_kube ph) c stored"
    and "app_get_spec_snapshot (ph_kube ph) usr t n (hs_world s) = (w1, Inr snap)"
    and "build_spec_from_request ph inb usr (sn_kind snap) (s\<lparr>hs_world := w1\<rparr>) = (s2, Inr (spec, replace))"
    and "form_value (in_req inb) formFieldResourceVersion = rv" "rv \<noteq> ''''"
    and "app_update_prepare (ph_kube ph) c t n \<lparr>ur_spec = spec, ur_resource_version = rv, ur_replace_spec = replace\<rparr> (hs_world s2)
      = (w3, Inr (kind, obj))"
    and "stored w3 (app_gvr kind) t (u_name (ke_unstr (ph_kube ph)) obj) \<noteq> rv"
  shows "update_app ph inb w s =
    (s2\<lparr>hs_world := w3, hs_audit := hs_audit s @ [audit_event inb usr ActionAppUpdate n t OutcomeError
        [(''reason'', JStr ''conflict''), (''kind'', JStr (sn_kind snap))]]\<rparr>,
     render_error_toast (translate inb ''error.app.conflict'' [(''Name'', n)]) w)"
proof -
  let ?req = "\<lparr>ur_spec = spec, ur_resource_version = rv, ur_replace_spec = replace\<rparr>"
  have "app_update (ph_kube ph) (in_now inb) usr t n ?req (hs_world s2) = (w3, Inl ErrConflict)"
    by (rule app_update_stale [OF assms(5,6,7,12)]) (simp_all add: assms(11,13))
  then have "call_kop (app_update (ph_kube ph) (in_now inb) usr t n ?req) s2 = (s2\<lparr>hs_world := w3\<rparr>, Inl ErrConflict)"
    by (simp add: call_kop_def)
  moreover have "call_kop (app_get_spec_snapshot (ph_kube ph) usr t n) s = (s\<lparr>hs_world := w1\<rparr>, Inr snap)"
    by (simp add: call_kop_def assms(8))
  moreover have "errors_is ErrConflict ErrConflict" by (simp add: ErrConflict_def)
  moreover have "hs_audit s2 = hs_audit s" using build_spec_keeps [OF assms(9)] by simp
  ultimately show ?thesis
    using assms(1-4,9,10) by (simp add: update_app_def require_user_def do_update_app_def Let_def record_audit_def)
qed

definition stale_form :: inbound where
  "stale_form = mutation_form [(formFieldResourceVersion, [''3'']), (formFieldSpecYAML, [''replicas: 3''])]"

lemma page_kube_refuses_stale: "refuses_stale page_env page_kube (\<lambda>w g ns n. show_nat w)"
  by (auto simp: refuses_stale_def page_env_def sample_app_env_def page_kube_def is_conflict_error_def)

theorem stale_edit_is_refused_witness:
  "map ev_details (hs_audit (fst (update_app sample_handler stale_form new_writer sample_state))) =
     [[(''reason'', JStr ''conflict''), (''kind'', JStr ''Postgres'')]] \<and>
   hs_world (fst (update_app sample_handler stale_form new_writer sample_state)) = 7"
proof -
  have f: "r_form_err (in_req stale_form) = None" "path_value (in_req stale_form) ''tenant'' = ''tenant-a''"
    "path_value (in_req stale_form) ''name'' = ''db''" "form_value (in_req stale_form) formFieldResourceVersion = ''3''"
    by code_simp+
  have u: "user_from_context (in_ctx stale_form) = Some sample_user"
    by (simp add: stale_form_def mutation_form_def sample_inbound_user)
  have k: "ph_kube sample_handler = page_env" by (simp add: sample_handler_def)
  have laws: "unstr_laws (ke_unstr page_env)" by (simp add: page_env_def sample_app_env_def plain_unstr_laws)
  have snap: "app_get_spec_snapshot page_env sample_user ''tenant-a'' ''db'' (hs_world sample_state) =
      (7, Inr \<lparr>sn_spec = [(''replicas'', JInt 2)], sn_kind = ''Postgres'', sn_resource_version = ''7''\<rparr>)"
    by code_simp
  have build: "build_spec_from_request sample_handler stale_form sample_user
      (sn_kind \<lparr>sn_spec = [(''replicas'', JInt 2)], sn_kind = ''Postgres'', sn_resource_version = ''7''\<rparr>) (sample_state\<lparr>hs_world := 7\<rparr>) =
      (sample_state\<lparr>hs_world := 7\<rparr>, Inr ([(''replicas'', JInt 3)], True))"
    by code_simp
  have prep: "app_update_prepare page_env page_kube ''tenant-a'' ''db''
      \<lparr>ur_spec = [(''replicas'', JInt 3)], ur_resource_version = ''3'', ur_replace_spec = True\<rparr> (hs_world (sample_state\<lparr>hs_world := 7\<rparr>)) =
      (7, Inr (''Postgres'', [(''kind'', JStr ''Postgres''), (''metadata'', JMap [(''name'', JStr ''db''),
        (''resourceVersion'', JStr ''3'')]), (''spec'', JMap [(''replicas'', JInt 3)])]))"
    by code_simp
  have ne: "show_nat 7 \<noteq> ''3''" "''3'' \<noteq> ''''" by code_simp+
  from stale_edit_is_refused [OF u f(1,2,3) laws [folded k] page_client [folded k] page_kube_refuses_stale [folded k]
      snap [folded k] build f(4) ne(2) prep [folded k] ne(1)]
  show ?thesis by (simp add: sample_state_def audit_event_def)
qed

end
