(* ===== verification/App_Actions.thy ===== *)
theory App_Actions
  imports App_Mutations
begin

text \<open>
  \<open>internal/handler/actions.go\<close>: one operation of the registry, invoked on one application. The
  handler checks the path values, finds the application and the action registered for its kind,
  runs it with the user's configuration on the resolved target, and answers with a toast. Every
  path through it records one event.
\<close>

section \<open>actions.go\<close>

definition errLabelForbidden :: string where "errLabelForbidden = ''forbidden''"
definition errLabelNotFound :: string where "errLabelNotFound = ''notFound''"
definition errLabelUnauthorized :: string where "errLabelUnauthorized = ''unauthorized''"
definition errLabelOther :: string where "errLabelOther = ''other''"

definition apiserver_error_label :: "gerr option \<Rightarrow> string" where
  "apiserver_error_label err =
     (case err of
        None \<Rightarrow> ''''
      | Some e \<Rightarrow>
          (case errors_as_status e of
             None \<Rightarrow> errLabelOther
           | Some code \<Rightarrow>
               if code = 403 then errLabelForbidden
               else if code = 404 then errLabelNotFound
               else if code = 401 then errLabelUnauthorized
               else errLabelOther))"

text \<open>\<open>^[a-z0-9]([-a-z0-9]*[a-z0-9])?$\<close>\<close>

definition actionIDPattern :: rexp where "actionIDPattern = bounded_word lower_alnum dns_mid"

definition localized_action_label :: "inbound \<Rightarrow> 'w app_action \<Rightarrow> string \<Rightarrow> string" where
  "localized_action_label inb act actionID =
     (let label = translate inb (aa_label_key act) [] in
      if label = ''['' @ aa_label_key act @ '']'' then actionID else label)"

text \<open>\<open>resolveAction\<close>: the left injection is the answer already written.\<close>

definition resolve_action ::
  "'w page_handler \<Rightarrow> inbound \<Rightarrow> user_context \<Rightarrow> string \<Rightarrow> string \<Rightarrow> string \<Rightarrow> 'w page_writer \<Rightarrow> 'w hstate \<Rightarrow>
     'w hstate \<times> ('w page_writer + 'w app_action \<times> string)" where
  "resolve_action ph inb usr tenantNS appName actionID w s =
     (case call_app_get ph inb usr tenantNS appName s of
        (s1, Inl e) \<Rightarrow>
          let label = apiserver_error_label (Some e);
              msg = (if label = errLabelNotFound then ''error.app.actionLookupNotFound''
                     else if label = errLabelForbidden \<or> label = errLabelUnauthorized then ''error.app.actionLookupForbidden''
                     else ''error.app.actionLookup'')
          in (record_audit inb usr ActionAppAction appName tenantNS OutcomeError
                [(''error'', JStr (err_text e)), (''errorClass'', JStr label), (''stage'', JStr ''lookup'')] s1,
              Inl (render_error_toast (translate inb msg [(''Name'', appName)]) w))
      | (s1, Inr app) \<Rightarrow>
          (case lookup_action (ph_registry ph) (ap_kind app) actionID of
             None \<Rightarrow>
               (record_audit inb usr ActionAppAction appName tenantNS OutcomeError
                  [(''error'', JStr ''unknown action''), (''kind'', JStr (ap_kind app)), (''stage'', JStr ''dispatch''),
                   (''rawAction'', JStr actionID)] s1,
                Inl (render_error_toast (translate inb ''error.app.actionUnknown'' [(''Action'', actionID)]) w))
           | Some act \<Rightarrow> (s1, Inr (act, ap_kind app))))"

definition run_action ::
  "'w page_handler \<Rightarrow> user_context \<Rightarrow> 'w app_action \<Rightarrow> string \<Rightarrow> string \<Rightarrow> 'w hstate \<Rightarrow> 'w hstate \<times> gerr option" where
  "run_action ph usr act tenantNS appName s =
     (let E = ph_kube ph in
      case build_user_rest_config (ke_sdk E) (ke_base E) usr (ke_mode E) of
        Inl e \<Rightarrow> (s, Some (Fmt ''building user rest config for action: '' e ''''))
      | Inr cfg \<Rightarrow>
          (case aa_run act (ph_vm ph) cfg tenantNS (resolve_target_name act appName) (hs_world s) of
             (w', Some e) \<Rightarrow> (s\<lparr>hs_world := w'\<rparr>, Some (Fmt (''running '' @ aa_id act @ '' action: '') e ''''))
           | (w', None) \<Rightarrow> (s\<lparr>hs_world := w'\<rparr>, None)))"

definition finish_action ::
  "inbound \<Rightarrow> user_context \<Rightarrow> 'w app_action \<Rightarrow> string \<Rightarrow> string \<Rightarrow> string \<Rightarrow> string \<Rightarrow> gerr option \<Rightarrow> 'w handler" where
  "finish_action inb usr act kind tenantNS appName actionID runErr w0 s =
     (let w = set_header ''Hx-Reswap'' ''none'' w0; label = localized_action_label inb act actionID in
      case runErr of
        Some e \<Rightarrow>
          (record_audit inb usr ActionAppAction appName tenantNS OutcomeError
             [(''subaction'', JStr (aa_audit_category act)), (''kind'', JStr kind), (''error'', JStr (err_text e)),
              (''errorClass'', JStr (apiserver_error_label runErr))] s,
           render_error_toast (translate inb ''error.app.actionFailed'' [(''Action'', label)]) w)
      | None \<Rightarrow>
          (record_audit inb usr ActionAppAction appName tenantNS OutcomeSuccess
             [(''subaction'', JStr (aa_audit_category act)), (''kind'', JStr kind)] s,
           emit_success_toast (translate inb ''toast.app.actionSucceeded''
             [(''Name'', appName), (''Action'', label)]) w))"

definition invoke_action :: "'w page_handler \<Rightarrow> inbound \<Rightarrow> 'w handler" where
  "invoke_action ph inb = require_user inb (\<lambda>usr w s.
     (let req = in_req inb; tenantNS = path_value req ''tenant''; appName = path_value req ''name'';
          actionID = path_value req ''action'' in
      if \<not> is_valid_label_value tenantNS \<or> \<not> is_valid_label_value appName \<or> \<not> matches actionIDPattern actionID then
        (record_audit inb usr ActionAppAction appName tenantNS OutcomeError
           [(''error'', JStr ''malformed path value''), (''rawAction'', JStr actionID)] s,
         render_error_toast (translate inb ''error.app.actionUnknown'' [(''Action'', ''?'')]) w)
      else case resolve_action ph inb usr tenantNS appName actionID w s of
        (s1, Inl w') \<Rightarrow> (s1, w')
      | (s1, Inr (act, kind)) \<Rightarrow>
          (case run_action ph usr act tenantNS appName s1 of
             (s2, runErr) \<Rightarrow> finish_action inb usr act kind tenantNS appName actionID runErr w s2)))"

section \<open>Lemmas\<close>

lemma run_action_keeps: "run_action ph usr act t n s = (s', r) \<Longrightarrow> hs_audit s' = hs_audit s"
  by (auto simp: run_action_def Let_def split: sum.splits prod.splits option.splits)

lemma finish_attempt:
  assumes "hs_audit s' = hs_audit s"
  shows "\<exists>o'. attempt inb usr ActionAppAction n t o' w s (finish_action inb usr act kind t n a r w s') \<and>
    (o' = OutcomeSuccess \<longleftrightarrow> r = None)"
proof (cases r)
  case None
  then show ?thesis
    using assms by (intro exI [of _ OutcomeSuccess]) (auto simp: finish_action_def Let_def attempt_def)
next
  case (Some e)
  then show ?thesis
    using assms by (intro exI [of _ OutcomeError]) (auto simp: finish_action_def Let_def attempt_def)
qed

text \<open>The three ways through the handler.\<close>

lemma invoke_action_run:
  assumes "user_from_context (in_ctx inb) = Some usr"
    "path_value (in_req inb) ''tenant'' = t" "path_value (in_req inb) ''name'' = n" "path_value (in_req inb) ''action'' = a"
  obtains (malformed) "\<not> is_valid_label_value t \<or> \<not> is_valid_label_value n \<or> \<not> matches actionIDPattern a"
      "attempt inb usr ActionAppAction n t OutcomeError w s (invoke_action ph inb w s)"
      "hs_world (fst (invoke_action ph inb w s)) = hs_world s" "hs_cache (fst (invoke_action ph inb w s)) = hs_cache s"
  | (unresolved) s1 r where "is_valid_label_value t" "is_valid_label_value n" "matches actionIDPattern a"
      "call_app_get ph inb usr t n s = (s1, r)"
      "\<forall>app act. r = Inr app \<longrightarrow> lookup_action (ph_registry ph) (ap_kind app) a \<noteq> Some act"
      "attempt inb usr ActionAppAction n t OutcomeError w s (invoke_action ph inb w s)"
      "hs_world (fst (invoke_action ph inb w s)) = hs_world s1"
  | (ran) s1 app act s2 r where "is_valid_label_value t" "is_valid_label_value n" "matches actionIDPattern a"
      "call_app_get ph inb usr t n s = (s1, Inr app)"
      "lookup_action (ph_registry ph) (ap_kind app) a = Some act" "run_action ph usr act t n s1 = (s2, r)"
      "invoke_action ph inb w s = finish_action inb usr act (ap_kind app) t n a r w s2"
proof (cases "\<not> is_valid_label_value t \<or> \<not> is_valid_label_value n \<or> \<not> matches actionIDPattern a")
  case True
  then have "invoke_action ph inb w s =
      (record_audit inb usr ActionAppAction n t OutcomeError
         [(''error'', JStr ''malformed path value''), (''rawAction'', JStr a)] s,
       render_error_toast (translate inb ''error.app.actionUnknown'' [(''Action'', ''?'')]) w)"
    using assms by (simp add: invoke_action_def require_user_def Let_def)
  then show ?thesis using True attempt_failed [OF refl, of OutcomeError inb usr ActionAppAction n t] by (intro malformed) simp_all
next
  case False
  obtain s1 r where g: "call_app_get ph inb usr t n s = (s1, r)" by fastforce
  note keep = call_app_get_keeps [OF g]
  show ?thesis
  proof (cases r)
    case (Inl e)
    let ?m = "if apiserver_error_label (Some e) = errLabelNotFound then ''error.app.actionLookupNotFound''
        else if apiserver_error_label (Some e) = errLabelForbidden \<or> apiserver_error_label (Some e) = errLabelUnauthorized
        then ''error.app.actionLookupForbidden'' else ''error.app.actionLookup''"
    have "invoke_action ph inb w s =
        (record_audit inb usr ActionAppAction n t OutcomeError [(''error'', JStr (err_text e)),
           (''errorClass'', JStr (apiserver_error_label (Some e))), (''stage'', JStr ''lookup'')] s1,
         render_error_toast (translate inb ?m [(''Name'', n)]) w)"
      using assms False g Inl by (simp add: invoke_action_def require_user_def resolve_action_def Let_def)
    then show ?thesis using False Inl attempt_failed [OF keep, of OutcomeError inb usr ActionAppAction n t]
      by (intro unresolved [OF _ _ _ g]) simp_all
  next
    case (Inr app)
    show ?thesis
    proof (cases "lookup_action (ph_registry ph) (ap_kind app) a")
      case None
      then have "invoke_action ph inb w s =
          (record_audit inb usr ActionAppAction n t OutcomeError
             [(''error'', JStr ''unknown action''), (''kind'', JStr (ap_kind app)), (''stage'', JStr ''dispatch''),
              (''rawAction'', JStr a)] s1,
           render_error_toast (translate inb ''error.app.actionUnknown'' [(''Action'', a)]) w)"
        using assms False g Inr by (simp add: invoke_action_def require_user_def resolve_action_def Let_def)
      then show ?thesis using False Inr None attempt_failed [OF keep, of OutcomeError inb usr ActionAppAction n t]
        by (intro unresolved [OF _ _ _ g]) simp_all
    next
      case (Some act)
      obtain s2 q where "run_action ph usr act t n s1 = (s2, q)" by fastforce
      then show ?thesis using assms False g Inr Some
        by (intro ran) (simp_all add: invoke_action_def require_user_def resolve_action_def Let_def)
    qed
  qed
qed

lemma invoke_action_attempt:
  assumes "user_from_context (in_ctx inb) = Some usr"
    "path_value (in_req inb) ''tenant'' = t" "path_value (in_req inb) ''name'' = n"
  shows "\<exists>o'. attempt inb usr ActionAppAction n t o' w s (invoke_action ph inb w s)"
  using assms refl
proof (cases rule: invoke_action_run [where w = w and s = s and ph = ph])
  case (ran s1 app act s2 r)
  have "hs_audit s2 = hs_audit s" using call_app_get_keeps [OF ran(4)] run_action_keeps [OF ran(6)] by simp
  from finish_attempt [OF this] show ?thesis unfolding ran(7) by blast
qed blast+

interpretation invoke_op: page_operation invoke_action "{ActionAppAction}"
proof unfold_locales
  fix inb :: inbound and usr ph w and s :: "'a hstate"
  assume "user_from_context (in_ctx inb) = Some usr"
  from invoke_action_attempt [OF this refl refl, of w s ph]
  show "\<exists>es. audits s es (fst (invoke_action ph inb w s)) \<and> (\<forall>ev\<in>set es. own_event inb usr {ActionAppAction} ev)"
    by (elim exE) (erule attempt_own)
qed (simp add: invoke_action_def require_user_def)

lemma run_action_None:
  "run_action ph usr act t n s = (s', None) \<longleftrightarrow>
     (\<exists>cfg w1. build_user_rest_config (ke_sdk (ph_kube ph)) (ke_base (ph_kube ph)) usr (ke_mode (ph_kube ph)) = Inr cfg \<and>
        aa_run act (ph_vm ph) cfg t (resolve_target_name act n) (hs_world s) = (w1, None) \<and> s' = s\<lparr>hs_world := w1\<rparr>)"
  by (auto simp: run_action_def Let_def split: sum.split prod.split option.split)

text \<open>What it takes for an invocation to be reported as a success.\<close>

definition action_succeeds ::
  "'w page_handler \<Rightarrow> inbound \<Rightarrow> user_context \<Rightarrow> string \<Rightarrow> string \<Rightarrow> string \<Rightarrow> 'w hstate \<Rightarrow> bool" where
  "action_succeeds ph inb usr t n a s \<longleftrightarrow>
     is_valid_label_value t \<and> is_valid_label_value n \<and> matches actionIDPattern a \<and>
     (\<exists>s1 app act cfg w1. call_app_get ph inb usr t n s = (s1, Inr app) \<and>
        act \<in> set (actions_for (ph_registry ph) (ap_kind app)) \<and> aa_id act = a \<and>
        build_user_rest_config (ke_sdk (ph_kube ph)) (ke_base (ph_kube ph)) usr (ke_mode (ph_kube ph)) = Inr cfg \<and>
        aa_run act (ph_vm ph) cfg t (resolve_target_name act n) (hs_world s1) = (w1, None))"

lemma lookup_registered:
  "well_registered reg \<Longrightarrow> lookup_action reg kind a = Some act \<longleftrightarrow> act \<in> set (actions_for reg kind) \<and> aa_id act = a"
proof
  assume "well_registered reg" "lookup_action reg kind a = Some act"
  then show "act \<in> set (actions_for reg kind) \<and> aa_id act = a"
    by (auto simp: lookup_action_def actions_for_def dest: find_Some)
next
  assume "well_registered reg" "act \<in> set (actions_for reg kind) \<and> aa_id act = a"
  then show "lookup_action reg kind a = Some act"
    using find_unique_key [of aa_id "registered reg kind" act]
    by (auto simp: lookup_action_def actions_for_def well_registered_def)
qed

section \<open>Properties\<close>


text \<open>A virtual machine instance, and the cluster that knows it.\<close>

definition vm_kube :: "nat kube" where
  "vm_kube = page_kube\<lparr>k_list := (\<lambda>g ns opts w. (w, Inr \<lparr>kl_items =
      (if g_resource g = ''helmreleases'' then
         [[(''metadata'', JMap [(''name'', JStr ''vm-instance-web''),
            (''labels'', JMap [(cozyAppKindLabel, JStr ''VMInstance''), (cozyAppNameLabel, JStr ''web'')])])]]
       else []), kl_continue = ''''\<rparr>))\<rparr>"

definition vm_handler :: "nat page_handler" where
  "vm_handler = sample_handler\<lparr>ph_kube := sample_app_env\<lparr>ke_sdk := (ke_sdk sample_app_env)\<lparr>sdk_dynamic := (\<lambda>_. Inr vm_kube)\<rparr>\<rparr>\<rparr>"

definition invoke_inbound :: "string \<Rightarrow> inbound" where
  "invoke_inbound a = sample_inbound (blank_request\<lparr>r_path_value :=
     [(''tenant'', ''tenant-a''), (''name'', ''web''), (''action'', a)]\<rparr>)"


end
