(* ===== verification/Tenant_Mutations.thy ===== *)
theory Tenant_Mutations
  imports App_Mutations
begin

text \<open>
  The handlers of \<open>internal/handler/tenants.go\<close> that create, update and delete a tenant. Names
  are checked before the cluster is asked; the root tenant is reserved on creation and protected
  on deletion.
\<close>

section \<open>tenants.go\<close>

text \<open>\<open>parseTenantForm\<close>: the name and the parent namespace, or the answer already written.\<close>

definition parse_tenant_form :: "inbound \<Rightarrow> 'w page_writer \<Rightarrow> 'w page_writer + string \<times> string" where
  "parse_tenant_form inb w =
     (case r_form_err (in_req inb) of
        Some e \<Rightarrow> Inl (http_error ''bad request'' 400 w)
      | None \<Rightarrow>
          let name = form_value (in_req inb) formFieldName; parent = form_value (in_req inb) ''parent'' in
          if name = '''' then Inl (http_error ''name required'' 400 w) else Inr (name, parent))"

definition create_tenant :: "'w page_handler \<Rightarrow> inbound \<Rightarrow> 'w handler" where
  "create_tenant ph inb = require_user inb (\<lambda>usr w s.
     (case parse_tenant_form inb w of
        Inl w' \<Rightarrow> (s, w')
      | Inr (name, parent) \<Rightarrow>
          if \<not> valid_tenant_name name then
            (record_audit inb usr ActionTenantCreate name parent OutcomeDenied [(''reason'', JStr ''invalid_name'')] s,
             render_error_toast (translate inb ''error.tenant.invalidName'' []) w)
          else if is_root_tenant name then
            (record_audit inb usr ActionTenantCreate name parent OutcomeDenied [(''reason'', JStr ''reserved_name'')] s,
             render_error_toast (translate inb ''error.tenant.rootReserved'' []) w)
          else
            (case tenant_spec ph inb usr s of (s1, spec) \<Rightarrow>
               (case call_kop (tenant_create (ph_kube ph) usr \<lparr>ct_name = name, ct_parent = parent, ct_spec = spec\<rparr>) s1 of
                  (s2, Inl e) \<Rightarrow>
                    (record_audit inb usr ActionTenantCreate name parent OutcomeError [(''error'', JStr (err_text e))] s2,
                     render_error_toast (translate inb ''error.tenant.create'' []) w)
                | (s2, Inr t) \<Rightarrow>
                    tenants_page ph inb
                      (emit_success_toast (translate inb ''toast.tenant.created'' [(''Name'', name)]) w)
                      (record_audit inb usr ActionTenantCreate name parent OutcomeSuccess [] s2)))))"

definition do_update_tenant ::
  "'w page_handler \<Rightarrow> inbound \<Rightarrow> user_context \<Rightarrow> string \<Rightarrow> string \<Rightarrow> 'w handler" where
  "do_update_tenant ph inb usr ns name w s =
     (case tenant_spec ph inb usr s of (s1, spec) \<Rightarrow>
        if spec = [] then (s1, render_error_toast (translate inb ''error.tenant.noFields'' []) w)
        else
          (case call_kop (tenant_update (ph_kube ph) usr ns name spec
                  (form_value (in_req inb) formFieldResourceVersion)) s1 of
             (s2, Inl e) \<Rightarrow>
               if errors_is e ErrConflict then
                 (record_audit inb usr ActionTenantUpdate name ns OutcomeError [(''reason'', JStr ''conflict'')] s2,
                  render_error_toast (translate inb ''error.tenant.conflict'' []) w)
               else
                 (record_audit inb usr ActionTenantUpdate name ns OutcomeError [(''error'', JStr (err_text e))] s2,
                  render_error_toast (translate inb ''error.tenant.update'' []) w)
           | (s2, Inr t) \<Rightarrow>
               tenants_page ph inb
                 (emit_success_toast (translate inb ''toast.tenant.updated'' [(''Name'', name)]) w)
                 (record_audit inb usr ActionTenantUpdate name ns OutcomeSuccess
                    [(''keys'', JInt (int (length spec)))] s2)))"

definition update_tenant :: "'w page_handler \<Rightarrow> inbound \<Rightarrow> 'w handler" where
  "update_tenant ph inb = require_user inb (\<lambda>usr w s.
     (let name = path_value (in_req inb) ''name''; ns = query_get (in_req inb) ''ns'' in
      if name = '''' \<or> ns = '''' then (s, http_error ''name and ns required'' 400 w)
      else with_form inb ''bad request'' (do_update_tenant ph inb usr ns name) w s))"

definition delete_tenant :: "'w page_handler \<Rightarrow> inbound \<Rightarrow> 'w handler" where
  "delete_tenant ph inb = require_user inb (\<lambda>usr w s.
     (let name = path_value (in_req inb) ''name''; ns = query_get (in_req inb) ''ns'' in
      if name = '''' \<or> ns = '''' then (s, http_error ''name and ns required'' 400 w)
      else case call_kop (tenant_delete (ph_kube ph) usr ns name) s of
        (s1, Inl e) \<Rightarrow>
          if errors_is e ErrProtectedTenant then
            (record_audit inb usr ActionTenantDelete name ns OutcomeDenied [(''reason'', JStr ''protected_tenant'')] s1,
             render_error_toast (translate inb ''error.tenant.rootProtected'' []) w)
          else
            (record_audit inb usr ActionTenantDelete name ns OutcomeError [(''error'', JStr (err_text e))] s1,
             render_error_toast (translate inb ''error.tenant.delete'' []) w)
      | (s1, Inr _) \<Rightarrow>
          (record_audit inb usr ActionTenantDelete name ns OutcomeSuccess [] s1,
           emit_success_toast (translate inb ''toast.tenant.deleted'' [(''Name'', name)]) w)))"

section \<open>Lemmas\<close>

lemma tenant_spec_keeps: "tenant_spec ph inb usr s = (s', r) \<Longrightarrow> hs_audit s' = hs_audit s"
  by (auto simp: tenant_spec_def split: prod.splits dest!: call_schema_keeps)

lemma tenants_page_body: "set (w_body w) \<subseteq> set (w_body (snd (tenants_page ph inb w s)))"
  using render_page_body
  by (fastforce simp: tenants_page_def require_user_def Let_def split: prod.split option.split)

lemma attempt_done_tenants:
  assumes "hs_audit s' = hs_audit s"
  shows "attempt inb usr act r t OutcomeSuccess w s
    (tenants_page ph inb (emit_success_toast m w) (record_audit inb usr act r t OutcomeSuccess d s'))"
proof -
  have "BToast ''success'' m \<in> set (w_body (snd (tenants_page ph inb (emit_success_toast m w) s'')))" for s''
    using tenants_page_body [of "emit_success_toast m w"] by auto
  then show ?thesis unfolding attempt_def using assms by (auto simp: tenants_op.silent)
qed

lemma create_tenant_run:
  assumes "user_from_context (in_ctx inb) = Some usr" "r_form_err (in_req inb) = None"
    "form_value (in_req inb) formFieldName = n" "form_value (in_req inb) ''parent'' = p" "n \<noteq> ''''"
  shows "\<exists>o'. attempt inb usr ActionTenantCreate n p o' w s (create_tenant ph inb w s) \<and>
    (o' = OutcomeSuccess \<longleftrightarrow> valid_tenant_name n \<and> \<not> is_root_tenant n \<and>
       (\<exists>s1 spec w1 t. tenant_spec ph inb usr s = (s1, spec) \<and>
          tenant_create (ph_kube ph) usr \<lparr>ct_name = n, ct_parent = p, ct_spec = spec\<rparr> (hs_world s1) = (w1, Inr t))) \<and>
    (\<not> valid_tenant_name n \<or> is_root_tenant n \<longrightarrow> hs_world (fst (create_tenant ph inb w s)) = hs_world s)"
proof (cases "valid_tenant_name n \<and> \<not> is_root_tenant n")
  case False
  then have run: "create_tenant ph inb w s =
      (record_audit inb usr ActionTenantCreate n p OutcomeDenied
         [(''reason'', JStr (if valid_tenant_name n then ''reserved_name'' else ''invalid_name''))] s,
       render_error_toast (translate inb (if valid_tenant_name n then ''error.tenant.rootReserved''
         else ''error.tenant.invalidName'') []) w)"
    using assms by (auto simp: create_tenant_def require_user_def parse_tenant_form_def Let_def)
  have "attempt inb usr ActionTenantCreate n p OutcomeDenied w s (create_tenant ph inb w s)"
    unfolding run by (rule attempt_failed) simp_all
  moreover have "hs_world (fst (create_tenant ph inb w s)) = hs_world s" by (simp add: run)
  ultimately show ?thesis using False by (intro exI [of _ OutcomeDenied]) simp
next
  case True
  obtain s1 spec where sp: "tenant_spec ph inb usr s = (s1, spec)" by fastforce
  let ?req = "\<lparr>ct_name = n, ct_parent = p, ct_spec = spec\<rparr>"
  obtain w1 q where q: "tenant_create (ph_kube ph) usr ?req (hs_world s1) = (w1, q)" by fastforce
  then have call: "call_kop (tenant_create (ph_kube ph) usr ?req) s1 = (s1\<lparr>hs_world := w1\<rparr>, q)"
    by (simp add: call_kop_def)
  have keep: "hs_audit (s1\<lparr>hs_world := w1\<rparr>) = hs_audit s" using tenant_spec_keeps [OF sp] by simp
  have run: "create_tenant ph inb w s =
      (case q of
         Inl e \<Rightarrow> (record_audit inb usr ActionTenantCreate n p OutcomeError [(''error'', JStr (err_text e))] (s1\<lparr>hs_world := w1\<rparr>),
           render_error_toast (translate inb ''error.tenant.create'' []) w)
       | Inr t \<Rightarrow> tenants_page ph inb (emit_success_toast (translate inb ''toast.tenant.created'' [(''Name'', n)]) w)
           (record_audit inb usr ActionTenantCreate n p OutcomeSuccess [] (s1\<lparr>hs_world := w1\<rparr>)))"
    using assms True sp call
    by (simp add: create_tenant_def require_user_def parse_tenant_form_def Let_def split: sum.split)
  show ?thesis
  proof (cases q)
    case (Inl e)
    with run sp q True show ?thesis
      using attempt_failed [OF keep, of OutcomeError inb usr ActionTenantCreate n p]
      by (intro exI [of _ OutcomeError]) simp
  next
    case (Inr t)
    with run sp q True show ?thesis
      using attempt_done_tenants [OF keep, of inb usr ActionTenantCreate n p w ph]
      by (intro exI [of _ OutcomeSuccess]) simp
  qed
qed

lemma update_tenant_run:
  assumes "user_from_context (in_ctx inb) = Some usr" "r_form_err (in_req inb) = None"
    "path_value (in_req inb) ''name'' = n" "query_get (in_req inb) ''ns'' = ns" "n \<noteq> ''''" "ns \<noteq> ''''"
    "tenant_spec ph inb usr s = (s1, spec)"
  shows "if spec = [] then update_tenant ph inb w s = (s1, render_error_toast (translate inb ''error.tenant.noFields'' []) w)
    else \<exists>o'. attempt inb usr ActionTenantUpdate n ns o' w s (update_tenant ph inb w s) \<and>
      (o' = OutcomeSuccess \<longleftrightarrow> (\<exists>w1 t. tenant_update (ph_kube ph) usr ns n spec
         (form_value (in_req inb) formFieldResourceVersion) (hs_world s1) = (w1, Inr t)))"
proof -
  let ?rv = "form_value (in_req inb) formFieldResourceVersion"
  have run: "update_tenant ph inb w s = do_update_tenant ph inb usr ns n w s"
    using assms by (simp add: update_tenant_def require_user_def Let_def)
  obtain w1 q where q: "tenant_update (ph_kube ph) usr ns n spec ?rv (hs_world s1) = (w1, q)" by fastforce
  then have call: "call_kop (tenant_update (ph_kube ph) usr ns n spec ?rv) s1 = (s1\<lparr>hs_world := w1\<rparr>, q)"
    by (simp add: call_kop_def)
  have keep: "hs_audit (s1\<lparr>hs_world := w1\<rparr>) = hs_audit s" using tenant_spec_keeps [OF assms(7)] by simp
  show ?thesis
  proof (cases "spec = []")
    case True
    with run assms(7) show ?thesis by (simp add: do_update_tenant_def)
  next
    case False
    show ?thesis
    proof (cases q)
      case (Inl e)
      with False run call assms(7) have "attempt inb usr ActionTenantUpdate n ns OutcomeError w s (update_tenant ph inb w s)"
        using attempt_failed [OF keep, of OutcomeError inb usr ActionTenantUpdate n ns] by (simp add: do_update_tenant_def)
      with False q Inl show ?thesis by (auto intro: exI [of _ OutcomeError])
    next
      case (Inr t)
      with False run call assms(7) have "attempt inb usr ActionTenantUpdate n ns OutcomeSuccess w s (update_tenant ph inb w s)"
        using attempt_done_tenants [OF keep, of inb usr ActionTenantUpdate n ns w ph] by (simp add: do_update_tenant_def)
      with False q Inr show ?thesis by (auto intro: exI [of _ OutcomeSuccess])
    qed
  qed
qed

lemma delete_tenant_run:
  assumes "user_from_context (in_ctx inb) = Some usr"
    "path_value (in_req inb) ''name'' = n" "query_get (in_req inb) ''ns'' = ns" "n \<noteq> ''''" "ns \<noteq> ''''"
  shows "\<exists>o'. attempt inb usr ActionTenantDelete n ns o' w s (delete_tenant ph inb w s) \<and>
    (o' = OutcomeSuccess \<longleftrightarrow> (\<exists>w1. tenant_delete (ph_kube ph) usr ns n (hs_world s) = (w1, Inr ()))) \<and>
    (is_root_tenant n \<longrightarrow> o' = OutcomeDenied \<and> hs_world (fst (delete_tenant ph inb w s)) = hs_world s)"
proof -
  obtain w1 q where q: "tenant_delete (ph_kube ph) usr ns n (hs_world s) = (w1, q)" by fastforce
  then have call: "call_kop (tenant_delete (ph_kube ph) usr ns n) s = (s\<lparr>hs_world := w1\<rparr>, q)" by (simp add: call_kop_def)
  have keep: "hs_audit (s\<lparr>hs_world := w1\<rparr>) = hs_audit s" by simp
  have root: "is_root_tenant n \<Longrightarrow> \<exists>e. q = Inl e \<and> errors_is e ErrProtectedTenant \<and> w1 = hs_world s"
    using q by (auto simp: tenant_delete_def kfail_def ErrProtectedTenant_def)
  show ?thesis
  proof (cases q)
    case (Inl e)
    let ?o = "if errors_is e ErrProtectedTenant then OutcomeDenied else OutcomeError"
    from Inl call q assms root show ?thesis
      using attempt_failed [OF keep, of ?o inb usr ActionTenantDelete n ns]
      by (intro exI [of _ ?o]) (auto simp: delete_tenant_def require_user_def Let_def)
  next
    case (Inr u)
    with call q assms root show ?thesis
      using attempt_done [OF keep, of inb usr ActionTenantDelete n ns]
      by (intro exI [of _ OutcomeSuccess]) (auto simp: delete_tenant_def require_user_def Let_def)
  qed
qed

lemma create_tenant_own:
  assumes "user_from_context (in_ctx inb) = Some usr"
  shows "\<exists>es. audits s es (fst (create_tenant ph inb w s)) \<and> (\<forall>ev\<in>set es. own_event inb usr {ActionTenantCreate} ev)"
proof (cases "r_form_err (in_req inb) = None \<and> form_value (in_req inb) formFieldName \<noteq> ''''")
  case True
  then have "r_form_err (in_req inb) = None" "form_value (in_req inb) formFieldName \<noteq> ''''" by simp_all
  from create_tenant_run [OF assms this(1) refl refl this(2), of w s ph] show ?thesis
    by (elim exE conjE) (erule attempt_own)
next
  case False
  with assms have "fst (create_tenant ph inb w s) = s"
    by (auto simp: create_tenant_def require_user_def parse_tenant_form_def Let_def split: option.split)
  then show ?thesis by (intro refused_own) simp
qed

interpretation create_tenant_op: page_operation create_tenant "{ActionTenantCreate}"
  by unfold_locales (simp add: create_tenant_def require_user_def, erule create_tenant_own)

lemma update_tenant_own:
  assumes "user_from_context (in_ctx inb) = Some usr"
  shows "\<exists>es. audits s es (fst (update_tenant ph inb w s)) \<and> (\<forall>ev\<in>set es. own_event inb usr {ActionTenantUpdate} ev)"
proof (cases "r_form_err (in_req inb) = None \<and> path_value (in_req inb) ''name'' \<noteq> '''' \<and> query_get (in_req inb) ''ns'' \<noteq> ''''")
  case True
  then have c: "r_form_err (in_req inb) = None" "path_value (in_req inb) ''name'' \<noteq> ''''" "query_get (in_req inb) ''ns'' \<noteq> ''''"
    by simp_all
  obtain s1 spec where sp: "tenant_spec ph inb usr s = (s1, spec)" by fastforce
  note run = update_tenant_run [OF assms c(1) refl refl c(2,3) sp, of w]
  show ?thesis
  proof (cases "spec = []")
    case True
    with run tenant_spec_keeps [OF sp] show ?thesis by (intro refused_own) simp
  next
    case False
    with run show ?thesis by (simp only: if_False) (elim exE conjE, erule attempt_own)
  qed
next
  case False
  with assms have "fst (update_tenant ph inb w s) = s"
    by (auto simp: update_tenant_def require_user_def with_form_def Let_def)
  then show ?thesis by (intro refused_own) simp
qed

interpretation update_tenant_op: page_operation update_tenant "{ActionTenantUpdate}"
  by unfold_locales (simp add: update_tenant_def require_user_def, erule update_tenant_own)

lemma delete_tenant_own:
  assumes "user_from_context (in_ctx inb) = Some usr"
  shows "\<exists>es. audits s es (fst (delete_tenant ph inb w s)) \<and> (\<forall>ev\<in>set es. own_event inb usr {ActionTenantDelete} ev)"
proof (cases "path_value (in_req inb) ''name'' \<noteq> '''' \<and> query_get (in_req inb) ''ns'' \<noteq> ''''")
  case True
  then have c: "path_value (in_req inb) ''name'' \<noteq> ''''" "query_get (in_req inb) ''ns'' \<noteq> ''''" by simp_all
  from delete_tenant_run [OF assms refl refl c, of w s ph] show ?thesis by (elim exE conjE) (erule attempt_own)
next
  case False
  with assms have "fst (delete_tenant ph inb w s) = s"
    by (auto simp: delete_tenant_def require_user_def Let_def)
  then show ?thesis by (intro refused_own) simp
qed

interpretation delete_tenant_op: page_operation delete_tenant "{ActionTenantDelete}"
  by unfold_locales (simp add: delete_tenant_def require_user_def, erule delete_tenant_own)

section \<open>Properties\<close>


definition tenant_form :: inbound where
  "tenant_form = sample_inbound (blank_request\<lparr>r_path_value := [(''name'', ''root'')], r_query := [(''ns'', ''tenant-root'')],
     r_form := [(formFieldName, [''root'']), (''parent'', [''tenant-root''])]\<rparr>)"


end
