(* ===== verification/Json_Api.thy ===== *)
theory Json_Api
  imports Page_Core "HOL-Library.Product_Lexorder"
begin

text \<open>
  The JSON API: the handlers of \<open>internal/api\<close> for tenants, applications, schemas and the command
  palette (\<open>tenant.go\<close>, \<open>application.go\<close>, \<open>schema.go\<close>, \<open>palette.go\<close>) and their decoder
  (\<open>response.go\<close>). They act on the same state as the pages. Of \<open>encoding/json\<close> the parser is an
  argument, whose value \<open>in_body\<close> holds the members of an object in document order; the matching of
  members to the fields of a struct is modelled. A nil map and an empty one are one value.
\<close>

section \<open>response.go\<close>

definition ErrEmptyBody :: gerr where "ErrEmptyBody = Sentinel ''empty request body''"

text \<open>
  Names match case-insensitively; beyond ASCII only the Kelvin sign and the long s fold to a
  letter.
\<close>

function fold_name :: "string \<Rightarrow> string" where
  "fold_name [] = []"
| "fold_name (a # s) =
     (if a = CHR 0xE2 \<and> take 2 s = [CHR 0x84, CHR 0xAA] then CHR ''k'' # fold_name (drop 2 s)
      else if a = CHR 0xC5 \<and> take 1 s = [CHR 0xBF] then CHR ''s'' # fold_name (drop 1 s)
      else to_lower_char a # fold_name s)"
  by pat_completeness auto
termination by (relation "measure length") auto

type_synonym 'a fields = "(string \<times> (jval \<Rightarrow> 'a \<Rightarrow> 'a res)) list"

definition find_field :: "'a fields \<Rightarrow> string \<Rightarrow> (jval \<Rightarrow> 'a \<Rightarrow> 'a res) option" where
  "find_field fs key =
     (case map_of fs key of
        Some dec \<Rightarrow> Some dec
      | None \<Rightarrow> map_option snd (find (\<lambda>f. fold_name (fst f) = fold_name key) fs))"

text \<open>\<open>DisallowUnknownFields\<close>; a null leaves what is there.\<close>

fun decode_members :: "'a fields \<Rightarrow> (string \<times> jval) list \<Rightarrow> 'a \<Rightarrow> 'a res" where
  "decode_members fs [] acc = Inr acc"
| "decode_members fs ((k, v) # ms) acc =
     (case find_field fs k of
        None \<Rightarrow> Inl (Opaque (''json: unknown field '' @ go_quote k))
      | Some dec \<Rightarrow> (case dec v acc of Inl e \<Rightarrow> Inl e | Inr acc' \<Rightarrow> decode_members fs ms acc'))"

definition cannot_unmarshal :: gerr where "cannot_unmarshal = Opaque ''json: cannot unmarshal''"

definition decode_struct :: "'a fields \<Rightarrow> 'a \<Rightarrow> jval \<Rightarrow> 'a res" where
  "decode_struct fs zero v =
     (case v of JNull \<Rightarrow> Inr zero | JMap ms \<Rightarrow> decode_members fs ms zero | _ \<Rightarrow> Inl cannot_unmarshal)"

definition string_field :: "(string \<Rightarrow> 'a \<Rightarrow> 'a) \<Rightarrow> jval \<Rightarrow> 'a \<Rightarrow> 'a res" where
  "string_field upd v r =
     (case v of JNull \<Rightarrow> Inr r | JStr s \<Rightarrow> Inr (upd s r) | _ \<Rightarrow> Inl cannot_unmarshal)"

text \<open>A second occurrence of the member decodes into the map that is there.\<close>

definition map_field :: "('a \<Rightarrow> jobj) \<Rightarrow> (jobj \<Rightarrow> 'a \<Rightarrow> 'a) \<Rightarrow> jval \<Rightarrow> 'a \<Rightarrow> 'a res" where
  "map_field sel upd v r =
     (case v of
        JNull \<Rightarrow> Inr (upd [] r)
      | JMap m \<Rightarrow> Inr (upd (fold (\<lambda>(k, x). mput k x) m (sel r)) r)
      | _ \<Rightarrow> Inl cannot_unmarshal)"

definition decode_json :: "(jval \<Rightarrow> 'a res) \<Rightarrow> inbound \<Rightarrow> 'a res" where
  "decode_json dec inb =
     (case in_body inb of
        None \<Rightarrow> Inl ErrEmptyBody
      | Some (Inl e) \<Rightarrow> Inl (Fmt ''decoding JSON: '' e '''')
      | Some (Inr v) \<Rightarrow> (case dec v of Inl e \<Rightarrow> Inl (Fmt ''decoding JSON: '' e '''') | Inr x \<Rightarrow> Inr x))"

text \<open>The three request bodies, by the tags of their structs; the tag \<open>-\<close> hides a field.\<close>

definition create_application_fields :: "create_application_request fields" where
  "create_application_fields =
     [(''name'', string_field (\<lambda>s r. r\<lparr>cr_name := s\<rparr>)), (''kind'', string_field (\<lambda>s r. r\<lparr>cr_kind := s\<rparr>)),
      (''spec'', map_field cr_spec (\<lambda>m r. r\<lparr>cr_spec := m\<rparr>))]"

definition update_application_fields :: "update_application_request fields" where
  "update_application_fields = [(''spec'', map_field ur_spec (\<lambda>m r. r\<lparr>ur_spec := m\<rparr>))]"

definition create_tenant_fields :: "create_tenant_request fields" where
  "create_tenant_fields =
     [(''name'', string_field (\<lambda>s r. r\<lparr>ct_name := s\<rparr>)), (''parent'', string_field (\<lambda>s r. r\<lparr>ct_parent := s\<rparr>)),
      (''spec'', map_field ct_spec (\<lambda>m r. r\<lparr>ct_spec := m\<rparr>))]"

definition decode_create_application :: "inbound \<Rightarrow> create_application_request res" where
  "decode_create_application =
     decode_json (decode_struct create_application_fields \<lparr>cr_name = '''', cr_kind = '''', cr_spec = []\<rparr>)"

definition decode_update_application :: "inbound \<Rightarrow> update_application_request res" where
  "decode_update_application =
     decode_json (decode_struct update_application_fields
       \<lparr>ur_spec = [], ur_resource_version = '''', ur_replace_spec = False\<rparr>)"

definition decode_create_tenant :: "inbound \<Rightarrow> create_tenant_request res" where
  "decode_create_tenant =
     decode_json (decode_struct create_tenant_fields \<lparr>ct_name = '''', ct_parent = '''', ct_spec = []\<rparr>)"

section \<open>Handlers\<close>

definition api_user :: "inbound \<Rightarrow> (user_context \<Rightarrow> 'w handler) \<Rightarrow> 'w handler" where
  "api_user inb next' w s =
     (case user_from_context (in_ctx inb) of
        None \<Rightarrow> (s, api_error 401 ''not authenticated'' w)
      | Some usr \<Rightarrow> next' usr w s)"

text \<open>What a handler answers to the result of its service call.\<close>

definition respond :: "string \<Rightarrow> int \<Rightarrow> ('a \<Rightarrow> json_payload) \<Rightarrow> 'w hstate \<times> 'a res \<Rightarrow> 'w page_writer \<Rightarrow> 'w hstate \<times> 'w page_writer" where
  "respond msg status f r w =
     (case r of
        (s, Inl e) \<Rightarrow> (s, api_error 500 msg w)
      | (s, Inr x) \<Rightarrow> (s, api_json status (VJson (f x)) w))"

definition respond_deleted :: "string \<Rightarrow> 'w hstate \<times> unit res \<Rightarrow> 'w page_writer \<Rightarrow> 'w hstate \<times> 'w page_writer" where
  "respond_deleted msg r w =
     (case r of (s, Inl e) \<Rightarrow> (s, api_error 500 msg w) | (s, Inr x) \<Rightarrow> (s, write_header 204 w))"

text \<open>\<open>tenant.go\<close>\<close>

definition api_tenant_list :: "'w page_handler \<Rightarrow> inbound \<Rightarrow> 'w handler" where
  "api_tenant_list ph inb = api_user inb (\<lambda>usr w s.
     respond ''failed to list tenants'' 200 JTenants (call_kop (tenant_list (ph_kube ph) usr) s) w)"

definition api_tenant_get :: "'w page_handler \<Rightarrow> inbound \<Rightarrow> 'w handler" where
  "api_tenant_get ph inb = api_user inb (\<lambda>usr w s.
     respond ''failed to get tenant'' 200 JTenant
       (call_kop (tenant_get (ph_kube ph) usr (path_value (in_req inb) ''name'')) s) w)"

definition api_tenant_create :: "'w page_handler \<Rightarrow> inbound \<Rightarrow> 'w handler" where
  "api_tenant_create ph inb = api_user inb (\<lambda>usr w s.
     (case decode_create_tenant inb of
        Inl e \<Rightarrow> (s, api_error 400 ''invalid request body'' w)
      | Inr body \<Rightarrow> respond ''failed to create tenant'' 201 JTenant (call_kop (tenant_create (ph_kube ph) usr body) s) w))"

definition api_tenant_delete :: "'w page_handler \<Rightarrow> inbound \<Rightarrow> 'w handler" where
  "api_tenant_delete ph inb = api_user inb (\<lambda>usr w s.
     respond_deleted ''failed to delete tenant''
       (call_kop (tenant_delete (ph_kube ph) usr (query_get (in_req inb) ''namespace'')
          (path_value (in_req inb) ''name'')) s) w)"

text \<open>\<open>application.go\<close>\<close>

definition api_app_list :: "'w page_handler \<Rightarrow> inbound \<Rightarrow> 'w handler" where
  "api_app_list ph inb = api_user inb (\<lambda>usr w s.
     respond ''failed to list applications'' 200 JApps
       (call_kop (app_list (ph_kube ph) (in_now inb) usr (path_value (in_req inb) ''tenant'')) s) w)"

definition api_app_get :: "'w page_handler \<Rightarrow> inbound \<Rightarrow> 'w handler" where
  "api_app_get ph inb = api_user inb (\<lambda>usr w s.
     respond ''failed to get application'' 200 JApp
       (call_app_get ph inb usr (path_value (in_req inb) ''tenant'') (path_value (in_req inb) ''name'') s) w)"

definition api_app_create :: "'w page_handler \<Rightarrow> inbound \<Rightarrow> 'w handler" where
  "api_app_create ph inb = api_user inb (\<lambda>usr w s.
     (case decode_create_application inb of
        Inl e \<Rightarrow> (s, api_error 400 ''invalid request body'' w)
      | Inr body \<Rightarrow>
          respond ''failed to create application'' 201 JApp
            (call_kop (app_create (ph_kube ph) (in_now inb) usr (path_value (in_req inb) ''tenant'') body) s) w))"

definition api_app_update :: "'w page_handler \<Rightarrow> inbound \<Rightarrow> 'w handler" where
  "api_app_update ph inb = api_user inb (\<lambda>usr w s.
     (case decode_update_application inb of
        Inl e \<Rightarrow> (s, api_error 400 ''invalid request body'' w)
      | Inr body \<Rightarrow>
          respond ''failed to update application'' 200 JApp
            (call_kop (app_update (ph_kube ph) (in_now inb) usr (path_value (in_req inb) ''tenant'')
               (path_value (in_req inb) ''name'') body) s) w))"

definition api_app_delete :: "'w page_handler \<Rightarrow> inbound \<Rightarrow> 'w handler" where
  "api_app_delete ph inb = api_user inb (\<lambda>usr w s.
     respond_deleted ''failed to delete application''
       (call_kop (app_delete (ph_kube ph) usr (path_value (in_req inb) ''tenant'') (path_value (in_req inb) ''name'')) s) w)"

text \<open>\<open>schema.go\<close>\<close>

definition api_schema_list :: "'w page_handler \<Rightarrow> inbound \<Rightarrow> 'w handler" where
  "api_schema_list ph inb = api_user inb (\<lambda>usr w s.
     respond ''failed to list schemas'' 200 JSchemas (call_kop (schema_list (ph_kube ph) usr) s) w)"

definition api_schema_get :: "'w page_handler \<Rightarrow> inbound \<Rightarrow> 'w handler" where
  "api_schema_get ph inb = api_user inb (\<lambda>usr w s.
     respond ''failed to get schema'' 200 JSchema (call_schema ph inb usr (path_value (in_req inb) ''kind'') s) w)"

section \<open>palette.go\<close>

text \<open>
  The fan-out: one worker per tenant lists the applications and appends them under the mutex.
  \<open>order\<close> is the order in which the workers get through; a cancelled request leaves out the rest.
\<close>

definition fanout_app_lists ::
  "'w page_handler \<Rightarrow> inbound \<Rightarrow> user_context \<Rightarrow> string list \<Rightarrow> palette_index \<Rightarrow> 'w hstate \<Rightarrow> 'w hstate \<times> palette_index" where
  "fanout_app_lists ph inb usr order index s =
     fold (\<lambda>t (s, ix).
        case call_kop (app_list (ph_kube ph) (in_now inb) usr t) s of
          (s', Inl e) \<Rightarrow> (s', ix)
        | (s', Inr l) \<Rightarrow>
            (s', ix\<lparr>px_truncated := px_truncated ix @ (if al_truncated l then [t] else []),
                    px_apps := px_apps ix @ map (\<lambda>a. \<lparr>pa_name = ap_name a, pa_tenant = t, pa_kind = ap_kind a\<rparr>) (al_items l)\<rparr>))
       order (s, index)"

definition palette_app_less :: "palette_app \<Rightarrow> palette_app \<Rightarrow> bool" where
  "palette_app_less a b =
     (if pa_tenant a \<noteq> pa_tenant b then pa_tenant a < pa_tenant b else pa_name a < pa_name b)"

text \<open>\<open>sched\<close> picks the order of the workers from the tenants to list.\<close>

definition palette_index_of ::
  "(string list \<Rightarrow> string list) \<Rightarrow> 'w page_handler \<Rightarrow> inbound \<Rightarrow> user_context \<Rightarrow> tenant list \<Rightarrow> 'w hstate \<Rightarrow> 'w hstate \<times> palette_index" where
  "palette_index_of sched ph inb usr tenants s =
     (let index = \<lparr>px_tenants = map (\<lambda>t. \<lparr>pt_namespace = tn_namespace t, pt_display_name = tn_display_name t\<rparr>) tenants,
                   px_apps = [], px_truncated = []\<rparr>
      in case fanout_app_lists ph inb usr (sched (map tn_namespace tenants)) index s of
           (s', ix) \<Rightarrow> (s', ix\<lparr>px_apps := sort_slice palette_app_less (px_apps ix),
                               px_truncated := sort_strings (px_truncated ix)\<rparr>))"

definition api_palette_index :: "(string list \<Rightarrow> string list) \<Rightarrow> 'w page_handler \<Rightarrow> inbound \<Rightarrow> 'w handler" where
  "api_palette_index sched ph inb = api_user inb (\<lambda>usr w s.
     (case call_kop (tenant_list_minimal (ph_kube ph) usr) s of
        (s1, Inl e) \<Rightarrow> (s1, api_error 500 ''failed to list tenants'' w)
      | (s1, Inr tenants) \<Rightarrow>
          (case palette_index_of sched ph inb usr tenants s1 of
             (s2, index) \<Rightarrow> (s2, api_json 200 (VJson (JPalette index)) w))))"

section \<open>The contract of an API handler\<close>

locale api_operation =
  fixes op :: "'w page_handler \<Rightarrow> inbound \<Rightarrow> 'w handler"
  assumes refused: "user_from_context (in_ctx inb) = None \<Longrightarrow> op ph inb w s = (s, api_error 401 ''not authenticated'' w)"
    and unlogged: "hs_audit (fst (op ph inb w s)) = hs_audit s"

sublocale api_operation \<subseteq> guarded_operation op "api_error 401 ''not authenticated''" "{}"
  by unfold_locales (auto simp: refused audits_def unlogged)

lemma respond_keeps [simp]: "hs_audit (fst (respond m c f r w)) = hs_audit (fst r)"
  by (simp add: respond_def split: prod.split sum.split)

lemma respond_deleted_keeps [simp]: "hs_audit (fst (respond_deleted m r w)) = hs_audit (fst r)"
  by (simp add: respond_deleted_def split: prod.split sum.split)

lemma fanout_keeps: "hs_audit (fst (fanout_app_lists ph inb usr order ix s)) = hs_audit s"
  unfolding fanout_app_lists_def
  by (induction order arbitrary: s ix) (auto split: prod.split sum.split dest!: call_kop_keeps)

lemma palette_keeps: "palette_index_of sched ph inb usr ts s = (s', ix) \<Longrightarrow> hs_audit s' = hs_audit s"
  using fanout_keeps [of ph inb usr "sched (map tn_namespace ts)"]
  by (auto simp: palette_index_of_def Let_def split: prod.splits) (metis fst_conv)

interpretation api_tenant_list: api_operation api_tenant_list
  by unfold_locales (simp_all add: api_tenant_list_def api_user_def split: option.split)

interpretation api_tenant_get: api_operation api_tenant_get
  by unfold_locales (simp_all add: api_tenant_get_def api_user_def split: option.split)

interpretation api_tenant_create: api_operation api_tenant_create
  by unfold_locales (simp_all add: api_tenant_create_def api_user_def split: option.split sum.split)

interpretation api_tenant_delete: api_operation api_tenant_delete
  by unfold_locales (simp_all add: api_tenant_delete_def api_user_def split: option.split)

interpretation api_app_list: api_operation api_app_list
  by unfold_locales (simp_all add: api_app_list_def api_user_def split: option.split)

interpretation api_app_get: api_operation api_app_get
  by unfold_locales (simp_all add: api_app_get_def api_user_def split: option.split)

interpretation api_app_create: api_operation api_app_create
  by unfold_locales (simp_all add: api_app_create_def api_user_def split: option.split sum.split)

interpretation api_app_update: api_operation api_app_update
  by unfold_locales (simp_all add: api_app_update_def api_user_def split: option.split sum.split)

interpretation api_app_delete: api_operation api_app_delete
  by unfold_locales (simp_all add: api_app_delete_def api_user_def split: option.split)

interpretation api_schema_list: api_operation api_schema_list
  by unfold_locales (simp_all add: api_schema_list_def api_user_def split: option.split)

interpretation api_schema_get: api_operation api_schema_get
  by unfold_locales (simp_all add: api_schema_get_def api_user_def split: option.split)

interpretation api_palette: api_operation "api_palette_index sched" for sched
  by unfold_locales (auto simp: api_palette_index_def api_user_def split: option.split prod.split sum.split
      dest!: call_kop_keeps palette_keeps)

section \<open>Lemmas\<close>

lemma decode_members_unknown:
  "(k, v) \<in> set ms \<Longrightarrow> find_field fs k = None \<Longrightarrow> \<exists>e. decode_members fs ms acc = Inl e"
  by (induction fs ms acc rule: decode_members.induct) (auto split: option.split sum.split)

lemma find_field_None: "\<forall>f\<in>set fs. fold_name (fst f) = fst f \<and> fst f \<noteq> fold_name k \<Longrightarrow> find_field fs k = None"
  by (auto simp: find_field_def find_None_iff map_of_eq_None_iff split: option.split)

lemma unknown_member:
  assumes "in_body inb = Some (Inr (JMap ms))" "(k, v) \<in> set ms"
    and "\<forall>f\<in>set fs. fold_name (fst f) = fst f \<and> fst f \<noteq> fold_name k"
  shows "\<exists>e. decode_json (decode_struct fs zero) inb = Inl e"
  using decode_members_unknown [OF assms(2) find_field_None [OF assms(3)], of zero] assms(1)
  by (auto simp: decode_json_def decode_struct_def)

text \<open>Sorting by a key that tells the elements apart forgets the order it was given.\<close>

lemma sort_slice_unique:
  assumes "\<And>a b. lt a b \<longleftrightarrow> (key a :: 'k::linorder) < key b" "mset xs = mset ys" "distinct (map key xs)"
  shows "sort_slice lt xs = sort_slice lt ys"
proof -
  have "lt = (\<lambda>a b. key a < key b)" using assms(1) by (intro ext) simp
  then have "sorted (map key (sort_slice lt zs))" for zs
    using sorted_sort_slice [OF weak_order_key [of key], of zs] by (simp add: sorted_wrt_map not_less)
  moreover have m: "mset (sort_slice lt xs) = mset (sort_slice lt ys)" using assms(2) by simp
  moreover have d: "distinct (map key (sort_slice lt xs))"
    using assms(3) by (metis mset_map mset_sort_slice mset_eq_imp_distinct_iff)
  ultimately have "map key (sort_slice lt xs) = map key (sort_slice lt ys)"
    by (metis mset_map sorted_sort_id properties_for_sort)
  moreover have "inj_on key (set (sort_slice lt xs) \<union> set (sort_slice lt ys))"
    using d m by (metis Un_absorb distinct_map mset_eq_setD)
  ultimately show ?thesis by (rule map_inj_on)
qed

text \<open>The fan-out when the cluster answers each list in the same way whenever it is asked.\<close>

definition palette_entries :: "string \<Rightarrow> application_list res \<Rightarrow> palette_app list" where
  "palette_entries t r =
     (case r of Inl e \<Rightarrow> [] | Inr l \<Rightarrow> map (\<lambda>a. \<lparr>pa_name = ap_name a, pa_tenant = t, pa_kind = ap_kind a\<rparr>) (al_items l))"

definition palette_cut :: "application_list res \<Rightarrow> bool" where
  "palette_cut r = (case r of Inl e \<Rightarrow> False | Inr l \<Rightarrow> al_truncated l)"

lemma fanout_pure:
  assumes "\<forall>t\<in>set order. \<forall>w. app_list (ph_kube ph) (in_now inb) usr t w = (w, r t)"
  shows "fanout_app_lists ph inb usr order ix s =
    (s, ix\<lparr>px_truncated := px_truncated ix @ filter (\<lambda>t. palette_cut (r t)) order,
           px_apps := px_apps ix @ concat (map (\<lambda>t. palette_entries t (r t)) order)\<rparr>)"
  using assms
proof (induction order arbitrary: ix)
  case Nil
  then show ?case by (simp add: fanout_app_lists_def)
next
  case (Cons t order)
  have call: "call_kop (app_list (ph_kube ph) (in_now inb) usr t) s = (s, r t)"
    using Cons.prems by (simp add: call_kop_def)
  have "fanout_app_lists ph inb usr (t # order) ix s =
      fanout_app_lists ph inb usr order
        (case r t of Inl e \<Rightarrow> ix | Inr l \<Rightarrow>
           ix\<lparr>px_truncated := px_truncated ix @ (if al_truncated l then [t] else []),
              px_apps := px_apps ix @ map (\<lambda>a. \<lparr>pa_name = ap_name a, pa_tenant = t, pa_kind = ap_kind a\<rparr>) (al_items l)\<rparr>) s"
    by (simp add: fanout_app_lists_def call split: sum.split)
  also have "\<dots> = (s, ix\<lparr>px_truncated := px_truncated ix @ filter (\<lambda>t. palette_cut (r t)) (t # order),
           px_apps := px_apps ix @ concat (map (\<lambda>t. palette_entries t (r t)) (t # order))\<rparr>)"
    using Cons.IH Cons.prems by (cases "r t") (simp_all add: palette_entries_def palette_cut_def)
  finally show ?case .
qed

definition palette_key :: "palette_app \<Rightarrow> string \<times> string" where
  "palette_key a = (pa_tenant a, pa_name a)"

lemma palette_app_less_key: "palette_app_less a b \<longleftrightarrow> palette_key a < palette_key b"
  by (auto simp: palette_app_less_def palette_key_def)

lemma palette_entries_tenant: "e \<in> set (palette_entries t r) \<Longrightarrow> pa_tenant e = t"
  by (auto simp: palette_entries_def split: sum.splits)

lemma palette_entries_iff:
  "e \<in> set (palette_entries t r) \<longleftrightarrow> (\<exists>l a. r = Inr l \<and> a \<in> set (al_items l) \<and>
     e = \<lparr>pa_name = ap_name a, pa_tenant = t, pa_kind = ap_kind a\<rparr>)"
  by (cases r) (auto simp: palette_entries_def)

lemma distinct_palette_entries:
  assumes "distinct ts" "\<forall>t\<in>set ts. \<forall>l. r t = Inr l \<longrightarrow> distinct (map ap_name (al_items l))"
  shows "distinct (map palette_key (concat (map (\<lambda>t. palette_entries t (r t)) ts)))"
  using assms
proof (induction ts)
  case (Cons t ts)
  have "distinct (map palette_key (palette_entries t (r t)))"
    using Cons.prems(2) by (cases "r t") (auto simp: palette_entries_def palette_key_def comp_def distinct_map inj_on_def)
  moreover have "palette_key ` set (palette_entries t (r t)) \<inter>
      palette_key ` set (concat (map (\<lambda>t. palette_entries t (r t)) ts)) = {}"
    using Cons.prems(1) by (auto simp: palette_key_def dest!: palette_entries_tenant)
  ultimately show ?case using Cons by (auto simp del: set_concat)
qed simp

lemma mset_concat_map: "mset xs = mset ys \<Longrightarrow> mset (concat (map f xs)) = mset (concat (map f ys))"
proof -
  have "mset (concat (map f zs)) = \<Sum>\<^sub># (image_mset (\<lambda>x. mset (f x)) (mset zs))" for zs
    by (induction zs) simp_all
  then show "mset xs = mset ys \<Longrightarrow> mset (concat (map f xs)) = mset (concat (map f ys))" by simp
qed

lemma sort_mset: "mset xs = mset ys \<Longrightarrow> sort xs = (sort ys :: 'a::linorder list)"
  by (rule properties_for_sort) simp_all

section \<open>Properties\<close>

text \<open>
  C33: a body with a member the struct does not have changes nothing. Whatever else it holds, an
  object with such a member is answered 400 before any call to the cluster: on creation any name beyond
  name, kind and spec, or name, parent and spec, in any capitalisation; on update any name but
  spec, so that neither the kind, nor the lock version, nor the replace policy can be sent.
\<close>

theorem api_rejects_unknown_members:
  assumes "user_from_context (in_ctx inb) = Some usr"
    and "in_body inb = Some (Inr (JMap ms))" and "(k, v) \<in> set ms"
  shows "(fold_name k \<notin> {''name'', ''kind'', ''spec''} \<longrightarrow>
      api_app_create ph inb w s = (s, api_error 400 ''invalid request body'' w)) \<and>
    (fold_name k \<noteq> ''spec'' \<longrightarrow> api_app_update ph inb w s = (s, api_error 400 ''invalid request body'' w)) \<and>
    (fold_name k \<notin> {''name'', ''parent'', ''spec''} \<longrightarrow>
      api_tenant_create ph inb w s = (s, api_error 400 ''invalid request body'' w))"
proof (intro conjI impI)
  have f: "fold_name ''name'' = ''name''" "fold_name ''kind'' = ''kind''" "fold_name ''spec'' = ''spec''"
    "fold_name ''parent'' = ''parent''" by code_simp+
  show "api_app_create ph inb w s = (s, api_error 400 ''invalid request body'' w)"
    if "fold_name k \<notin> {''name'', ''kind'', ''spec''}"
  proof -
    have "\<exists>e. decode_create_application inb = Inl e" unfolding decode_create_application_def
      by (rule unknown_member [OF assms(2,3)]) (use that f in \<open>auto simp: create_application_fields_def\<close>)
    then show ?thesis using assms(1) by (auto simp: api_app_create_def api_user_def)
  qed
  show "api_app_update ph inb w s = (s, api_error 400 ''invalid request body'' w)" if "fold_name k \<noteq> ''spec''"
  proof -
    have "\<exists>e. decode_update_application inb = Inl e" unfolding decode_update_application_def
      by (rule unknown_member [OF assms(2,3)]) (use that f in \<open>auto simp: update_application_fields_def\<close>)
    then show ?thesis using assms(1) by (auto simp: api_app_update_def api_user_def)
  qed
  show "api_tenant_create ph inb w s = (s, api_error 400 ''invalid request body'' w)"
    if "fold_name k \<notin> {''name'', ''parent'', ''spec''}"
  proof -
    have "\<exists>e. decode_create_tenant inb = Inl e" unfolding decode_create_tenant_def
      by (rule unknown_member [OF assms(2,3)]) (use that f in \<open>auto simp: create_tenant_fields_def\<close>)
    then show ?thesis using assms(1) by (auto simp: api_tenant_create_def api_user_def)
  qed
qed

definition api_inbound :: "jval \<Rightarrow> inbound" where
  "api_inbound v = (sample_inbound (blank_request\<lparr>r_path_value := [(''tenant'', ''tenant-a''), (''name'', ''db'')]\<rparr>))
     \<lparr>in_body := Some (Inr v)\<rparr>"

theorem api_rejects_unknown_members_witness:
  "api_app_update sample_handler (api_inbound (JMap [(''spec'', JMap []), (''ResourceVersion'', JStr ''3'')])) new_writer sample_state =
     (sample_state, api_error 400 ''invalid request body'' new_writer) \<and>
   hs_world (fst (api_app_update sample_handler (api_inbound (JMap [(''SPEC'', JMap [(''replicas'', JInt 3)])])) new_writer sample_state)) = 8"
proof -
  let ?ms = "[(''spec'', JMap []), (''ResourceVersion'', JStr ''3'')]"
  have u: "user_from_context (in_ctx (api_inbound v)) = Some sample_user" for v
    using sample_inbound_user by (simp add: api_inbound_def)
  have b: "in_body (api_inbound (JMap ?ms)) = Some (Inr (JMap ?ms))" by (simp add: api_inbound_def)
  have k: "(''ResourceVersion'', JStr ''3'') \<in> set ?ms" "fold_name ''ResourceVersion'' \<noteq> ''spec''" by (simp, code_simp)
  have "hs_world (fst (api_app_update sample_handler (api_inbound (JMap [(''SPEC'', JMap [(''replicas'', JInt 3)])])) new_writer sample_state)) = 8"
    by code_simp
  with api_rejects_unknown_members [OF u b k(1), THEN conjunct2, THEN conjunct1] k(2) show ?thesis by blast
qed


definition palette_tenant :: "string \<Rightarrow> tenant" where
  "palette_tenant n = \<lparr>tn_name = n, tn_namespace = ''tenant-'' @ n, tn_parent_namespace = ''tenant-root'',
     tn_display_name = n, tn_parent = '''', tn_children = [], tn_child_count = 0, tn_app_count = 0,
     tn_status = '''', tn_version = ''''\<rparr>"

lemma page_app_list: "app_list page_env 0 sample_user t w = (w, snd (app_list page_env 0 sample_user t 0))"
  by (simp add: app_list_def kop_defs page_client page_kube_def)

lemma page_unstr: "ke_unstr page_env = plain_unstr"
  by (simp add: page_env_def sample_app_env_def)

lemma page_app_names: "snd (app_list page_env 0 sample_user t 0) = Inr l \<Longrightarrow> map ap_name (al_items l) = [''db'']"
proof -
  assume l: "snd (app_list page_env 0 sample_user t 0) = Inr l"
  have "al_items l = [helm_release_to_application page_env 0
      [(''metadata'', JMap [(''name'', JStr ''postgres-db''),
        (''labels'', JMap [(cozyAppKindLabel, JStr ''Postgres''), (cozyAppNameLabel, JStr ''db'')])])] t]"
    using l by (auto simp: app_list_def kop_defs page_client page_kube_def helm_release_gvr_def mk_gvr_def)
  moreover have "ap_name (helm_release_to_application page_env 0
      [(''metadata'', JMap [(''name'', JStr ''postgres-db''),
        (''labels'', JMap [(cozyAppKindLabel, JStr ''Postgres''), (cozyAppNameLabel, JStr ''db'')])])] t) = ''db''"
    by (simp add: helm_release_to_application_def page_unstr plain_unstr_def plain_string_map_def plain_field_def Let_def
        mget_or_def cozyAppKindLabel_def cozyAppNameLabel_def List.map_filter_def)
  ultimately show ?thesis by simp
qed


end
