(* ===== verification/Locale_Selection.thy ===== *)
theory Locale_Selection
  imports Page_Core
begin

text \<open>
  \<open>internal/i18n\<close>: which language a request is answered in, the cookie that remembers a choice,
  and the handler that makes it (\<open>SetLanguage\<close> of \<open>internal/handler/page.go\<close>). A language tag is its
  text. The parser and the matcher of \<open>x/text/language\<close> and the translations of \<open>go-i18n\<close> are the
  record \<open>lang_lib\<close>; the embedded message files are a function of their names.
\<close>

section \<open>i18n.go\<close>

definition english :: string where "english = ''en''"

definition SupportedLocales :: "string list" where
  "SupportedLocales = [english, ''ru'', ''kk'', ''zh'']"

definition cookieName :: string where "cookieName = ''cozytempl-lang''"
definition cookieMaxAge :: int where "cookieMaxAge = 365 * 24 * 60 * 60"

text \<open>
  \<open>language.Parse\<close> followed by \<open>Base\<close>, the base of a supported tag, \<open>MatchStrings\<close> of the matcher
  over the supported locales, and the message of a tag.
\<close>

record lang_lib =
  ll_parse_base :: "string \<Rightarrow> string res"
  ll_base :: "string \<Rightarrow> string"
  ll_match :: "string list \<Rightarrow> string"
  ll_message :: "string \<Rightarrow> string \<Rightarrow> (string, string) gomap \<Rightarrow> string res"

definition locale_file :: "string \<Rightarrow> string" where
  "locale_file tag = ''locales/active.'' @ tag @ ''.toml''"

text \<open>\<open>NewBundle\<close>: the locales it loads. \<open>cancelled\<close> is \<open>context.Canceled\<close>.\<close>

fun load_locales ::
  "gerr \<Rightarrow> (string \<Rightarrow> string res) \<Rightarrow> (string \<Rightarrow> string \<Rightarrow> gerr option) \<Rightarrow> string list \<Rightarrow> string list res" where
  "load_locales cancelled read parse [] = Inr []"
| "load_locales cancelled read parse (tag # tags) =
     (case read (locale_file tag) of
        Inl e \<Rightarrow>
          if errors_is e cancelled then Inl (Fmt (''loading '' @ locale_file tag @ '': '') e '''')
          else if tag = english then Inl (Fmt (''loading required locale '' @ locale_file tag @ '': '') e '''')
          else load_locales cancelled read parse tags
      | Inr data \<Rightarrow>
          (case parse data (locale_file tag) of
             Some e \<Rightarrow> Inl (Fmt (''parsing '' @ locale_file tag @ '': '') e '''')
           | None \<Rightarrow>
               (case load_locales cancelled read parse tags of Inl e \<Rightarrow> Inl e | Inr ts \<Rightarrow> Inr (tag # ts))))"

definition new_bundle ::
  "gerr \<Rightarrow> (string \<Rightarrow> string res) \<Rightarrow> (string \<Rightarrow> string \<Rightarrow> gerr option) \<Rightarrow> string list res" where
  "new_bundle cancelled read parse = load_locales cancelled read parse SupportedLocales"

text \<open>\<open>Localizer.T\<close>.\<close>

definition localizer_T :: "lang_lib \<Rightarrow> string \<Rightarrow> localizer" where
  "localizer_T lib tag messageID data =
     (case ll_message lib tag messageID data of Inl e \<Rightarrow> ''['' @ messageID @ '']'' | Inr out \<Rightarrow> out)"

text \<open>\<open>resolve\<close>: \<open>cookie\<close> is the value of the locale cookie, if the request has one.\<close>

definition resolve_locale :: "lang_lib \<Rightarrow> string option \<Rightarrow> request \<Rightarrow> string" where
  "resolve_locale lib cookie req =
     (let accept = header_get req ''Accept-Language'';
          candidates = (case cookie of None \<Rightarrow> [] | Some v \<Rightarrow> [v]) @ (if accept \<noteq> '''' then [accept] else [])
      in ll_match lib candidates)"

definition i18n_middleware :: "lang_lib \<Rightarrow> string option \<Rightarrow> inbound \<Rightarrow> inbound" where
  "i18n_middleware lib cookie inb =
     inb\<lparr>in_localizer := Some (localizer_T lib (resolve_locale lib cookie (in_req inb)))\<rparr>"

record locale_cookie =
  lc_name :: string
  lc_value :: string
  lc_path :: string
  lc_max_age :: int
  lc_http_only :: bool
  lc_secure :: bool
  lc_same_site :: string

definition is_https :: "request \<Rightarrow> bool" where
  "is_https req = (if r_tls req then True else header_get req ''X-Forwarded-Proto'' = ''https'')"

definition set_locale_cookie :: "request \<Rightarrow> string \<Rightarrow> locale_cookie" where
  "set_locale_cookie req tag =
     \<lparr>lc_name = cookieName, lc_value = tag, lc_path = ''/'', lc_max_age = cookieMaxAge, lc_http_only = True,
      lc_secure = is_https req, lc_same_site = ''Lax''\<rparr>"

definition lookup_supported :: "lang_lib \<Rightarrow> string \<Rightarrow> string \<times> bool" where
  "lookup_supported lib raw =
     (case ll_parse_base lib raw of
        Inl e \<Rightarrow> (english, False)
      | Inr parsedBase \<Rightarrow>
          (case find (\<lambda>tag. ll_base lib tag = parsedBase) SupportedLocales of
             None \<Rightarrow> (english, False)
           | Some tag \<Rightarrow> (tag, True)))"

section \<open>page.go: the language switch\<close>

text \<open>\<open>r_form_err\<close> covers a body beyond \<open>maxLangFormBytes\<close>.\<close>

definition set_language :: "lang_lib \<Rightarrow> request \<Rightarrow> 'p writer \<Rightarrow> locale_cookie option \<times> 'p writer" where
  "set_language lib req w =
     (case r_form_err req of
        Some e \<Rightarrow> (None, http_error ''bad request'' 400 w)
      | None \<Rightarrow>
          (case lookup_supported lib (form_value req ''lang'') of
             (tag, ok) \<Rightarrow>
               if \<not> ok then (None, http_error ''unsupported locale'' 400 w)
               else
                 let target = (if header_get req ''Referer'' = '''' then ''/'' else header_get req ''Referer'')
                 in (Some (set_locale_cookie req tag),
                     if header_get req ''Hx-Request'' \<noteq> '''' then write_header 200 (set_header ''Hx-Redirect'' target w)
                     else http_redirect target 303 w)))"

section \<open>Lemmas\<close>

text \<open>
  What the matcher promises: a supported tag in front is matched exactly, and with no
  candidate the default is returned.
\<close>

definition matcher_laws :: "lang_lib \<Rightarrow> bool" where
  "matcher_laws lib \<longleftrightarrow>
     (\<forall>t\<in>set SupportedLocales. \<forall>cs. ll_match lib (t # cs) = t) \<and> ll_match lib [] = english"

lemma lookup_supported_iff:
  "lookup_supported lib raw = (tag, True) \<Longrightarrow> tag \<in> set SupportedLocales \<and> ll_parse_base lib raw = Inr (ll_base lib tag)"
  by (auto simp: lookup_supported_def find_Some_iff split: sum.splits option.splits)

lemma load_locales_members:
  "load_locales cancelled read parse tags = Inr ts \<Longrightarrow>
     set ts \<subseteq> set tags \<and> (english \<in> set tags \<longrightarrow> english \<in> set ts) \<and>
     (\<forall>t\<in>set ts. \<exists>data. read (locale_file t) = Inr data \<and> parse data (locale_file t) = None)"
  by (induction tags arbitrary: ts) (auto split: sum.splits option.splits if_splits)

section \<open>Properties\<close>

text \<open>
  C35: a chosen language sticks. When the switch accepts a choice it answers with the locale cookie
  for a supported tag of the language asked for, and every later request that carries this cookie
  is answered in that tag whatever its \<open>Accept-Language\<close>. A choice that is no supported language
  gets 400 and no cookie, and the cookie is marked secure exactly on an encrypted request.
\<close>

theorem chosen_language_sticks:
  assumes "matcher_laws lib" and "set_language lib req w = (c, w')" and "r_form_err req = None"
  shows "case c of
      Some ck \<Rightarrow> lc_name ck = cookieName \<and> lc_value ck \<in> set SupportedLocales \<and>
        ll_parse_base lib (form_value req ''lang'') = Inr (ll_base lib (lc_value ck)) \<and>
        (\<forall>req'. resolve_locale lib (Some (lc_value ck)) req' = lc_value ck) \<and>
        (lc_secure ck \<longleftrightarrow> r_tls req \<or> header_get req ''X-Forwarded-Proto'' = ''https'')
    | None \<Rightarrow> w' = http_error ''unsupported locale'' 400 w \<and>
        (\<forall>t\<in>set SupportedLocales. ll_parse_base lib (form_value req ''lang'') \<noteq> Inr (ll_base lib t))"
proof -
  obtain tag ok where l: "lookup_supported lib (form_value req ''lang'') = (tag, ok)" by fastforce
  show ?thesis
  proof (cases ok)
    case True
    with l have "lookup_supported lib (form_value req ''lang'') = (tag, True)" by simp
    from lookup_supported_iff [OF this] assms(1) have
      t: "tag \<in> set SupportedLocales" "ll_parse_base lib (form_value req ''lang'') = Inr (ll_base lib tag)"
        "\<And>cs. ll_match lib (tag # cs) = tag"
      by (auto simp: matcher_laws_def)
    moreover have "c = Some (set_locale_cookie req tag)"
      using assms(2,3) l True by (simp add: set_language_def Let_def)
    ultimately show ?thesis
      by (simp add: set_locale_cookie_def resolve_locale_def Let_def is_https_def)
  next
    case False
    then have "find (\<lambda>t. ll_base lib t = b) SupportedLocales = None" if "ll_parse_base lib (form_value req ''lang'') = Inr b" for b
      using l that by (auto simp: lookup_supported_def split: option.splits)
    with False assms(2,3) l show ?thesis by (fastforce simp: set_language_def find_None_iff)
  qed
qed

definition sample_lang :: lang_lib where
  "sample_lang = \<lparr>ll_parse_base = (\<lambda>s. if s = '''' then Inl (Opaque ''empty'') else Inr (take 2 s)), ll_base = take 2,
     ll_match = (\<lambda>cs. case find (\<lambda>c. c \<in> set SupportedLocales) cs of None \<Rightarrow> english | Some c \<Rightarrow> c),
     ll_message = (\<lambda>_ i _. Inr i)\<rparr>"

lemma sample_lang_laws: "matcher_laws sample_lang"
  by (auto simp: matcher_laws_def sample_lang_def find_Some_iff split: option.split)

theorem chosen_language_sticks_witness:
  "\<forall>req'. resolve_locale sample_lang (Some ''zh'') req' = ''zh''"
proof -
  let ?req = "blank_request\<lparr>r_form := [(''lang'', [''zh-CN''])]\<rparr>"
  have "r_form_err ?req = None" by (simp add: blank_request_def)
  moreover have "set_language sample_lang ?req (new_writer :: string writer) =
      (Some (set_locale_cookie ?req ''zh''), http_redirect ''/'' 303 new_writer)"
    by code_simp
  ultimately show ?thesis
    using chosen_language_sticks [OF sample_lang_laws, of ?req new_writer] by (fastforce simp: set_locale_cookie_def)
qed

text \<open>A bundle that loads has its English messages, and every locale it offers was parsed.\<close>

lemma new_bundle_has_english:
  "new_bundle cancelled read parse = Inr ts \<Longrightarrow> english \<in> set ts \<and> set ts \<subseteq> set SupportedLocales"
  using load_locales_members [of cancelled read parse SupportedLocales ts]
  by (simp add: new_bundle_def SupportedLocales_def)

end
