(* ===== verification/Read_Safety.thy ===== *)
theory Read_Safety
  imports Page_Reads Json_Api App_Mutations
begin

text \<open>
  What the reading handlers do to the cluster: nothing but lists and gets. \<open>R\<close> is any preorder on
  cluster states that a list and a get respect: equality for a cluster that reads do not change,
  "no write of this console in between" for one that others write to. Then every operation built from reads alone
  respects it too, up to whole handlers.
\<close>

definition steps :: "('w \<Rightarrow> 'w \<Rightarrow> bool) \<Rightarrow> ('w \<Rightarrow> 'w \<times> 'a) \<Rightarrow> bool" where
  "steps R m \<longleftrightarrow> (\<forall>w. R w (fst (m w)))"

definition reader :: "('w \<Rightarrow> 'w \<Rightarrow> bool) \<Rightarrow> 'w kenv \<Rightarrow> user_context \<Rightarrow> bool" where
  "reader R E usr \<longleftrightarrow>
     (\<forall>w. R w w) \<and> (\<forall>u v w. R u v \<longrightarrow> R v w \<longrightarrow> R u w) \<and>
     (\<forall>c. user_client E usr = Inr c \<longrightarrow>
        (\<forall>g ns opts. steps R (k_list c g ns opts)) \<and> (\<forall>g ns n. steps R (k_get c g ns n)))"

section \<open>Calls\<close>

lemma reader_refl [simp]: "reader R E usr \<Longrightarrow> R w w"
  by (simp add: reader_def)

lemma reader_trans: "reader R E usr \<Longrightarrow> R u v \<Longrightarrow> R v w \<Longrightarrow> R u w"
  unfolding reader_def by blast

lemma steps_then: "steps R m \<Longrightarrow> m w = (w', r) \<Longrightarrow> reader R E usr \<Longrightarrow> R a w \<Longrightarrow> R a w'"
  by (metis fst_conv reader_trans steps_def)

named_theorems reads "operations that only read"

lemma steps_kret [reads]: "reader R E usr \<Longrightarrow> steps R (kret x)"
  by (simp add: steps_def kret_def)

lemma steps_kfail [reads]: "reader R E usr \<Longrightarrow> steps R (kfail e)"
  by (simp add: steps_def kfail_def)

lemma steps_kthen:
  assumes "reader R E usr" "steps R m" "\<And>x. steps R (f x)"
  shows "steps R (kthen m wrap f)"
proof -
  have "R w (fst (kthen m wrap f w))" for w
  proof (cases "m w")
    case (Pair w' r)
    then have "R w w'" using assms(2) by (metis fst_conv steps_def)
    with Pair assms(3) show ?thesis
      by (cases r) (auto simp: kthen_def steps_def intro: reader_trans [OF assms(1)])
  qed
  then show ?thesis by (simp add: steps_def)
qed

lemma steps_with_client:
  assumes "reader R E usr"
    and "\<And>c. (\<And>g ns opts. steps R (k_list c g ns opts)) \<Longrightarrow> (\<And>g ns n. steps R (k_get c g ns n)) \<Longrightarrow> steps R (f c)"
  shows "steps R (with_client E usr f)"
proof -
  have "R w (fst (with_client E usr f w))" for w
  proof (cases "user_client E usr")
    case (Inl e)
    with assms(1) show ?thesis by (simp add: with_client_def)
  next
    case (Inr c)
    with assms(1) have "steps R (f c)" by (intro assms(2)) (auto simp: reader_def)
    with Inr show ?thesis by (simp add: with_client_def steps_def)
  qed
  then show ?thesis by (simp add: steps_def)
qed

section \<open>Services\<close>

lemma steps_count_apps_all:
  assumes "reader R E usr" "\<And>g ns opts. steps R (k_list c g ns opts)"
  shows "steps R (count_apps_all c ts)"
proof -
  have "R w (fst (count_apps_all c ts w))" for w
  proof (induction ts arbitrary: w)
    case Nil
    then show ?case using reader_refl [OF assms(1)] by simp
  next
    case (Cons t ts)
    obtain w1 t' where one: "count_apps c t w = (w1, t')" by fastforce
    obtain w2 ts' where rest: "count_apps_all c ts w1 = (w2, ts')" by fastforce
    have "R w w1" using assms(2) one by (auto simp: count_apps_def steps_def split: prod.splits sum.splits) (metis fst_conv)+
    moreover have "R w1 w2" using Cons.IH [of w1] rest by simp
    ultimately show ?case using one rest reader_trans [OF assms(1)] by auto
  qed
  then show ?thesis by (simp add: steps_def)
qed

text \<open>A step followed by a pure one.\<close>

lemma steps_map: "steps R m \<Longrightarrow> steps R (\<lambda>w. case m w of (w', x) \<Rightarrow> (w', f x))"
  by (auto simp: steps_def split: prod.split) (metis fst_conv)

lemma steps_kthen_kret:
  assumes "reader R E usr" "steps R m"
  shows "steps R (kthen m wrap (\<lambda>x. kret (f x)))"
  by (rule steps_kthen [OF assms]) (rule steps_kret [OF assms(1)])

text \<open>One list, one get, and a pure result: most of the services.\<close>

lemma steps_one_list:
  assumes "reader R E usr"
  shows "steps R (with_client E usr (\<lambda>c. kthen (k_list c g ns opts) wrap (\<lambda>l. kret (f l))))"
  using assms by (rule steps_with_client) (rule steps_kthen_kret [OF assms])

lemma steps_one_get:
  assumes "reader R E usr"
  shows "steps R (with_client E usr (\<lambda>c. kthen (k_get c g ns n) wrap (\<lambda>l. kret (f l))))"
  using assms by (rule steps_with_client) (rule steps_kthen_kret [OF assms])

lemma reads_tenant_list [reads]: "reader R E usr \<Longrightarrow> steps R (tenant_list E usr)"
  unfolding tenant_list_def
  by (rule steps_with_client, assumption, rule steps_kthen, assumption, assumption,
      rule steps_map, rule steps_count_apps_all)

lemma reads_tenant_list_minimal [reads]: "reader R E usr \<Longrightarrow> steps R (tenant_list_minimal E usr)"
  unfolding tenant_list_minimal_def by (rule steps_one_list)

lemma steps_count_apps: "(\<And>g ns opts. steps R (k_list c g ns opts)) \<Longrightarrow> steps R (count_apps c t)"
  unfolding steps_def count_apps_def by (auto split: prod.split sum.split) (metis fst_conv)+

lemma reads_tenant_get [reads]: "reader R E usr \<Longrightarrow> steps R (tenant_get E usr name)"
  unfolding tenant_get_def Let_def
  by (rule steps_with_client, assumption, rule steps_kthen, assumption, assumption)
    (auto split: option.split intro: steps_kfail steps_map [OF steps_count_apps])

lemma reads_tenant_snapshot [reads]: "reader R E usr \<Longrightarrow> steps R (tenant_get_spec_snapshot E usr ns name)"
  unfolding tenant_get_spec_snapshot_def by (simp add: steps_kfail steps_one_get)

lemma reads_app_list [reads]: "reader R E usr \<Longrightarrow> steps R (app_list E now usr t)"
  unfolding app_list_def by (rule steps_one_list)

lemma reads_schema_list [reads]: "reader R E usr \<Longrightarrow> steps R (schema_list E usr)"
  unfolding schema_list_def by (rule steps_one_list)

lemma reads_events [reads]:
  "reader R E usr \<Longrightarrow> steps R (list_in_namespace E usr ns limit)"
  "reader R E usr \<Longrightarrow> steps R (list_for_object E usr ns n limit)"
  unfolding list_in_namespace_def list_for_object_def list_events_def by (simp_all add: steps_kfail steps_one_list)

lemma reads_quotas [reads]: "reader R E usr \<Longrightarrow> steps R (list_quotas E usr ns)"
  unfolding list_quotas_def by (simp add: steps_kfail steps_one_list)

lemma reads_machine_deployments [reads]: "reader R E usr \<Longrightarrow> steps R (list_machine_deployments E usr ns n)"
  unfolding list_machine_deployments_def by (simp add: steps_kfail steps_kret steps_one_list)

lemma reads_pods [reads]: "reader R E usr \<Longrightarrow> steps R (list_pods_for_app E usr ns n)"
  unfolding list_pods_for_app_def by (simp add: steps_kfail steps_one_list)

lemma steps_find_app_kind:
  assumes "reader R E usr" "\<And>g ns opts. steps R (k_list c g ns opts)"
  shows "steps R (find_app_kind E c t n)"
  unfolding find_app_kind_def
  by (auto intro!: steps_kfail [OF assms(1)] steps_kret [OF assms(1)] steps_kthen [OF assms(1)] assms(2) split: list.split)

lemma reads_app_snapshot [reads]:
  assumes "reader R E usr"
  shows "steps R (app_get_spec_snapshot E usr t n)"
  unfolding app_get_spec_snapshot_def
  by (auto intro!: steps_kfail [OF assms] steps_with_client [OF assms] steps_kthen [OF assms] steps_kret [OF assms]
      steps_find_app_kind [OF assms])

text \<open>The operations outside the sequencing combinators.\<close>

lemma steps_chain: "steps R m \<Longrightarrow> m w = (w', r) \<Longrightarrow> R w w'"
  by (metis fst_conv steps_def)

lemma client_reads:
  "reader R E usr \<Longrightarrow> user_client E usr = Inr c \<Longrightarrow> steps R (k_list c g ns opts)"
  "reader R E usr \<Longrightarrow> user_client E usr = Inr c \<Longrightarrow> steps R (k_get c g ns n)"
  by (simp_all add: reader_def)

lemma steps_find_by_kind:
  assumes "reader R E usr" "\<And>g ns opts. steps R (k_list c g ns opts)"
  shows "steps R (find_by_kind E c kind)"
  unfolding find_by_kind_def
  by (auto intro!: steps_kthen [OF assms(1)] assms(2) steps_kfail [OF assms(1)] steps_kret [OF assms(1)] split: option.split)

lemma schema_get_reads:
  assumes "reader R E usr" "schema_get E now usr kind cache w = (cache', w', r)"
  shows "R w w'"
proof (cases "user_client E usr")
  case (Inl e)
  with assms reader_refl [OF assms(1)] show ?thesis
    by (auto simp: schema_get_def Let_def split: option.splits prod.splits if_splits)
next
  case (Inr c)
  obtain w1 got where g: "k_get c app_def_gvr '''' (to_lower kind) w = (w1, got)" by fastforce
  obtain w2 f where f: "find_by_kind E c kind w1 = (w2, f)" by fastforce
  have "R w w1" using steps_chain [OF client_reads(2) [OF assms(1) Inr] g] .
  moreover have "R w1 w2"
    by (rule steps_chain [OF steps_find_by_kind [OF assms(1) client_reads(1) [OF assms(1) Inr]] f])
  ultimately have "R w w2" by (rule reader_trans [OF assms(1)])
  with assms(2) Inr g f \<open>R w w1\<close> reader_refl [OF assms(1)] show ?thesis
    by (auto simp: schema_get_def Let_def split: option.splits prod.splits if_splits sum.splits)
qed

lemma read_secrets_reads:
  assumes "reader R E usr" "user_client E usr = Inr c"
  shows "R w (fst (read_secrets E c t ns dest w))"
proof (induction ns arbitrary: dest w)
  case Nil
  then show ?case using reader_refl [OF assms(1)] by (simp add: read_secrets_def)
next
  case (Cons n ns)
  obtain w1 d where one: "read_secret_into E c t n dest w = (w1, d)" by fastforce
  have "R w w1"
    using one steps_chain [OF client_reads(2) [OF assms]]
    by (auto simp: read_secret_into_def split: prod.splits sum.splits option.splits)
  moreover have "R w1 (fst (read_secrets E c t ns d w1))" by (rule Cons.IH)
  ultimately show ?case using one reader_trans [OF assms(1)] by (simp add: read_secrets_def)
qed

lemma find_secrets_reads:
  assumes "reader R E usr" "user_client E usr = Inr c"
  shows "R w (fst (find_secrets_by_prefix E c t p dest w))"
proof (cases "k_list c secrets_gvr t no_options w")
  case (Pair w1 r)
  have "R w w1" using steps_chain [OF client_reads(1) [OF assms] Pair] .
  then show ?thesis
    using Pair read_secrets_reads [OF assms] reader_trans [OF assms(1)]
    by (auto simp: find_secrets_by_prefix_def split: sum.split)
qed

lemma connection_info_reads:
  assumes "reader R E usr" "user_client E usr = Inr c"
    and "get_connection_info E now c usr t n kind cache w = (cache', w', info)"
  shows "R w w'"
proof -
  obtain c1 w1 r where s: "schema_get E now usr kind cache w = (c1, w1, r)" by (metis prod_cases3)
  define names where "names = (case r of Inl e \<Rightarrow> [] | Inr s \<Rightarrow> map (\<lambda>tmpl. replace_all tmpl ''{{ .name }}'' n) (sc_secret_templates s))"
  obtain w2 found where f: "read_secrets E c t names [] w1 = (w2, found)" by fastforce
  obtain w3 found' where f': "find_secrets_by_prefix E c t (to_lower kind @ ''-'' @ n @ ''-'') [] w2 = (w3, found')" by fastforce
  have "R w w1" by (rule schema_get_reads [OF assms(1) s])
  moreover have "R w1 w2" using read_secrets_reads [OF assms(1,2), of w1 t names "[]"] f by simp
  moreover have "R w2 w3" using find_secrets_reads [OF assms(1,2), of w2 t "to_lower kind @ ''-'' @ n @ ''-''" "[]"] f' by simp
  ultimately have "R w w2" "R w w3" using reader_trans [OF assms(1)] by blast+
  moreover have "w' = (if found = [] then w3 else w2)"
    using assms(3) s f f' by (auto simp: get_connection_info_def names_def Let_def split: if_splits)
  ultimately show ?thesis by simp
qed

lemma app_get_reads:
  assumes "reader R E usr" "app_get E now usr t n cache w = (cache', w', r)"
  shows "R w w'"
proof (cases "is_valid_label_value n \<and> (\<exists>c. user_client E usr = Inr c)")
  case False
  with assms reader_refl [OF assms(1)] show ?thesis by (auto simp: app_get_def split: if_splits sum.splits)
next
  case True
  then obtain c where c: "is_valid_label_value n" "user_client E usr = Inr c" by blast
  obtain w1 q where l: "k_list c helm_release_gvr t (name_selector n) w = (w1, q)" by fastforce
  have one: "R w w1" using steps_chain [OF client_reads(1) [OF assms(1) c(2)] l] .
  show ?thesis
  proof (cases "\<exists>l obj rest. q = Inr l \<and> kl_items l = obj # rest")
    case False
    with assms(2) c l have "w' = w1" by (auto simp: app_get_def split: sum.splits list.splits)
    with one show ?thesis by simp
  next
    case True
    then obtain l' obj rest where q: "q = Inr l'" "kl_items l' = obj # rest" by blast
    obtain c2 w2 info where i: "get_connection_info E now c usr t n
        (ap_kind (helm_release_to_application E now obj t)) cache w1 = (c2, w2, info)" by (metis prod_cases3)
    with assms(2) c l q have "w' = w2" by (simp add: app_get_def Let_def)
    with reader_trans [OF assms(1) one connection_info_reads [OF assms(1) c(2) i]] show ?thesis by simp
  qed
qed

lemma usage_collect_reads:
  assumes "reader R E usr" "usage_collect E Q usr ns w = (w', u, e)"
  shows "R w w'"
proof (cases "user_client E usr")
  case (Inl e)
  with assms reader_refl [OF assms(1)] show ?thesis by (simp add: usage_collect_def)
next
  case (Inr c)
  obtain w1 r1 where 1: "k_list c pod_gvr ns no_options w = (w1, r1)" by fastforce
  obtain w2 r2 where 2: "k_list c pvc_gvr ns no_options w1 = (w2, r2)" by fastforce
  obtain w3 r3 where 3: "k_list c pod_metrics_gvr ns no_options w2 = (w3, r3)" by fastforce
  note l = steps_chain [OF client_reads(1) [OF assms(1) Inr]]
  have "R w w3" by (rule reader_trans [OF assms(1) reader_trans [OF assms(1) l [OF 1] l [OF 2]] l [OF 3]])
  moreover have "w' = w3" using assms(2) Inr 1 2 3 by (simp add: usage_collect_def Let_def)
  ultimately show ?thesis by simp
qed

lemma usage_collect_all_reads:
  assumes "reader R E usr" "usage_collect_all E Q usr nss w = (w', m)"
  shows "R w w'"
proof -
  let ?step = "\<lambda>ns (w, m). case usage_collect E Q usr ns w of (w', u, e) \<Rightarrow> (w', mput ns (if e = None then u else no_usage ns) m)"
  have "R w (fst (fold ?step nss (w, m)))" for m
  proof (induction nss arbitrary: w m)
    case Nil
    then show ?case using reader_refl [OF assms(1)] by simp
  next
    case (Cons ns nss)
    obtain w1 u e where c: "usage_collect E Q usr ns w = (w1, u, e)" by (metis prod_cases3)
    from reader_trans [OF assms(1) usage_collect_reads [OF assms(1) c] Cons.IH [of w1]] c show ?case by simp
  qed
  from this [of "[]"] assms(2) show ?thesis by (simp add: usage_collect_all_def)
qed

lemma overrides_reads:
  assumes "reader R E usr"
  shows "steps R (get_overrides_for_kind (ke_unstr E) (ke_sdk E) (ke_base E) (ke_mode E) usr kind)"
proof -
  have "R w (fst (get_overrides_for_kind (ke_unstr E) (ke_sdk E) (ke_base E) (ke_mode E) usr kind w))" for w
  proof (cases "new_user_client (ke_sdk E) (ke_base E) usr (ke_mode E)")
    case (Inl e)
    with reader_refl [OF assms] show ?thesis by (simp add: get_overrides_for_kind_def)
  next
    case (Inr c)
    then have "user_client E usr = Inr c" by (simp add: user_client_def)
    note l = steps_chain [OF client_reads(1) [OF assms this]]
    show ?thesis using Inr l reader_refl [OF assms]
      by (auto simp: get_overrides_for_kind_def list_form_definitions_def split: prod.split sum.split)
  qed
  then show ?thesis by (simp add: steps_def)
qed

section \<open>Handlers\<close>

text \<open>
  Rules that walk back through a handler: the state after a call is reached from where the state
  before it was.
\<close>

lemma walk_kop:
  "call_kop m s = (s', r) \<Longrightarrow> reader R E usr \<Longrightarrow> steps R m \<Longrightarrow> R a (hs_world s) \<Longrightarrow> R a (hs_world s')"
  by (auto simp: call_kop_def split: prod.splits intro: steps_then)

lemma walk_schema:
  "call_schema ph inb usr kind s = (s', r) \<Longrightarrow> reader R (ph_kube ph) usr \<Longrightarrow> R a (hs_world s) \<Longrightarrow> R a (hs_world s')"
  by (auto simp: call_schema_def split: prod.splits) (metis reader_trans schema_get_reads)

lemma walk_app_get:
  "call_app_get ph inb usr t n s = (s', r) \<Longrightarrow> reader R (ph_kube ph) usr \<Longrightarrow> R a (hs_world s) \<Longrightarrow> R a (hs_world s')"
  by (auto simp: call_app_get_def split: prod.splits) (metis reader_trans app_get_reads)

lemma walk_overrides:
  "resolve_form_overrides ph usr kind s = (s', r) \<Longrightarrow> reader R (ph_kube ph) usr \<Longrightarrow> R a (hs_world s) \<Longrightarrow> R a (hs_world s')"
  by (auto simp: resolve_form_overrides_def Let_def split: if_splits prod.splits sum.splits
      elim!: walk_kop intro!: overrides_reads)

lemma walk_usage:
  "usage_collect E Q usr ns w = (w', u, e) \<Longrightarrow> reader R E usr \<Longrightarrow> R a w \<Longrightarrow> R a w'"
  "usage_collect_all E Q usr nss w = (w', m) \<Longrightarrow> reader R E usr \<Longrightarrow> R a w \<Longrightarrow> R a w'"
  by (metis reader_trans usage_collect_reads) (metis reader_trans usage_collect_all_reads)

lemma walk_aggregate:
  assumes "aggregate_apps ph inb usr ts s = (s', apps)" "reader R (ph_kube ph) usr" "R a (hs_world s)"
  shows "R a (hs_world s')"
proof -
  let ?step = "\<lambda>t (s, apps). case call_kop (app_list (ph_kube ph) (in_now inb) usr (tn_namespace t)) s of
      (s', Inl e) \<Rightarrow> (s', apps) | (s', Inr l) \<Rightarrow> (s', apps @ al_items l)"
  have "R a (hs_world (fst (fold ?step ts (s, acc))))" for acc
    using assms(3)
  proof (induction ts arbitrary: s acc)
    case (Cons t ts)
    obtain s1 r where c: "call_kop (app_list (ph_kube ph) (in_now inb) usr (tn_namespace t)) s = (s1, r)" by fastforce
    have "R a (hs_world s1)" by (rule walk_kop [OF c assms(2) reads_app_list [OF assms(2)] Cons.prems])
    from Cons.IH [OF this] c show ?case by (cases r) simp_all
  qed simp
  from this [of "[]"] assms(1) show ?thesis by (simp add: aggregate_apps_def)
qed

lemma walk_fetch_logs:
  "fetch_app_logs ph inb usr t n s = (s', v) \<Longrightarrow> reader R (ph_kube ph) usr \<Longrightarrow> R a (hs_world s) \<Longrightarrow> R a (hs_world s')"
  by (auto simp: fetch_app_logs_def Let_def split: prod.splits sum.splits if_splits option.splits
      elim!: walk_kop intro!: reads)

lemma walk_tenant_schema:
  "fetch_tenant_schema ph inb usr s = (s', v) \<Longrightarrow> reader R (ph_kube ph) usr \<Longrightarrow> R a (hs_world s) \<Longrightarrow> R a (hs_world s')"
  by (auto simp: fetch_tenant_schema_def split: prod.splits elim!: walk_schema)

lemma walk_tenant_data:
  assumes "build_tenant_page_data ph inb usr ns t ts s = (s', d)" "reader R (ph_kube ph) usr" "R a (hs_world s)"
  shows "R a (hs_world s')"
  using assms(1)
  by (auto simp: build_tenant_page_data_def Let_def split: prod.splits)
    ((erule walk_kop [where R = R, OF _ assms(2)] | erule walk_usage [where R = R, OF _ assms(2)] | rule reads assms(2,3) | simp)+)

lemma walk_app_data:
  assumes "build_app_detail_data ph inb usr t n app tab s = (s', d)" "reader R (ph_kube ph) usr" "R a (hs_world s)"
  shows "R a (hs_world s')"
  using assms(1,3)
  by (auto simp: build_app_detail_data_def Let_def split: prod.splits if_splits)
    ((erule walk_kop [where R = R, OF _ assms(2)] | erule walk_fetch_logs [where R = R, OF _ assms(2)] | rule reads assms(2) | assumption)+)

text \<open>A handler that reads, whoever asks.\<close>

definition reads_only :: "('w \<Rightarrow> 'w \<Rightarrow> bool) \<Rightarrow> 'w page_handler \<Rightarrow> ('w page_handler \<Rightarrow> inbound \<Rightarrow> 'w handler) \<Rightarrow> bool" where
  "reads_only R ph op \<longleftrightarrow> (\<forall>inb w s. R (hs_world s) (hs_world (fst (op ph inb w s))))"

lemmas walks = walk_kop walk_schema walk_app_get walk_overrides walk_usage walk_aggregate walk_fetch_logs walk_tenant_schema
  walk_tenant_data walk_app_data

lemmas handler_splits = prod.split option.split sum.split list.split if_split

lemma walk_fanout:
  assumes "fanout_app_lists ph inb usr order ix s = (s', ix')" "reader R (ph_kube ph) usr" "R a (hs_world s)"
  shows "R a (hs_world s')"
  using assms(1,3)
proof (induction order arbitrary: ix s)
  case (Cons t order)
  obtain s1 r where c: "call_kop (app_list (ph_kube ph) (in_now inb) usr t) s = (s1, r)" by fastforce
  have w: "R a (hs_world s1)" by (rule walk_kop [OF c assms(2) reads_app_list [OF assms(2)] Cons.prems(2)])
  from Cons.prems(1) c obtain ix1 where "fanout_app_lists ph inb usr order ix1 s1 = (s', ix')"
    by (cases r) (auto simp: fanout_app_lists_def)
  then show ?case using Cons.IH w by blast
qed (simp add: fanout_app_lists_def)

lemmas reading_handlers =
  dashboard_page_def overview_page_def profile_page_def not_found_page_def marketplace_page_def
  marketplace_launch_page_def tenant_page_def tenants_page_def app_detail_page_def marketplace_fragment_def
  app_table_fragment_def schema_fields_fragment_def app_edit_fragment_def tenant_edit_fragment_def
  secret_reveal_fragment_def app_form_yaml_fragment_def app_form_yaml_to_form_fragment_def api_tenant_list_def
  api_tenant_get_def api_app_list_def api_app_get_def api_schema_list_def api_schema_get_def
  api_palette_index_def palette_index_of_def require_user_def api_user_def respond_def with_form_def

lemma reads_pages:
  assumes "\<And>usr. reader R (ph_kube ph) usr"
  shows "reads_only R ph dashboard_page"
    "reads_only R ph overview_page"
    "reads_only R ph profile_page"
    "reads_only R ph not_found_page"
    "reads_only R ph marketplace_page"
    "reads_only R ph marketplace_launch_page"
    "reads_only R ph tenant_page"
    "reads_only R ph tenants_page"
    "reads_only R ph app_detail_page"
  unfolding reads_only_def
  by (auto simp: reading_handlers Let_def reader_refl [OF assms] split: handler_splits)
    ((erule walks [where R = R, OF _ assms] | rule reads [OF assms] reader_refl [OF assms] | simp)+)

lemma reads_fragments:
  assumes "\<And>usr. reader R (ph_kube ph) usr"
  shows "reads_only R ph marketplace_fragment"
    "reads_only R ph app_table_fragment"
    "reads_only R ph schema_fields_fragment"
    "reads_only R ph app_edit_fragment"
    "reads_only R ph tenant_edit_fragment"
    "reads_only R ph secret_reveal_fragment"
    "reads_only R ph app_form_yaml_fragment"
    "reads_only R ph app_form_yaml_to_form_fragment"
  unfolding reads_only_def
  by (auto simp: reading_handlers Let_def reader_refl [OF assms] split: handler_splits)
    ((erule walks [where R = R, OF _ assms] | rule reads [OF assms] reader_refl [OF assms] | simp)+)

lemma reads_api:
  assumes "\<And>usr. reader R (ph_kube ph) usr"
  shows "reads_only R ph api_tenant_list"
    "reads_only R ph api_tenant_get"
    "reads_only R ph api_app_list"
    "reads_only R ph api_app_get"
    "reads_only R ph api_schema_list"
    "reads_only R ph api_schema_get"
    "reads_only R ph (api_palette_index sched)"
  unfolding reads_only_def
  by (auto simp: reading_handlers Let_def reader_refl [OF assms] split: handler_splits)
    ((erule walks [where R = R, OF _ assms] walk_fanout [where R = R, OF _ assms] | rule reads [OF assms] reader_refl [OF assms] | simp)+)

text \<open>A cluster that lists and gets leave as it is.\<close>

lemma page_reader: "reader (=) page_env usr"
  by (auto simp: reader_def steps_def user_client_def new_user_client_def page_env_def sample_app_env_def page_kube_def
      split: sum.splits if_splits)

end
