(* ===== verification/Process_Entry.thy ===== *)
theory Process_Entry
  imports Api_Router Locale_Selection
begin

text \<open>
  The start of the process: tracing (\<open>internal/tracing\<close>), the hash of the embedded assets
  (\<open>static/assetver.go\<close>), and \<open>run\<close> of \<open>cmd/cozytempl/main.go\<close>, which loads the
  configuration, builds every part and wires the router. The result of \<open>run\<close> is the wiring it
  serves with, or the error the process ends with; listening, signals and shutdown are not
  modelled. The libraries called on the way are the record \<open>process_lib\<close>.
\<close>

section \<open>tracing.go\<close>

datatype exporter = GrpcExporter | HttpExporter

definition TracerName :: string where "TracerName = ''cozytempl''"
definition serviceNameEnv :: string where "serviceNameEnv = ''OTEL_SERVICE_NAME''"

definition build_exporter :: "(exporter \<Rightarrow> gerr option) \<Rightarrow> environ \<Rightarrow> exporter res" where
  "build_exporter new env =
     (if env ''OTEL_EXPORTER_OTLP_PROTOCOL'' = ''http/protobuf'' then
        (case new HttpExporter of
           Some e \<Rightarrow> Inl (Fmt ''http OTLP exporter: '' e '''') | None \<Rightarrow> Inr HttpExporter)
      else
        (case new GrpcExporter of
           Some e \<Rightarrow> Inl (Fmt ''grpc OTLP exporter: '' e '''') | None \<Rightarrow> Inr GrpcExporter))"

text \<open>
  \<open>Init\<close>: the exporter and the service name of the provider it installs, or nothing when tracing
  is off. \<open>res\<close> is \<open>resource.New\<close> for a service name.
\<close>

definition tracing_init ::
  "(exporter \<Rightarrow> gerr option) \<Rightarrow> (string \<Rightarrow> gerr option) \<Rightarrow> environ \<Rightarrow> (exporter \<times> string) option res" where
  "tracing_init new res env =
     (if env ''OTEL_EXPORTER_OTLP_ENDPOINT'' = '''' then Inr None
      else
        (case build_exporter new env of
           Inl e \<Rightarrow> Inl (Fmt ''building OTLP exporter: '' e '''')
         | Inr exporter \<Rightarrow>
             let name = env_or_default env serviceNameEnv ''cozytempl'' in
             (case res name of
                Some e \<Rightarrow> Inl (Fmt ''building resource: '' e '''')
              | None \<Rightarrow> Inr (Some (exporter, name)))))"

section \<open>assetver.go\<close>

text \<open>
  The walk over the embedded files: an error of the walk itself, or a path, whether it is a
  directory, and what reading it gives. \<open>sha\<close> is SHA-256.
\<close>

fun hashed_bytes :: "(string \<times> bool \<times> string res) res list \<Rightarrow> string res" where
  "hashed_bytes [] = Inr []"
| "hashed_bytes (Inl e # es) = Inl e"
| "hashed_bytes (Inr (path, dir, content) # es) =
     (if dir then hashed_bytes es
      else (case content of
          Inl e \<Rightarrow> Inl e
        | Inr d \<Rightarrow> (case hashed_bytes es of Inl e \<Rightarrow> Inl e | Inr rest \<Rightarrow> Inr (path @ d @ rest))))"

definition compute_asset_version :: "(string \<Rightarrow> 8 word list) \<Rightarrow> (string \<times> bool \<times> string res) res list \<Rightarrow> string" where
  "compute_asset_version sha walk =
     (case hashed_bytes walk of Inl e \<Rightarrow> ''dev'' | Inr bytes \<Rightarrow> take 8 (hex_encode (sha bytes)))"

text \<open>\<open>AssetVersion\<close> with its memoised value.\<close>

definition asset_version ::
  "(string \<Rightarrow> 8 word list) \<Rightarrow> (string \<times> bool \<times> string res) res list \<Rightarrow> string option \<Rightarrow> string option \<times> string" where
  "asset_version sha walk memo =
     (case memo of
        Some v \<Rightarrow> (Some v, v)
      | None \<Rightarrow> let v = compute_asset_version sha walk in (Some v, v))"

section \<open>main.go\<close>

text \<open>In nanoseconds.\<close>

definition shutdownTimeout :: int where "shutdownTimeout = 10 * 10 ^ 9"
definition readTimeout :: int where "readTimeout = 15 * 10 ^ 9"
definition writeTimeout :: int where "writeTimeout = 60 * 10 ^ 9"
definition idleTimeout :: int where "idleTimeout = 120 * 10 ^ 9"

definition watcherKubeconfigEnv :: string where "watcherKubeconfigEnv = ''COZYTEMPL_WATCHER_KUBECONFIG''"

text \<open>
  \<open>rest.InClusterConfig\<close>, the client configuration of the default loading rules,
  \<open>clientcmd.BuildConfigFromFlags\<close> of a file, the OTLP exporters and resource, the start of the
  watcher, the message files, the discovery of an OIDC issuer with the client settings and scopes
  it is used with, the key generator and the cookie store of gorilla.
\<close>

record process_lib =
  pl_in_cluster :: "rest_config res"
  pl_default_config :: "rest_config res"
  pl_config_file :: "string \<Rightarrow> rest_config res"
  pl_exporter :: "exporter \<Rightarrow> gerr option"
  pl_resource :: "string \<Rightarrow> gerr option"
  pl_watch :: "rest_config \<Rightarrow> gerr option"
  pl_bundle :: "string list res"
  pl_discover :: "string \<Rightarrow> string \<Rightarrow> string \<Rightarrow> string \<Rightarrow> string list \<Rightarrow> oidc_provider res"
  pl_random_key :: "nat \<Rightarrow> 8 word list"
  pl_cookies :: "session_store \<Rightarrow> cookie_store"

definition load_kube_config :: "process_lib \<Rightarrow> rest_config res" where
  "load_kube_config lib = (case pl_in_cluster lib of Inr c \<Rightarrow> Inr c | Inl e \<Rightarrow> pl_default_config lib)"

definition load_watcher_kube_config :: "process_lib \<Rightarrow> environ \<Rightarrow> rest_config \<Rightarrow> rest_config res" where
  "load_watcher_kube_config lib env fallback =
     (let path = env watcherKubeconfigEnv in
      if path = '''' then Inr fallback
      else (case pl_config_file lib path of
          Inl e \<Rightarrow> Inl (Fmt (''loading watcher kubeconfig from '' @ go_quote path @ '': '') e '''')
        | Inr c \<Rightarrow> Inr c))"

text \<open>\<open>NewOIDCProvider\<close> of \<open>oidc.go\<close>.\<close>

definition new_oidc_provider :: "process_lib \<Rightarrow> string \<Rightarrow> string \<Rightarrow> string \<Rightarrow> string \<Rightarrow> oidc_provider res" where
  "new_oidc_provider lib issuerURL clientID clientSecret redirectURL =
     (case pl_discover lib issuerURL clientID clientSecret redirectURL
             [''openid'', ''profile'', ''email'', ''groups'', ''offline_access''] of
        Inl e \<Rightarrow> Inl (Fmt ''creating OIDC provider: '' e '''')
      | Inr p \<Rightarrow> Inr p)"

text \<open>The debug server: the address it listens on and its paths.\<close>

definition start_debug_pprof_server :: "string \<Rightarrow> (string \<times> string list) option" where
  "start_debug_pprof_server addr =
     (if addr = '''' then None
      else Some (addr, [''/debug/pprof/'', ''/debug/pprof/cmdline'', ''/debug/pprof/profile'', ''/debug/pprof/symbol'',
        ''/debug/pprof/trace'']))"

text \<open>
  What \<open>run\<close> serves with: the router's configuration and the parts in it, the base configuration
  of every service, the watcher's, whether it started, the locales, and the mode the page and log
  handlers put on audit events.
\<close>

record process =
  pr_router :: router_config
  pr_store :: "session_store option"
  pr_auth :: "auth_handler option"
  pr_oidc :: "oidc_provider option"
  pr_base :: rest_config
  pr_watcher :: rest_config
  pr_watching :: bool
  pr_locales :: "string list"
  pr_handler_mode :: auth_mode
  pr_tracing :: "(exporter \<times> string) option"
  pr_addr :: string
  pr_pprof :: "(string \<times> string list) option"

definition router_config_for :: "config \<Rightarrow> bool \<Rightarrow> router_config" where
  "router_config_for cfg hasAuth =
     \<lparr>rc_auth_mode = AuthMode cfg, rc_dev_username = ''dev-admin'', rc_trust_forwarded = TrustForwardedHeaders cfg,
      rc_has_auth_handler = hasAuth, rc_has_watch = True, rc_has_palette = True, rc_has_logs = True\<rparr>"

text \<open>
  The switch over the mode: session store, auth handler, provider. A mode outside the five falls
  through the switch, as dev mode does.
\<close>

definition wire_auth ::
  "process_lib \<Rightarrow> config \<Rightarrow> rest_config \<Rightarrow> (session_store option \<times> auth_handler option \<times> oidc_provider option) res" where
  "wire_auth lib cfg k8sCfg =
     (let store = new_session_store (pl_random_key lib) (SessionSecret cfg);
          handler = (\<lambda>oidc. \<lparr>ah_oidc = oidc, ah_store = pl_cookies lib store, ah_mode = AuthMode cfg,
            ah_base_cfg = Some k8sCfg\<rparr>)
      in if AuthMode cfg = AuthModeBYOK \<or> AuthMode cfg = AuthModeToken then
           Inr (Some store, Some (handler None), None)
         else if AuthMode cfg = AuthModePassthrough \<or> AuthMode cfg = AuthModeImpersonationLegacy then
           (case new_oidc_provider lib (internal_issuer_url cfg) (OIDCClientID cfg) (OIDCClientSecret cfg)
                   (OIDCRedirectURL cfg) of
              Inl e \<Rightarrow> Inl (Fmt ''initializing OIDC: '' e '''')
            | Inr p \<Rightarrow> Inr (Some store, Some (handler (Some p)), Some p))
         else Inr (None, None, None))"

definition run ::
  "process_lib \<Rightarrow> ((string \<times> string) list \<Rightarrow> (string \<times> string) list) \<Rightarrow> (nat \<Rightarrow> (8 word list) res) \<Rightarrow>
     environ \<Rightarrow> process res" where
  "run lib order rand env =
     (case load order rand env of
        Inl e \<Rightarrow> Inl (Fmt ''loading config: '' e '''')
      | Inr cfg \<Rightarrow>
     (case tracing_init (pl_exporter lib) (pl_resource lib) env of
        Inl e \<Rightarrow> Inl (Fmt ''initialising tracing: '' e '''')
      | Inr tracing \<Rightarrow>
     (case load_kube_config lib of
        Inl e \<Rightarrow> Inl e
      | Inr k8sCfg \<Rightarrow>
     (case load_watcher_kube_config lib env k8sCfg of
        Inl e \<Rightarrow> Inl (Fmt ''loading watcher kubeconfig: '' e '''')
      | Inr watcherCfg \<Rightarrow>
     (case pl_bundle lib of
        Inl e \<Rightarrow> Inl (Fmt ''loading i18n bundle: '' e '''')
      | Inr locales \<Rightarrow>
     (case wire_auth lib cfg k8sCfg of
        Inl e \<Rightarrow> Inl e
      | Inr (store, auth, oidc) \<Rightarrow>
          Inr \<lparr>pr_router = router_config_for cfg (auth \<noteq> None), pr_store = store, pr_auth = auth, pr_oidc = oidc,
            pr_base = k8sCfg, pr_watcher = watcherCfg, pr_watching = (pl_watch lib watcherCfg = None),
            pr_locales = locales, pr_handler_mode = AuthMode cfg, pr_tracing = tracing,
            pr_addr = ListenAddr cfg, pr_pprof = start_debug_pprof_server (DebugPprofAddr cfg)\<rparr>))))))"

text \<open>The router of a process, given the rate limiter and the JSON decoder it is linked with.\<close>

definition process_env :: "process_lib \<Rightarrow> process \<Rightarrow> 'l limiter_lib \<Rightarrow> (string \<Rightarrow> int res) \<Rightarrow> session_store \<Rightarrow> 'l router_env" where
  "process_env lib p lim je st =
     \<lparr>re_limiter = lim, re_json_exp = je, re_store = pl_cookies lib st, re_oidc = pr_oidc p\<rparr>"

section \<open>Lemmas\<close>

lemma run_Inr:
  assumes "run lib order rand env = Inr p"
  obtains cfg auth where "load order rand env = Inr cfg" "wire_auth lib cfg (pr_base p) = Inr (pr_store p, auth, pr_oidc p)"
    "pr_auth p = auth" "pr_router p = router_config_for cfg (auth \<noteq> None)" "pr_handler_mode p = AuthMode cfg"
    "load_watcher_kube_config lib env (pr_base p) = Inr (pr_watcher p)"
    "pr_pprof p = start_debug_pprof_server (DebugPprofAddr cfg)"
  using assms that
  by (auto simp: run_def split: sum.splits prod.splits)

lemma load_mode:
  assumes "load order rand env = Inr cfg" "\<And>xs. mset (order xs) = mset xs"
  shows "auth_mode_valid (AuthMode cfg) \<and>
    (AuthMode cfg = AuthModeDev \<longleftrightarrow> env ''COZYTEMPL_DEV_MODE'' = ''true'' \<or> env ''COZYTEMPL_AUTH_MODE'' = ''dev'') \<and>
    (AuthMode cfg \<noteq> AuthModeDev \<longrightarrow> \<not> weak_secret (SessionSecret cfg) \<and> SessionSecret cfg = env ''SESSION_SECRET'') \<and>
    DebugPprofAddr cfg = env ''COZYTEMPL_DEBUG_PPROF_ADDR''"
  using assms(1)
proof (rule load_Inr)
  fix mode
  assume m: "resolve_auth_mode (env ''COZYTEMPL_AUTH_MODE'') (env ''COZYTEMPL_DEV_MODE'' = envTrue)
      (env ''OIDC_ISSUER_URL'' \<noteq> '''') = Inr mode"
    and v: "validate_for_mode order ((load_env env)\<lparr>AuthMode := mode, DevMode := (mode = AuthModeDev)\<rparr>) = None"
    and c: "cfg = (load_env env)\<lparr>AuthMode := mode, DevMode := (mode = AuthModeDev)\<rparr> \<and>
        \<not> (mode = AuthModeDev \<and> weak_secret (env ''SESSION_SECRET'')) \<or>
      (\<exists>b. rand devSessionSecretRandomBytes = Inr b \<and> mode = AuthModeDev \<and>
        cfg = (load_env env)\<lparr>AuthMode := mode, DevMode := True, SessionSecret := hex_encode b\<rparr>)"
  have "mode = AuthModeDev \<longleftrightarrow> env ''COZYTEMPL_DEV_MODE'' = ''true'' \<or> env ''COZYTEMPL_AUTH_MODE'' = ''dev''"
    using m resolve_auth_mode_dev [of "env ''COZYTEMPL_AUTH_MODE''"
        "env ''COZYTEMPL_DEV_MODE'' = envTrue" "env ''OIDC_ISSUER_URL'' \<noteq> ''''"]
    by (auto simp: envTrue_def AuthModeDev_def)
  moreover have "AuthMode cfg = mode" "DebugPprofAddr cfg = env ''COZYTEMPL_DEBUG_PPROF_ADDR''"
    "mode \<noteq> AuthModeDev \<longrightarrow> SessionSecret cfg = env ''SESSION_SECRET''"
    using c by (auto simp: load_env_def)
  ultimately show ?thesis
    using v unfolding validate_for_mode_None [OF assms(2)] by simp
qed

text \<open>Every mode but dev mode has its store and handler, and a provider where its routes need one.\<close>

lemma wire_auth_Inr:
  assumes "wire_auth lib cfg k8sCfg = Inr (store, auth, oidc)" "auth_mode_valid (AuthMode cfg)" "AuthMode cfg \<noteq> AuthModeDev"
  defines "st \<equiv> new_session_store (pl_random_key lib) (SessionSecret cfg)"
  shows "store = Some st \<and>
    auth = Some \<lparr>ah_oidc = oidc, ah_store = pl_cookies lib st, ah_mode = AuthMode cfg, ah_base_cfg = Some k8sCfg\<rparr> \<and>
    (oidc \<noteq> None \<longleftrightarrow> AuthMode cfg = AuthModePassthrough \<or> AuthMode cfg = AuthModeImpersonationLegacy)"
  using assms(2,1,3) unfolding st_def
  by (cases rule: auth_mode_cases) (auto simp: wire_auth_def Let_def split: sum.splits)

lemma process_calls_guarded:
  assumes "ro_call (route (process_env lib p lim je st) (pr_router p) now uuid req rates :: ('l, 'q) routed_out) =
    Some (CallHandler h b c)"
  shows "\<exists>u. user_from_context c = Some u \<and> snd (rl_allow lim now (uc_username u) rates)"
  using assms unfolding route_sel
proof (cases rule: dispatch_called)
  case (guarded inner h' b' c')
  then obtain u where "user_from_context c = Some u"
    by (auto simp: authenticate_def dev_auth_def context_with_user_def user_from_context_def dest: require_auth_user
        split: if_splits)
  with guarded show ?thesis by (auto simp: process_env_def)
qed simp

text \<open>A hash version has eight digits, and once computed it stays.\<close>

lemma asset_version_stays: "asset_version sha walk' (fst (asset_version sha walk memo)) = asset_version sha walk memo"
  by (simp add: asset_version_def Let_def split: option.split)

end
