(* ===== verification/Console.thy ===== *)
theory Console
  imports Process_Entry Read_Safety App_Actions Tenant_Mutations
begin

text \<open>
  The console as a whole: a request goes through the chain of \<open>Api_Router\<close>, and the handler it
  reaches runs on the shared state with the identity, the correlation id and the localizer the
  chain attached. \<open>console_op\<close> is the table from the router's endpoints to the handlers of the
  other theories; the streams, which keep their connection open and have a state of their own, are
  not in it. The public endpoints change none of this state; what they answer is an argument,
  except for the health check.
\<close>

section \<open>router.go: the small handlers\<close>

definition health_handler :: "'p writer \<Rightarrow> 'p writer" where
  "health_handler w = write_body (BText ''ok'') (write_header 200 w)"

text \<open>The headers in front of the file server.\<close>

definition static_headers :: "'p writer \<Rightarrow> 'p writer" where
  "static_headers w =
     set_header ''Expires'' ''0'' (set_header ''Pragma'' ''no-cache''
       (set_header ''Cache-Control'' ''no-cache, no-store, must-revalidate'' w))"

section \<open>The handlers by endpoint\<close>

definition language_op :: "lang_lib \<Rightarrow> 'w page_handler \<Rightarrow> inbound \<Rightarrow> 'w handler" where
  "language_op lib ph inb w s = (s, snd (set_language lib (in_req inb) w))"

fun console_op ::
  "lang_lib \<Rightarrow> (string list \<Rightarrow> string list) \<Rightarrow> endpoint \<Rightarrow> ('w page_handler \<Rightarrow> inbound \<Rightarrow> 'w handler) option" where
  "console_op lib sched Dashboard = Some dashboard_page"
| "console_op lib sched OverviewPage = Some overview_page"
| "console_op lib sched MarketplacePage = Some marketplace_page"
| "console_op lib sched MarketplaceLaunchPage = Some marketplace_launch_page"
| "console_op lib sched ProfilePage = Some profile_page"
| "console_op lib sched TenantsPage = Some tenants_page"
| "console_op lib sched CreateTenant = Some create_tenant"
| "console_op lib sched UpdateTenant = Some update_tenant"
| "console_op lib sched DeleteTenant = Some delete_tenant"
| "console_op lib sched TenantPage = Some tenant_page"
| "console_op lib sched AppDetailPage = Some app_detail_page"
| "console_op lib sched CreateApp = Some create_app"
| "console_op lib sched UpdateApp = Some update_app"
| "console_op lib sched DeleteApp = Some delete_app"
| "console_op lib sched InvokeAction = Some invoke_action"
| "console_op lib sched AppTableFragment = Some app_table_fragment"
| "console_op lib sched MarketplaceFragment = Some marketplace_fragment"
| "console_op lib sched SchemaFieldsFragment = Some schema_fields_fragment"
| "console_op lib sched AppFormYAMLFragment = Some app_form_yaml_fragment"
| "console_op lib sched AppFormYAMLToFormFragment = Some app_form_yaml_to_form_fragment"
| "console_op lib sched TenantEditFragment = Some tenant_edit_fragment"
| "console_op lib sched AppEditFragment = Some app_edit_fragment"
| "console_op lib sched SecretRevealFragment = Some secret_reveal_fragment"
| "console_op lib sched SetLanguage = Some (language_op lib)"
| "console_op lib sched NotFoundPage = Some not_found_page"
| "console_op lib sched TenantList = Some api_tenant_list"
| "console_op lib sched TenantGet = Some api_tenant_get"
| "console_op lib sched TenantCreate = Some api_tenant_create"
| "console_op lib sched TenantDelete = Some api_tenant_delete"
| "console_op lib sched AppList = Some api_app_list"
| "console_op lib sched AppGet = Some api_app_get"
| "console_op lib sched AppCreate = Some api_app_create"
| "console_op lib sched AppUpdate = Some api_app_update"
| "console_op lib sched AppDelete = Some api_app_delete"
| "console_op lib sched SchemaList = Some api_schema_list"
| "console_op lib sched SchemaGet = Some api_schema_get"
| "console_op lib sched PaletteIndex = Some (api_palette_index sched)"
| "console_op lib sched SSEStream = None"
| "console_op lib sched WatchStream = None"
| "console_op lib sched LogStream = None"

text \<open>The actions an endpoint records.\<close>

definition actions_of :: "endpoint \<Rightarrow> action set" where
  "actions_of h = (case h of
      CreateTenant \<Rightarrow> {ActionTenantCreate} | UpdateTenant \<Rightarrow> {ActionTenantUpdate}
    | DeleteTenant \<Rightarrow> {ActionTenantDelete} | CreateApp \<Rightarrow> {ActionAppCreate}
    | UpdateApp \<Rightarrow> {ActionAppUpdate} | DeleteApp \<Rightarrow> {ActionAppDelete}
    | InvokeAction \<Rightarrow> {ActionAppAction} | AppDetailPage \<Rightarrow> {ActionConnectionView}
    | SecretRevealFragment \<Rightarrow> {ActionSecretView} | _ \<Rightarrow> {})"

section \<open>A request from arrival to answer\<close>

record ('l, 'w) console =
  co_env :: "'l router_env"
  co_config :: router_config
  co_pages :: "'w page_handler"
  co_lang :: lang_lib
  co_sched :: "string list \<Rightarrow> string list"
  co_public :: "public_endpoint \<Rightarrow> request \<Rightarrow> 'w page_writer \<Rightarrow> 'w page_writer"

text \<open>
  A request, the clock, the id the generator offers, the locale cookie, and what the JSON parser
  finds in the body.
\<close>

record arrival =
  ar_req :: request
  ar_now :: int
  ar_uuid :: string
  ar_locale :: "string option"
  ar_body :: "jval res option"

record ('l, 'w) console_state =
  cs_host :: "'w hstate"
  cs_rates :: "'l rate_limit_store"

definition inbound_of :: "lang_lib \<Rightarrow> arrival \<Rightarrow> string \<Rightarrow> binds \<Rightarrow> ctx \<Rightarrow> inbound" where
  "inbound_of lib a requestID b c =
     i18n_middleware lib (ar_locale a)
       \<lparr>in_req = (ar_req a)\<lparr>r_path_value := b\<rparr>, in_ctx = c, in_request_id = requestID, in_localizer = None,
        in_now = ar_now a, in_body = ar_body a\<rparr>"

definition public_answer :: "('l, 'w) console \<Rightarrow> public_endpoint \<Rightarrow> request \<Rightarrow> 'w page_writer \<Rightarrow> 'w page_writer" where
  "public_answer K e req w =
     (if e = HealthHandler then health_handler w
      else if e = StaticFiles then co_public K e req (static_headers w)
      else co_public K e req w)"

definition serve ::
  "('l, 'w) console \<Rightarrow> arrival \<Rightarrow> ('l, 'w) console_state \<Rightarrow> ('l, 'w) console_state \<times> 'w page_writer" where
  "serve K a s =
     (let r = route (co_env K) (co_config K) (ar_now a) (ar_uuid a) (ar_req a) (cs_rates s);
          s' = s\<lparr>cs_rates := ro_rates r\<rparr>
      in case ro_call r of
           None \<Rightarrow> (s', ro_writer r)
         | Some (CallPublic e) \<Rightarrow> (s', public_answer K e (ar_req a) (ro_writer r))
         | Some (CallHandler h b c) \<Rightarrow>
             (case console_op (co_lang K) (co_sched K) h of
                None \<Rightarrow> (s', ro_writer r)
              | Some op \<Rightarrow>
                  (case op (co_pages K) (inbound_of (co_lang K) a (ro_request_id r) b c) (ro_writer r) (cs_host s) of
                     (host, w) \<Rightarrow> (s'\<lparr>cs_host := host\<rparr>, w))))"

text \<open>Requests one after the other.\<close>

definition serve_run :: "('l, 'w) console \<Rightarrow> arrival list \<Rightarrow> ('l, 'w) console_state \<Rightarrow> ('l, 'w) console_state" where
  "serve_run K as s = fold (\<lambda>a s. fst (serve K a s)) as s"

lemma serve_run_simps [simp]:
  "serve_run K [] s = s" "serve_run K (a # as) s = serve_run K as (fst (serve K a s))"
  by (simp_all add: serve_run_def)

section \<open>Lemmas\<close>

lemma inbound_of_sel [simp]:
  "in_ctx (inbound_of lib a rid b c) = c" "in_request_id (inbound_of lib a rid b c) = rid"
  by (simp_all add: inbound_of_def i18n_middleware_def)

text \<open>What a request does to the state is what the handler it reaches does.\<close>

lemma serve_host:
  fixes K :: "('l, 'w) console"
  obtains (same) "cs_host (fst (serve K a s)) = cs_host s"
  | (handled) inner h b c op w where
      "inner = page_routes \<or> inner = api_routes (co_config K)"
      "mux_match inner (r_method (ar_req a)) (r_path (ar_req a)) = RtFound h b"
      "ao_next (authenticate (co_env K) (co_config K) (ar_now a) (ar_req a) (entry_writer (ar_uuid a) (ar_req a) :: 'w page_writer)) = Some c"
      "console_op (co_lang K) (co_sched K) h = Some op"
      "cs_host (fst (serve K a s)) =
         fst (op (co_pages K) (inbound_of (co_lang K) a (fst (with_request_id (ar_uuid a) (ar_req a) (new_writer :: 'w page_writer))) b c) w (cs_host s))"
proof -
  let ?r = "route (co_env K) (co_config K) (ar_now a) (ar_uuid a) (ar_req a) (cs_rates s) :: ('l, 'w page_view) routed_out"
  consider "\<forall>h b c. ro_call ?r \<noteq> Some (CallHandler h b c)" | h b c where "ro_call ?r = Some (CallHandler h b c)" by blast
  then show thesis
  proof cases
    case 1
    then show ?thesis by (intro same) (auto simp: serve_def Let_def split: option.split called.split)
  next
    case (2 h b c)
    show ?thesis
    proof (cases "console_op (co_lang K) (co_sched K) h :: ('w page_handler \<Rightarrow> inbound \<Rightarrow> 'w handler) option")
      case None
      with 2 show ?thesis by (intro same) (simp add: serve_def Let_def)
    next
      case (Some op)
      from 2 [unfolded route_sel] show ?thesis
      proof (cases rule: dispatch_called)
        case (guarded inner h' b' c')
        then have eq: "h' = h" "b' = b" "c' = c" by auto
        show ?thesis
          by (rule handled [OF guarded(2) guarded(3,4) [unfolded eq] Some, of "ro_writer ?r"])
            (simp add: serve_def Let_def 2 Some route_sel(1) split: prod.split)
      qed simp
    qed
  qed
qed

text \<open>Every handler of the table records only its user's events, of its actions.\<close>

lemma own_events_into:
  "guarded_operation op deny acts \<Longrightarrow> user_from_context (in_ctx inb) = Some usr \<Longrightarrow>
     \<exists>es. audits s es (fst (op ph inb w s)) \<and> (\<forall>ev\<in>set es. own_event inb usr acts ev)"
  by (rule guarded_operation.own_events)

lemmas guarded_ops =
  dashboard_op.guarded_operation_axioms overview_op.guarded_operation_axioms profile_op.guarded_operation_axioms
  not_found_op.guarded_operation_axioms marketplace_op.guarded_operation_axioms
  marketplace_fragment_op.guarded_operation_axioms launch_op.guarded_operation_axioms
  tenant_op.guarded_operation_axioms tenants_op.guarded_operation_axioms app_table_op.guarded_operation_axioms
  schema_fields_op.guarded_operation_axioms app_edit_op.guarded_operation_axioms
  tenant_edit_op.guarded_operation_axioms app_detail_op.guarded_operation_axioms
  secret_reveal_op.guarded_operation_axioms create_op.guarded_operation_axioms update_op.guarded_operation_axioms
  delete_op.guarded_operation_axioms form_yaml_op.guarded_operation_axioms yaml_to_form_op.guarded_operation_axioms
  invoke_op.guarded_operation_axioms create_tenant_op.guarded_operation_axioms
  update_tenant_op.guarded_operation_axioms delete_tenant_op.guarded_operation_axioms
  api_tenant_list.guarded_operation_axioms api_tenant_get.guarded_operation_axioms
  api_tenant_create.guarded_operation_axioms api_tenant_delete.guarded_operation_axioms
  api_app_list.guarded_operation_axioms api_app_get.guarded_operation_axioms
  api_app_create.guarded_operation_axioms api_app_update.guarded_operation_axioms
  api_app_delete.guarded_operation_axioms api_schema_list.guarded_operation_axioms
  api_schema_get.guarded_operation_axioms api_palette.guarded_operation_axioms

lemma console_op_guarded:
  assumes "console_op lib sched h = Some op" "h \<noteq> SetLanguage"
  shows "\<exists>deny. guarded_operation op deny (actions_of h)"
  using assms by (cases h) (auto simp: actions_of_def intro: guarded_ops)

lemma console_op_events:
  assumes "console_op lib sched h = Some op" "user_from_context (in_ctx inb) = Some usr"
  shows "\<exists>es. audits s es (fst (op ph inb w s)) \<and> (\<forall>ev\<in>set es. own_event inb usr (actions_of h) ev)"
proof (cases "h = SetLanguage")
  case True
  with assms(1) show ?thesis by (intro exI [of _ "[]"]) (auto simp: language_op_def audits_def)
next
  case False
  from console_op_guarded [OF assms(1) False] assms(2) show ?thesis by (blast intro: own_events_into)
qed

text \<open>The handlers of the reading endpoints only read.\<close>

definition writing_endpoints :: "endpoint set" where
  "writing_endpoints =
     {CreateTenant, UpdateTenant, DeleteTenant, CreateApp, UpdateApp, DeleteApp, InvokeAction,
      TenantCreate, TenantDelete, AppCreate, AppUpdate, AppDelete}"

lemma console_op_reads:
  assumes "console_op lib sched h = Some op" "h \<notin> writing_endpoints" "\<And>usr. reader R (ph_kube ph) usr"
  shows "reads_only R ph op"
proof (cases "h = SetLanguage")
  case True
  with assms(1,3) show ?thesis by (auto simp: reads_only_def language_op_def reader_refl [OF assms(3)])
next
  case False
  with assms(1,2) show ?thesis
    by (cases h) (auto simp: writing_endpoints_def intro: reads_pages reads_fragments reads_api assms(3))
qed

text \<open>A method other than the three writing ones reaches no writing handler.\<close>

lemma writing_routes:
  "list_all (\<lambda>(m, q, h). h \<in> writing_endpoints \<longrightarrow> m = ''POST'' \<or> m = ''PUT'' \<or> m = ''DELETE'') page_routes"
  "list_all (\<lambda>(m, q, h). h \<in> writing_endpoints \<longrightarrow> m = ''POST'' \<or> m = ''PUT'' \<or> m = ''DELETE'') (api_routes cfg)"
  by (simp_all add: page_routes_def api_routes_def writing_endpoints_def)

lemma safe_method_endpoint:
  assumes "mux_match inner m p = RtFound h b" "inner = page_routes \<or> inner = api_routes cfg"
    and "m \<notin> {''POST'', ''PUT'', ''DELETE''}"
  shows "h \<notin> writing_endpoints"
proof
  assume h: "h \<in> writing_endpoints"
  from mux_match_table [OF assms(1)] obtain m' q where m: "(m', q, h) \<in> set inner" "m' = m \<or> m' = ''GET''" by blast
  from m(1) assms(2) h writing_routes(1) writing_routes(2) [of cfg] have "m' = ''POST'' \<or> m' = ''PUT'' \<or> m' = ''DELETE''"
    by (fastforce simp: list_all_iff)
  with m(2) assms(3) show False by auto
qed

text \<open>The context the chain gives a request it accepts.\<close>

definition accepted :: "('l, 'w) console \<Rightarrow> arrival \<Rightarrow> ctx \<Rightarrow> bool" where
  "accepted K a c \<longleftrightarrow>
     ao_next (authenticate (co_env K) (co_config K) (ar_now a) (ar_req a)
       (entry_writer (ar_uuid a) (ar_req a) :: 'w page_writer)) = Some c"
  for K :: "('l, 'w) console"

definition response_id :: "('l, 'w) console \<Rightarrow> arrival \<Rightarrow> string" where
  "response_id K a = fst (with_request_id (ar_uuid a) (ar_req a) (new_writer :: 'w page_writer))"
  for K :: "('l, 'w) console"

text \<open>An event that a request of a user with this handler explains.\<close>

definition explained :: "('l, 'w) console \<Rightarrow> arrival \<Rightarrow> event \<Rightarrow> bool" where
  "explained K a ev \<longleftrightarrow>
     (\<exists>inner h b c u. (inner = page_routes \<or> inner = api_routes (co_config K)) \<and>
        mux_match inner (r_method (ar_req a)) (r_path (ar_req a)) = RtFound h b \<and>
        accepted K a c \<and> user_from_context c = Some u \<and> own_event (inbound_of (co_lang K) a (response_id K a) b c) u (actions_of h) ev)"

lemma accepted_user: "accepted K a c \<Longrightarrow> \<exists>u. user_from_context c = Some u"
  by (auto simp: accepted_def authenticate_def dev_auth_def context_with_user_def user_from_context_def
      dest: require_auth_user split: if_splits)

lemma serve_events:
  "\<exists>es. audits (cs_host s) es (cs_host (fst (serve K a s))) \<and> (\<forall>ev\<in>set es. explained K a ev)"
proof (rule serve_host [of K a s])
  assume "cs_host (fst (serve K a s)) = cs_host s"
  then show ?thesis by (intro exI [of _ "[]"]) (simp add: audits_def)
next
  fix inner h b c op w
  assume h: "inner = page_routes \<or> inner = api_routes (co_config K)"
      "mux_match inner (r_method (ar_req a)) (r_path (ar_req a)) = RtFound h b"
      "ao_next (authenticate (co_env K) (co_config K) (ar_now a) (ar_req a) (entry_writer (ar_uuid a) (ar_req a) :: 'a page_writer)) = Some c"
      "console_op (co_lang K) (co_sched K) h = Some op"
    and s: "cs_host (fst (serve K a s)) =
      fst (op (co_pages K) (inbound_of (co_lang K) a (fst (with_request_id (ar_uuid a) (ar_req a) (new_writer :: 'a page_writer))) b c) w (cs_host s))"
  let ?inb = "inbound_of (co_lang K) a (response_id K a) b c"
  from h(3) have acc: "accepted K a c" by (simp add: accepted_def)
  then obtain u where u: "user_from_context c = Some u" using accepted_user by blast
  then have "user_from_context (in_ctx ?inb) = Some u" by simp
  from console_op_events [OF h(4) this, of "cs_host s" "co_pages K" w] obtain es where
    "audits (cs_host s) es (fst (op (co_pages K) ?inb w (cs_host s)))" "\<forall>ev\<in>set es. own_event ?inb u (actions_of h) ev"
    by blast
  moreover from this(2) h(1,2) acc u have "\<forall>ev\<in>set es. explained K a ev" unfolding explained_def by blast
  ultimately show ?thesis unfolding s response_id_def by blast
qed

lemma serve_reads:
  assumes "\<And>usr. reader R (ph_kube (co_pages K)) usr"
    and "r_method (ar_req a) \<notin> {''POST'', ''PUT'', ''DELETE''} \<or> (\<forall>c. \<not> accepted K a c)"
  shows "R (hs_world (cs_host s)) (hs_world (cs_host (fst (serve K a s))))"
proof (cases rule: serve_host [of K a s])
  case same
  then show ?thesis by (simp add: reader_refl [OF assms(1)])
next
  case (handled inner h b c op w)
  then have "accepted K a c" by (simp add: accepted_def)
  with assms(2) have "r_method (ar_req a) \<notin> {''POST'', ''PUT'', ''DELETE''}" by blast
  from safe_method_endpoint [OF handled(2,1) this] have "reads_only R (co_pages K) op"
    by (rule console_op_reads [OF handled(4) _ assms(1)])
  with handled(5) show ?thesis by (simp add: reads_only_def)
qed

lemma serve_refused: "\<forall>c. \<not> accepted K a c \<Longrightarrow> cs_host (fst (serve K a s)) = cs_host s"
  by (cases rule: serve_host [of K a s]) (simp_all add: accepted_def)

section \<open>Runs\<close>

lemma serve_run_events:
  "\<exists>es. audits (cs_host s) es (cs_host (serve_run K as s)) \<and> (\<forall>ev\<in>set es. \<exists>a\<in>set as. explained K a ev)"
proof (induction as arbitrary: s)
  case Nil
  show ?case by (intro exI [of _ "[]"]) (simp add: audits_def)
next
  case (Cons a as)
  from serve_events [of s K a] obtain e1 where
    e1: "audits (cs_host s) e1 (cs_host (fst (serve K a s)))" "\<forall>ev\<in>set e1. explained K a ev" by blast
  from Cons.IH [of "fst (serve K a s)"] obtain e2 where
    e2: "audits (cs_host (fst (serve K a s))) e2 (cs_host (serve_run K as (fst (serve K a s))))"
      "\<forall>ev\<in>set e2. \<exists>a\<in>set as. explained K a ev" by blast
  from audits_trans [OF e1(1) e2(1)] e1(2) e2(2) show ?case
    by (intro exI [of _ "e1 @ e2"]) auto
qed

lemma serve_run_reads:
  assumes "\<And>usr. reader R (ph_kube (co_pages K)) usr"
    and "\<And>a. a \<in> set as \<Longrightarrow> r_method (ar_req a) \<notin> {''POST'', ''PUT'', ''DELETE''} \<or> (\<forall>c. \<not> accepted K a c)"
  shows "R (hs_world (cs_host s)) (hs_world (cs_host (serve_run K as s)))"
  using assms(2)
proof (induction as arbitrary: s)
  case Nil
  then show ?case by (simp add: reader_refl [OF assms(1)])
next
  case (Cons a as)
  have "R (hs_world (cs_host s)) (hs_world (cs_host (fst (serve K a s))))"
    by (rule serve_reads [OF assms(1) Cons.prems]) simp
  moreover have "R (hs_world (cs_host (fst (serve K a s)))) (hs_world (cs_host (serve_run K as (fst (serve K a s)))))"
    by (rule Cons.IH, rule Cons.prems) simp
  ultimately show ?case by (simp add: reader_trans [OF assms(1)])
qed

lemma serve_run_refused: "\<forall>a\<in>set as. \<forall>c. \<not> accepted K a c \<Longrightarrow> cs_host (serve_run K as s) = cs_host s"
  by (induction as arbitrary: s) (simp_all add: serve_refused)

section \<open>A small console\<close>

definition sample_console :: "(int, nat) console" where
  "sample_console = \<lparr>co_env = sample_router_env, co_config = sample_router_config, co_pages = sample_handler,
     co_lang = sample_lang, co_sched = rev, co_public = (\<lambda>_ _ w. w)\<rparr>"

definition sample_arrival :: "string \<Rightarrow> string \<Rightarrow> arrival" where
  "sample_arrival m p = \<lparr>ar_req = blank_request\<lparr>r_method := m, r_path := p\<rparr>, ar_now = 0, ar_uuid = ''u-1'',
     ar_locale = None, ar_body = None\<rparr>"

definition sample_console_state :: "(int, nat) console_state" where
  "sample_console_state = \<lparr>cs_host = sample_state, cs_rates = new_rate_limit_store\<rparr>"

end
