(* ===== verification/Server_Lifecycle.thy ===== *)
theory Server_Lifecycle
  imports Process_Entry
begin

text \<open>
  The second half of \<open>run\<close> in \<open>cmd/cozytempl/main.go\<close>, from the built router to the end of the
  process: the two servers, the wait for a signal, and the shutdown of the debug server, the main
  server and the tracer, in that order. Times are nanoseconds. What happens outside is the record
  \<open>process_run\<close>; \<open>Shutdown\<close> of \<open>net/http\<close> looks at its connections at the times its polling gives,
  the function \<open>pu_poll\<close>: its first look at or after a time.
\<close>

section \<open>What happens outside\<close>

text \<open>
  The error of \<open>ListenAndServe\<close> when the address cannot be listened on, the time of the signal,
  the requests each server is sent while it listens (when they arrive and when their handlers
  return), and how long the tracer would need for the spans it holds.
\<close>

record process_run =
  pu_listen_err :: "gerr option"
  pu_signal :: int
  pu_debug :: "(int \<times> int) list"
  pu_main :: "(int \<times> int) list"
  pu_poll :: "int \<Rightarrow> int"
  pu_flush :: nat

definition DeadlineExceeded :: gerr where "DeadlineExceeded = Sentinel ''context deadline exceeded''"

text \<open>The requests a listener has accepted that is closed at \<open>closed\<close>.\<close>

definition accepted_until :: "int \<Rightarrow> (int \<times> int) list \<Rightarrow> (int \<times> int) list" where
  "accepted_until closed reqs = filter (\<lambda>(a, e). a \<le> closed) reqs"

text \<open>
  \<open>Server.Shutdown\<close>, called at \<open>now\<close> with a context that ends at \<open>deadline\<close>: it closes the listener,
  looks at once, and then polls until no accepted request is left or the context is done.
\<close>

definition server_shutdown :: "(int \<Rightarrow> int) \<Rightarrow> int \<Rightarrow> int \<Rightarrow> (int \<times> int) list \<Rightarrow> int \<times> gerr option" where
  "server_shutdown poll deadline now reqs =
     (let last = foldr max (map snd (accepted_until now reqs)) now in
      if last = now then (now, None)
      else if poll last \<le> deadline then (poll last, None)
      else (deadline, Some DeadlineExceeded))"

section \<open>tracing.go: the shutdown of the tracer\<close>

definition tracing_shutdown_timeout :: int where "tracing_shutdown_timeout = 5 * 10 ^ 9"

text \<open>The function \<open>Init\<close> returns: the time it takes and its error.\<close>

definition tracing_shutdown :: "(exporter \<times> string) option \<Rightarrow> nat \<Rightarrow> int \<times> gerr option" where
  "tracing_shutdown tracing flush =
     (case tracing of
        None \<Rightarrow> (0, None)
      | Some _ \<Rightarrow>
          if int flush \<le> tracing_shutdown_timeout then (int flush, None)
          else (tracing_shutdown_timeout, Some (Fmt ''shutting down tracer provider: '' DeadlineExceeded '''')))"

section \<open>main.go: from the signal to the end\<close>

text \<open>
  When the main server stopped listening, the error \<open>run\<close> returns, the requests still
  running when the process ends, and when that is, with its exit code. The watcher and the sweep
  of the rate limits end with the context at the signal.
\<close>

record process_end =
  pe_closed :: int
  pe_err :: "gerr option"
  pe_cut :: "(int \<times> int) list"
  pe_end :: int
  pe_code :: nat

definition serve_until_signal :: "process \<Rightarrow> process_run \<Rightarrow> int \<times> int \<times> gerr option" where
  "serve_until_signal p u =
     (let deadline = pu_signal u + shutdownTimeout;
          debugDone =
            (case pr_pprof p of
               None \<Rightarrow> pu_signal u
             | Some _ \<Rightarrow> fst (server_shutdown (pu_poll u) deadline (pu_signal u) (pu_debug u)));
          reqs = (if pu_listen_err u = None then pu_main u else []);
          (mainDone, err) = server_shutdown (pu_poll u) deadline debugDone reqs
      in (debugDone, mainDone, err))"

text \<open>\<open>run\<close> with its deferred shutdown of the tracer, and \<open>main\<close>.\<close>

definition main_end :: "process \<Rightarrow> process_run \<Rightarrow> process_end" where
  "main_end p u =
     (case serve_until_signal p u of
        (closed, returned, err) \<Rightarrow>
          let ended = returned + fst (tracing_shutdown (pr_tracing p) (pu_flush u)) in
          \<lparr>pe_closed = closed, pe_err = err,
           pe_cut = filter (\<lambda>(a, e). ended < e)
             (accepted_until closed (if pu_listen_err u = None then pu_main u else [])),
           pe_end = ended,
           pe_code = (case err of None \<Rightarrow> 0 | Some e \<Rightarrow> 1)\<rparr>)"

section \<open>Lemmas\<close>

lemma foldr_max: "foldr max (map f xs) m = (m :: int) \<longleftrightarrow> (\<forall>x\<in>set xs. f x \<le> m)"
proof (induction xs)
  case (Cons x xs)
  have "m \<le> foldr max (map f xs) m" by (induction xs) auto
  then have "foldr max (map f (x # xs)) m = m \<longleftrightarrow> f x \<le> m \<and> foldr max (map f xs) m = m" by (auto simp: max_def)
  with Cons show ?case by simp
qed simp

lemma foldr_max_le: "foldr max (map f xs) m \<le> (t :: int) \<longleftrightarrow> m \<le> t \<and> (\<forall>x\<in>set xs. f x \<le> t)"
  by (induction xs) auto

lemma shutdown_time:
  assumes "now \<le> deadline" "\<And>t. t \<le> poll t"
  shows "now \<le> fst (server_shutdown poll deadline now reqs) \<and> fst (server_shutdown poll deadline now reqs) \<le> deadline"
proof -
  have "now \<le> foldr max (map snd (accepted_until now reqs)) now" using foldr_max_le by blast
  with assms show ?thesis
    by (auto simp: server_shutdown_def Let_def intro: order_trans)
qed

text \<open>Without an error every accepted request is done; an error means the deadline came first.\<close>

lemma shutdown_drained:
  assumes "snd (server_shutdown poll deadline now reqs) = None" "\<And>t. t \<le> poll t" "r \<in> set (accepted_until now reqs)"
  shows "snd r \<le> fst (server_shutdown poll deadline now reqs)"
proof -
  have r: "snd r \<le> foldr max (map snd (accepted_until now reqs)) now"
    using foldr_max_le [of snd "accepted_until now reqs" now] assms(3) by blast
  have "snd r \<le> poll (foldr max (map snd (accepted_until now reqs)) now)"
    by (rule order_trans [OF r assms(2)])
  with r assms(1) show ?thesis
    by (auto simp: server_shutdown_def Let_def split: if_splits)
qed

lemma shutdown_error:
  assumes "snd (server_shutdown poll deadline now reqs) = Some e"
  shows "e = DeadlineExceeded \<and> fst (server_shutdown poll deadline now reqs) = deadline \<and>
    (\<exists>r\<in>set (accepted_until now reqs). now < snd r)"
  using assms foldr_max [of snd "accepted_until now reqs" now]
  by (auto simp: server_shutdown_def Let_def not_le split: if_splits)

lemma serve_until_signal_times:
  assumes "serve_until_signal p u = (closed, returned, err)" "\<And>t. t \<le> pu_poll u t"
  shows "pu_signal u \<le> closed \<and> closed \<le> returned \<and> returned \<le> pu_signal u + shutdownTimeout \<and>
    (pr_pprof p = None \<longrightarrow> closed = pu_signal u)"
proof -
  let ?dl = "pu_signal u + shutdownTimeout"
  have s: "pu_signal u \<le> ?dl" by (simp add: shutdownTimeout_def)
  note d = shutdown_time [OF s assms(2), of "pu_debug u"]
  have c: "pu_signal u \<le> closed \<and> closed \<le> ?dl \<and> (pr_pprof p = None \<longrightarrow> closed = pu_signal u)"
    using assms(1) d s by (auto simp: serve_until_signal_def Let_def split: prod.splits option.splits)
  with shutdown_time [of closed ?dl "pu_poll u", OF _ assms(2)]
  show ?thesis using assms(1)
    by (auto simp: serve_until_signal_def Let_def split: prod.splits) (metis fst_conv)+
qed

lemma serve_until_signal_main:
  assumes "serve_until_signal p u = (closed, returned, err)"
  shows "server_shutdown (pu_poll u) (pu_signal u + shutdownTimeout) closed
    (if pu_listen_err u = None then pu_main u else []) = (returned, err)"
  using assms by (auto simp: serve_until_signal_def Let_def split: prod.splits)

text \<open>A main server that cannot listen does not end the process: it waits for the signal like any other.\<close>

lemma failed_listener_waits:
  assumes "pu_listen_err u = Some e" "pr_pprof p = None"
  shows "serve_until_signal p u = (pu_signal u, pu_signal u, None)"
  using assms by (simp add: serve_until_signal_def server_shutdown_def accepted_until_def Let_def)

text \<open>
  The debug server goes first and has the same ten seconds: a profile that runs longer keeps the
  main server accepting requests until they are over, and leaves it no time to drain them.
\<close>

lemma debug_profile_delays_shutdown:
  assumes "pr_pprof p = Some d" "\<And>t. t \<le> pu_poll u t" "(a, e) \<in> set (pu_debug u)" "a \<le> pu_signal u"
    "pu_signal u + shutdownTimeout < e"
  shows "pe_closed (main_end p u) = pu_signal u + shutdownTimeout"
proof -
  let ?dl = "pu_signal u + shutdownTimeout"
  have "e \<le> fst (server_shutdown (pu_poll u) ?dl (pu_signal u) (pu_debug u))"
    if "snd (server_shutdown (pu_poll u) ?dl (pu_signal u) (pu_debug u)) = None"
    using shutdown_drained [OF that assms(2), of "(a, e)"] assms(3,4) by (auto simp: accepted_until_def)
  moreover have "fst (server_shutdown (pu_poll u) ?dl (pu_signal u) (pu_debug u)) \<le> ?dl"
    using shutdown_time [OF _ assms(2), of "pu_signal u" ?dl "pu_debug u"] by (simp add: shutdownTimeout_def)
  ultimately obtain x where "snd (server_shutdown (pu_poll u) ?dl (pu_signal u) (pu_debug u)) = Some x"
    using assms(5) by fastforce
  then have "fst (server_shutdown (pu_poll u) ?dl (pu_signal u) (pu_debug u)) = ?dl"
    using shutdown_error by blast
  with assms(1) show ?thesis
    by (simp add: main_end_def serve_until_signal_def Let_def split: prod.split)
qed

section \<open>Properties\<close>



end
