(* ===== verification/Http_Metrics.thy ===== *)
theory Http_Metrics
  imports Api_Router
begin

text \<open>
  The metrics of \<open>internal/api/metrics.go\<close> as a state: the request counter, the latency histogram
  and the gauge of requests in flight, and what \<open>withMetrics\<close> does to them around each request.
  Requests overlap: each is named by a number while it is served. Registering the collectors and
  the exposition format are the library's.
\<close>

section \<open>State\<close>

text \<open>In nanoseconds.\<close>

definition httpDurationBuckets :: "int list" where
  "httpDurationBuckets = map (\<lambda>ms. ms * 10 ^ 6) [5, 10, 25, 50, 100, 250, 500, 1000, 2500, 5000, 10000]"

text \<open>
  The observations of a series in order, and for each request in flight what its middleware call
  holds: the request and the time it started.
\<close>

record metrics =
  httpRequestsTotal :: "(string \<times> string \<times> int, nat) gomap"
  httpRequestDuration :: "(string \<times> string, int list) gomap"
  httpInflight :: int
  mx_open :: "(nat, request \<times> int) gomap"

definition new_metrics :: metrics where
  "new_metrics = \<lparr>httpRequestsTotal = [], httpRequestDuration = [], httpInflight = 0, mx_open = []\<rparr>"

text \<open>What the histogram shows of a series: for each bucket the observations up to its bound.\<close>

definition bucket_counts :: "int list \<Rightarrow> nat list" where
  "bucket_counts obs = map (\<lambda>le. length (filter (\<lambda>d. d \<le> le) obs)) httpDurationBuckets @ [length obs]"

section \<open>withMetrics\<close>

text \<open>Up to the call of the inner handler: \<open>httpInflight.Inc\<close> and the start time.\<close>

definition metrics_enter :: "nat \<Rightarrow> request \<Rightarrow> int \<Rightarrow> metrics \<Rightarrow> metrics" where
  "metrics_enter i req now m =
     (if skips_metrics (r_path req) then m
      else m\<lparr>httpInflight := httpInflight m + 1, mx_open := mput i (req, now) (mx_open m)\<rparr>)"

text \<open>The deferred \<open>httpInflight.Dec\<close>.\<close>

definition metrics_leave :: "nat \<Rightarrow> metrics \<Rightarrow> metrics" where
  "metrics_leave i m = m\<lparr>httpInflight := httpInflight m - 1, mx_open := mdel i (mx_open m)\<rparr>"

text \<open>After the inner handler returned, with what it did to the writer.\<close>

definition metrics_return :: "nat \<Rightarrow> 'p writer \<Rightarrow> int \<Rightarrow> metrics \<Rightarrow> metrics" where
  "metrics_return i w now m =
     (case map_of (mx_open m) i of
        None \<Rightarrow> m
      | Some (req, start) \<Rightarrow>
          (case with_metrics req w of
             None \<Rightarrow> metrics_leave i m
           | Some (meth, path, status) \<Rightarrow>
               metrics_leave i
                 (m\<lparr>httpRequestsTotal := mput (meth, path, status)
                      (Suc (mget_or 0 (httpRequestsTotal m) (meth, path, status))) (httpRequestsTotal m),
                    httpRequestDuration := mput (meth, path)
                      (mget_or [] (httpRequestDuration m) (meth, path) @ [now - start]) (httpRequestDuration m)\<rparr>)))"

text \<open>A handler that panics unwinds past the counters; the server recovers.\<close>

definition metrics_panic :: "nat \<Rightarrow> metrics \<Rightarrow> metrics" where
  "metrics_panic i m = (case map_of (mx_open m) i of None \<Rightarrow> m | Some _ \<Rightarrow> metrics_leave i m)"

datatype 'p metrics_event = MEnter nat request int | MReturn nat "'p writer" int | MPanic nat

fun metrics_step :: "'p metrics_event \<Rightarrow> metrics \<Rightarrow> metrics" where
  "metrics_step (MEnter i req now) m = metrics_enter i req now m"
| "metrics_step (MReturn i w now) m = metrics_return i w now m"
| "metrics_step (MPanic i) m = metrics_panic i m"

section \<open>Lemmas\<close>

definition series_sum :: "('k \<Rightarrow> bool) \<Rightarrow> ('k, nat) gomap \<Rightarrow> nat" where
  "series_sum P m = sum_list (map snd (filter (\<lambda>e. P (fst e)) m))"

lemma series_sum_inc:
  assumes "distinct (mkeys m)"
  shows "series_sum P (mput k (Suc (mget_or 0 m k)) m) = series_sum P m + of_bool (P k)"
  using assms
proof (induction m)
  case (Cons e m)
  obtain k' v where e: "e = (k', v)" by (cases e)
  show ?case
  proof (cases "k' = k")
    case True
    then show ?thesis by (simp add: e series_sum_def mget_or_def)
  next
    case False
    then have "mget_or 0 (e # m) k = mget_or 0 m k" by (simp add: e mget_or_def)
    with False Cons show ?thesis by (simp add: e series_sum_def)
  qed
qed (simp add: series_sum_def mget_or_def)

lemma length_mdel:
  assumes "distinct (mkeys m)" "map_of m k \<noteq> None"
  shows "Suc (length (mdel k m)) = length m"
  using assms
proof (induction m)
  case (Cons e m)
  obtain k' v where e: "e = (k', v)" by (cases e)
  show ?case
  proof (cases "k' = k")
    case True
    then have "map_of m k = None" using Cons.prems(1) by (simp add: e map_of_eq_None_iff)
    then have "mdel k m = m" by (simp add: map_of_eq_None_iff delete_idem)
    with True show ?thesis by (simp add: e)
  next
    case False
    with Cons show ?thesis by (simp add: e)
  qed
qed simp

lemma length_mput: "map_of m k = None \<Longrightarrow> length (mput k v m) = Suc (length m)"
  by (induction m) (auto split: if_splits)

text \<open>The invariant of the registry.\<close>

definition metrics_ok :: "metrics \<Rightarrow> bool" where
  "metrics_ok m \<longleftrightarrow>
     distinct (mkeys (httpRequestsTotal m)) \<and> distinct (mkeys (httpRequestDuration m)) \<and> distinct (mkeys (mx_open m)) \<and>
     httpInflight m = int (length (mx_open m)) \<and>
     (\<forall>i. pred_option (\<lambda>e. \<not> skips_metrics (r_path (fst e))) (map_of (mx_open m) i)) \<and>
     (\<forall>meth path. length (mget_or [] (httpRequestDuration m) (meth, path)) =
        series_sum (\<lambda>k. fst k = meth \<and> fst (snd k) = path) (httpRequestsTotal m)) \<and>
     (\<forall>k. map_of (httpRequestsTotal m) k \<noteq> None \<longrightarrow> (\<exists>p. \<not> skips_metrics p \<and> fst (snd k) = normalise_path p))"

lemma metrics_ok_new: "metrics_ok new_metrics"
  by (simp add: metrics_ok_def new_metrics_def mget_or_def series_sum_def)

text \<open>A number names one request at a time.\<close>

fun enters_fresh :: "'p metrics_event \<Rightarrow> metrics \<Rightarrow> bool" where
  "enters_fresh (MEnter i req now) m \<longleftrightarrow> map_of (mx_open m) i = None"
| "enters_fresh _ m \<longleftrightarrow> True"

lemma metrics_ok_leave:
  assumes "metrics_ok m" "map_of (mx_open m) i \<noteq> None"
  shows "metrics_ok (metrics_leave i m)"
  using assms length_mdel [of "mx_open m" i] by (auto simp: metrics_ok_def metrics_leave_def)

lemma metrics_ok_observe:
  assumes "metrics_ok m" "\<not> skips_metrics p"
  shows "metrics_ok (m\<lparr>httpRequestsTotal := mput (meth, normalise_path p, status)
       (Suc (mget_or 0 (httpRequestsTotal m) (meth, normalise_path p, status))) (httpRequestsTotal m),
     httpRequestDuration := mput (meth, normalise_path p)
       (mget_or [] (httpRequestDuration m) (meth, normalise_path p) @ [d]) (httpRequestDuration m)\<rparr>)"
proof -
  have "length (mget_or [] (mput (meth, normalise_path p) (mget_or [] D (meth, normalise_path p) @ [d]) D) k) =
      length (mget_or [] D k) + of_bool (k = (meth, normalise_path p))" for D :: "(string \<times> string, int list) gomap" and k
    by (simp add: mget_or_def)
  then show ?thesis
    using assms unfolding metrics_ok_def by (auto simp: series_sum_inc simp del: map_of_eq_Some_iff, blast)
qed

lemma metrics_ok_step:
  assumes "metrics_ok m" "enters_fresh ev m"
  shows "metrics_ok (metrics_step ev m)"
proof (cases ev)
  case (MEnter i req now)
  with assms show ?thesis by (auto simp: metrics_ok_def metrics_enter_def length_mput)
next
  case (MReturn i w now)
  show ?thesis
  proof (cases "map_of (mx_open m) i")
    case (Some e)
    obtain req start where e: "e = (req, start)" by (cases e)
    have "pred_option (\<lambda>e. \<not> skips_metrics (r_path (fst e))) (map_of (mx_open m) i)"
      using assms(1) by (simp add: metrics_ok_def)
    with Some e have s: "\<not> skips_metrics (r_path req)" by simp
    show ?thesis
      using metrics_ok_leave [OF metrics_ok_observe [OF assms(1) s], where i = i] Some
      by (simp add: MReturn e metrics_return_def with_metrics_def s)
  qed (use assms(1) in \<open>simp add: MReturn metrics_return_def\<close>)
next
  case (MPanic i)
  then show ?thesis
    using assms(1) metrics_ok_leave [OF assms(1), where i = i] by (simp add: metrics_panic_def split: option.split)
qed

text \<open>Runs with the events that led there.\<close>

inductive metrics_run :: "string metrics_event list \<Rightarrow> metrics \<Rightarrow> bool" where
  start: "metrics_run [] new_metrics"
| step: "metrics_run evs m \<Longrightarrow> enters_fresh ev m \<Longrightarrow> metrics_run (evs @ [ev]) (metrics_step ev m)"

lemma metrics_run_ok: "metrics_run evs m \<Longrightarrow> metrics_ok m"
  by (induction rule: metrics_run.induct) (simp_all add: metrics_ok_new metrics_ok_step)

definition counted_enter :: "'p metrics_event \<Rightarrow> bool" where
  "counted_enter ev = (case ev of MEnter i req now \<Rightarrow> \<not> skips_metrics (r_path req) | _ \<Rightarrow> False)"

definition is_panic :: "'p metrics_event \<Rightarrow> bool" where
  "is_panic ev = (case ev of MPanic i \<Rightarrow> True | _ \<Rightarrow> False)"

definition all_counted :: "metrics \<Rightarrow> nat" where
  "all_counted m = series_sum (\<lambda>_. True) (httpRequestsTotal m)"

text \<open>A step counts or opens a request exactly when it enters one, unless a handler panics.\<close>

lemma metrics_step_count:
  assumes "metrics_ok m" "enters_fresh ev m"
  shows "all_counted (metrics_step ev m) + length (mx_open (metrics_step ev m)) \<le>
      all_counted m + length (mx_open m) + of_bool (counted_enter ev)"
    "\<not> is_panic ev \<Longrightarrow> all_counted (metrics_step ev m) + length (mx_open (metrics_step ev m)) =
      all_counted m + length (mx_open m) + of_bool (counted_enter ev)"
proof -
  have left: "Suc (length (mdel i (mx_open m))) = length (mx_open m)" if "map_of (mx_open m) i \<noteq> None" for i
    by (rule length_mdel [OF _ that]) (use assms(1) in \<open>simp add: metrics_ok_def\<close>)
  have "all_counted (metrics_step ev m) + length (mx_open (metrics_step ev m)) =
      all_counted m + length (mx_open m) + of_bool (counted_enter ev)" if "\<not> is_panic ev"
  proof (cases ev)
    case (MEnter i req now)
    with assms(2) show ?thesis by (simp add: all_counted_def metrics_enter_def counted_enter_def length_mput)
  next
    case (MReturn i w now)
    show ?thesis
    proof (cases "map_of (mx_open m) i")
      case (Some e)
      then have "pred_option (\<lambda>e. \<not> skips_metrics (r_path (fst e))) (Some e)"
        using assms(1) unfolding metrics_ok_def by metis
      with Some left [of i] assms(1) MReturn show ?thesis
        by (simp add: all_counted_def counted_enter_def metrics_return_def with_metrics_def metrics_leave_def
            series_sum_inc metrics_ok_def split_beta)
    qed (simp add: MReturn metrics_return_def counted_enter_def)
  qed (use that in \<open>simp add: is_panic_def\<close>)
  moreover have "all_counted (metrics_step ev m) + length (mx_open (metrics_step ev m)) \<le> all_counted m + length (mx_open m)"
    if p: "is_panic ev"
  proof -
    from p obtain i where i: "ev = MPanic i" by (cases ev) (auto simp: is_panic_def)
    with left [of i] show ?thesis
      by (auto simp: all_counted_def metrics_panic_def metrics_leave_def split: option.split)
  qed
  ultimately show "all_counted (metrics_step ev m) + length (mx_open (metrics_step ev m)) \<le>
      all_counted m + length (mx_open m) + of_bool (counted_enter ev)"
    "\<not> is_panic ev \<Longrightarrow> all_counted (metrics_step ev m) + length (mx_open (metrics_step ev m)) =
      all_counted m + length (mx_open m) + of_bool (counted_enter ev)"
    by fastforce+
qed

lemma metrics_run_count:
  assumes "metrics_run evs m"
  shows "all_counted m + length (mx_open m) \<le> length (filter counted_enter evs) \<and>
    ((\<exists>ev\<in>set evs. is_panic ev) \<or> all_counted m + length (mx_open m) = length (filter counted_enter evs))"
  using assms
proof (induction rule: metrics_run.induct)
  case start
  show ?case by (simp add: all_counted_def new_metrics_def series_sum_def)
next
  case (step evs m ev)
  note s = metrics_step_count [OF metrics_run_ok [OF step.hyps(1)] step.hyps(2)]
  from s(1) step.IH have "all_counted (metrics_step ev m) + length (mx_open (metrics_step ev m)) \<le>
      length (filter counted_enter (evs @ [ev]))" by auto
  with s(2) step.IH show ?case by auto
qed

lemma bucket_counts_sorted: "sorted (bucket_counts obs)"
proof -
  have "length (filter (\<lambda>d. d \<le> (a :: int)) obs) \<le> length (filter (\<lambda>d. d \<le> b) obs)" if "a \<le> b" for a b
    using that by (induction obs) auto
  then show ?thesis
    by (simp add: bucket_counts_def httpDurationBuckets_def length_filter_le)
qed

section \<open>Properties\<close>



end
