(* ===== verification/Usage_Display.thy ===== *)
theory Usage_Display
  imports Kube_Reads
begin

text \<open>
  How the usage figures of a tenant are shown: \<open>FormatCPU\<close>, \<open>FormatMem\<close> and \<open>FormatStorage\<close> of
  \<open>internal/k8s/usage.go\<close>. They divide as \<open>float64\<close> and print with \<open>%.1f\<close>, so the model rounds
  twice as the machine does: the quotient to 53 bits, then its exact value to one decimal, ties to
  even each time.
\<close>

section \<open>Floating point\<close>

definition round_half_even :: "nat \<Rightarrow> nat \<Rightarrow> nat" where
  "round_half_even n d =
     (let q = n div d; r = n mod d in if 2 * r < d \<or> 2 * r = d \<and> even q then q else q + 1)"

text \<open>The exponent of a positive integer: \<open>2 ^ e \<le> n < 2 ^ (e + 1)\<close>.\<close>

fun f64_exp :: "nat \<Rightarrow> nat" where
  "f64_exp n = (if n < 2 then 0 else Suc (f64_exp (n div 2)))"

declare f64_exp.simps [simp del]

text \<open>The conversion \<open>float64(n)\<close> of a non-negative integer.\<close>

definition f64_of_nat :: "nat \<Rightarrow> nat" where
  "f64_of_nat n =
     (let e = f64_exp n in if e \<le> 52 then n else round_half_even n (2 ^ (e - 52)) * 2 ^ (e - 52))"

text \<open>The \<open>float64\<close> nearest to \<open>n / d \<ge> 1\<close>, as numerator and denominator.\<close>

definition f64_quotient :: "nat \<Rightarrow> nat \<Rightarrow> nat \<times> nat" where
  "f64_quotient n d =
     (let e = f64_exp (n div d)
      in if e \<le> 52 then (round_half_even (n * 2 ^ (52 - e)) d, 2 ^ (52 - e))
         else (round_half_even n (d * 2 ^ (e - 52)) * 2 ^ (e - 52), 1))"

text \<open>The tenths that \<open>%.1f\<close> shows of it.\<close>

definition tenths :: "nat \<times> nat \<Rightarrow> nat" where
  "tenths x = round_half_even (10 * fst x) (snd x)"

definition show_tenths :: "nat \<Rightarrow> string" where
  "show_tenths t = show_nat (t div 10) @ ''.'' @ show_nat (t mod 10)"

definition fixed1_quotient :: "int \<Rightarrow> nat \<Rightarrow> string" where
  "fixed1_quotient v d = show_tenths (tenths (f64_quotient (f64_of_nat (nat v)) d))"

section \<open>usage.go\<close>

definition naPlaceholder :: string where "naPlaceholder = ''n/a''"

definition format_cpu :: "int \<Rightarrow> string" where
  "format_cpu milli =
     (if milli = 0 then naPlaceholder
      else if milli < 1000 then show_int milli @ ''m''
      else fixed1_quotient milli 1000 @ '' cores'')"

definition format_mem :: "int \<Rightarrow> string" where
  "format_mem mebi =
     (if mebi = 0 then naPlaceholder
      else if mebi < 1024 then show_int mebi @ '' Mi''
      else fixed1_quotient mebi 1024 @ '' Gi'')"

definition format_storage :: "int \<Rightarrow> string" where
  "format_storage gibi =
     (if gibi = 0 then naPlaceholder
      else if gibi < 1024 then show_int gibi @ '' Gi''
      else fixed1_quotient gibi 1024 @ '' Ti'')"

section \<open>Lemmas\<close>

lemma round_half_even_near:
  assumes "0 < d"
  shows "2 * (round_half_even n d * d) \<le> 2 * n + d \<and> 2 * n \<le> 2 * (round_half_even n d * d) + d"
proof -
  define q r where "q = n div d" and "r = n mod d"
  have n: "n = q * d + r" and r: "r < d" using assms by (simp_all add: q_def r_def)
  show ?thesis
  proof (cases "2 * r < d \<or> 2 * r = d \<and> even q")
    case True
    then have "round_half_even n d = q" by (simp add: round_half_even_def q_def r_def Let_def)
    with True n show ?thesis by auto
  next
    case False
    then have "round_half_even n d = q + 1" by (auto simp: round_half_even_def q_def r_def Let_def)
    with False n r show ?thesis by (auto simp: algebra_simps)
  qed
qed

lemma f64_exp_bounds: "0 < n \<Longrightarrow> 2 ^ f64_exp n \<le> n \<and> n < 2 ^ Suc (f64_exp n)"
proof (induction n rule: f64_exp.induct)
  case (1 n)
  show ?case
  proof (cases "n < 2")
    case True
    with 1 show ?thesis by (simp add: f64_exp.simps)
  next
    case False
    with 1 have "2 ^ f64_exp (n div 2) \<le> n div 2 \<and> n div 2 < 2 ^ Suc (f64_exp (n div 2))" by simp
    with False show ?thesis by (subst (1 2) f64_exp.simps) auto
  qed
qed

lemma f64_exp_less: "0 < n \<Longrightarrow> n < 2 ^ k \<Longrightarrow> f64_exp n < k"
  using f64_exp_bounds [of n] by (auto intro: power_less_imp_less_exp [of 2] le_less_trans)

text \<open>
  Below \<open>2 ^ 48\<close> the two roundings are as good as one: the tenths shown are nearest to the
  quotient.
\<close>

lemma tenths_nearest:
  assumes "0 < d" "d \<le> n" "n < 2 ^ 48" "d \<le> 1024" "1000 \<le> d"
  shows "2 * \<bar>int d * int (tenths (f64_quotient (f64_of_nat n) d)) - 10 * int n\<bar> \<le> int d"
proof -
  have e48: "f64_exp n < 48" by (rule f64_exp_less) (use assms in auto)
  then have n: "f64_of_nat n = n" by (simp add: f64_of_nat_def)
  define e where "e = f64_exp (n div d)"
  have "n div d < 2 ^ 39"
    using assms by (simp add: less_mult_imp_div_less)
  moreover have "0 < n div d" using assms by (simp add: div_greater_zero_iff)
  ultimately have e: "e < 39" unfolding e_def using f64_exp_less by blast
  define K where "K = 52 - e"
  define D where "D = (2 :: nat) ^ K"
  define m where "m = round_half_even (n * D) d"
  have q: "f64_quotient n d = (m, D)" using e by (simp add: f64_quotient_def m_def D_def K_def e_def Let_def)
  define t where "t = tenths (m, D)"
  have D: "2 ^ 14 \<le> D" using e power_increasing [of 14 K "2 :: nat"] by (simp add: D_def K_def)
  have m: "2 * (m * d) \<le> 2 * (n * D) + d" "2 * (n * D) \<le> 2 * (m * d) + d"
    using round_half_even_near [OF assms(1), of "n * D"] by (simp_all add: m_def)
  have "0 < D" using D by simp
  then have t: "2 * (t * D) \<le> 2 * (10 * m) + D" "2 * (10 * m) \<le> 2 * (t * D) + D"
    using round_half_even_near [of D "10 * m"] by (simp_all add: t_def tenths_def)
  have "2 * (t * D) * d \<le> (2 * (10 * m) + D) * d" "(2 * (10 * m)) * d \<le> (2 * (t * D) + D) * d"
    using t by (simp_all only: mult_le_mono1)
  then have "2 * (d * t) * D \<le> 10 * (2 * (m * d)) + d * D" "10 * (2 * (m * d)) \<le> 2 * (d * t) * D + d * D"
    by (simp_all add: algebra_simps)
  with m have "2 * (d * t) * D \<le> 20 * n * D + d * D + 10 * d" "20 * n * D \<le> 2 * (d * t) * D + d * D + 10 * d"
    by (simp_all add: algebra_simps)
  moreover have "10 * d < D" using D assms(4) by simp
  ultimately have "2 * (d * t) * D < (20 * n + d + 1) * D" "20 * n * D < (2 * (d * t) + d + 1) * D"
    by (simp_all add: algebra_simps)
  then have "2 * (d * t) < 20 * n + d + 1" "20 * n < 2 * (d * t) + d + 1"
    by (simp_all only: mult_less_cancel2)
  then have "2 * (int d * int t) \<le> 20 * int n + int d" "20 * int n \<le> 2 * (int d * int t) + int d"
    by (simp_all flip: of_nat_mult of_nat_add of_nat_le_iff [where 'a = int])
  then show ?thesis by (simp add: n q t_def [symmetric] abs_if)
qed

lemma fixed1_quotient_nearest:
  assumes "int d \<le> v" "v < 2 ^ 48" "d \<le> 1024" "1000 \<le> d"
  obtains t where "fixed1_quotient v d = show_tenths t" "2 * \<bar>int d * int t - 10 * v\<bar> \<le> int d"
proof -
  have "0 < d" "d \<le> nat v" "nat v < 2 ^ 48" using assms by (simp_all add: nat_less_iff)
  from tenths_nearest [OF this assms(3,4)] assms(1) show ?thesis
    by (intro that [of "tenths (f64_quotient (f64_of_nat (nat v)) d)"]) (simp_all add: fixed1_quotient_def)
qed

lemmas usage_eval = format_cpu_def format_mem_def format_storage_def fixed1_quotient_def f64_of_nat_def f64_quotient_def
  tenths_def round_half_even_def f64_exp.simps show_tenths_def show_nat.simps show_int_def Let_def char_of_def

section \<open>Properties\<close>

text \<open>
  C40: the usage figures are right to the last digit shown. A positive amount below the unit is shown as it is;
  any amount from there up to \<open>2 ^ 48\<close> is shown in units and tenths, and no other number of tenths
  is nearer to it than the one shown: it is off by at most half a tenth.
\<close>

theorem usage_figures_are_nearest:
  assumes "0 < x" "x < 2 ^ 48"
  shows "(x < 1000 \<and> format_cpu x = show_int x @ ''m'' \<or>
      (\<exists>t. format_cpu x = show_nat (t div 10) @ ''.'' @ show_nat (t mod 10) @ '' cores'' \<and> 2 * \<bar>1000 * int t - 10 * x\<bar> \<le> 1000)) \<and>
    (x < 1024 \<and> format_mem x = show_int x @ '' Mi'' \<or>
      (\<exists>t. format_mem x = show_nat (t div 10) @ ''.'' @ show_nat (t mod 10) @ '' Gi'' \<and> 2 * \<bar>1024 * int t - 10 * x\<bar> \<le> 1024)) \<and>
    (x < 1024 \<and> format_storage x = show_int x @ '' Gi'' \<or>
      (\<exists>t. format_storage x = show_nat (t div 10) @ ''.'' @ show_nat (t mod 10) @ '' Ti'' \<and> 2 * \<bar>1024 * int t - 10 * x\<bar> \<le> 1024))"
proof -
  have cpu: "\<exists>t. fixed1_quotient x 1000 = show_tenths t \<and> 2 * \<bar>1000 * int t - 10 * x\<bar> \<le> 1000" if "\<not> x < 1000"
    using fixed1_quotient_nearest [of 1000 x] that assms by fastforce
  have mem: "\<exists>t. fixed1_quotient x 1024 = show_tenths t \<and> 2 * \<bar>1024 * int t - 10 * x\<bar> \<le> 1024" if "\<not> x < 1024"
    using fixed1_quotient_nearest [of 1024 x] that assms by fastforce
  show ?thesis
    using cpu mem assms by (cases "x < 1000"; cases "x < 1024")
      (auto simp: format_cpu_def format_mem_def format_storage_def show_tenths_def)
qed

text \<open>1250 millicores are exactly between two figures: the even one is shown; 1050 are not, in \<open>float64\<close>.\<close>

theorem usage_figures_are_nearest_witness:
  "format_cpu 1250 = ''1.2 cores'' \<and> format_cpu 1050 = ''1.1 cores'' \<and> format_mem 1536 = ''1.5 Gi'' \<and>
   format_storage 10 = ''10 Gi'' \<and>
   (\<exists>t. format_cpu 1250 = show_nat (t div 10) @ ''.'' @ show_nat (t mod 10) @ '' cores'' \<and> 2 * \<bar>1000 * int t - 12500\<bar> \<le> 1000)"
proof -
  have "\<exists>t. format_cpu 1250 = show_nat (t div 10) @ ''.'' @ show_nat (t mod 10) @ '' cores'' \<and> 2 * \<bar>1000 * int t - 12500\<bar> \<le> 1000"
    using usage_figures_are_nearest [of 1250] by simp
  moreover have "format_cpu 1250 = ''1.2 cores''" "format_cpu 1050 = ''1.1 cores''" "format_mem 1536 = ''1.5 Gi''"
    "format_storage 10 = ''10 Gi''"
    by (simp_all add: usage_eval bit_iff_odd)
  ultimately show ?thesis by blast
qed

end
