(* ===== verification/User_Scope.thy ===== *)
theory User_Scope
  imports Console
begin

text \<open>
  Whose credential a request acts with. The libraries behind the page handlers (the Kubernetes
  client, the virtual machine API, the log API) are exchanged for others that agree with them on
  the configurations built from one user's credential and may do anything on all others, the
  server's own included. No handler that runs for this user tells the difference, in what it answers or in
  what it leaves behind: everything it reads and writes goes through that user's credential.
\<close>

section \<open>Libraries that agree on a user's credential\<close>

definition scoped :: "'w kenv \<Rightarrow> 'w sdk \<Rightarrow> user_context \<Rightarrow> bool" where
  "scoped E S u \<longleftrightarrow>
     build_user_rest_config' S (ke_base E) u (ke_mode E) = build_user_rest_config' (ke_sdk E) (ke_base E) u (ke_mode E) \<and>
     (\<forall>cfg t. build_user_rest_config' (ke_sdk E) (ke_base E) u (ke_mode E) = Inr cfg \<longrightarrow>
        sdk_dynamic S (cfg\<lparr>rc_timeout := t\<rparr>) = sdk_dynamic (ke_sdk E) (cfg\<lparr>rc_timeout := t\<rparr>))"

named_theorems scope "operations that do not tell such libraries apart"

text \<open>The equations of this theory are used inside the branches of case distinctions.\<close>

declare option.case_cong_weak [cong del] sum.case_cong_weak [cong del] prod.case_cong_weak [cong del]
  list.case_cong_weak [cong del] if_weak_cong [cong del]

section \<open>Services\<close>

text \<open>Helpers that look at the environment but not at its client library.\<close>

lemma scope_pure [scope]:
  "is_conflict_error (E\<lparr>ke_sdk := S\<rparr>) = is_conflict_error E"
  "extract_conditions (E\<lparr>ke_sdk := S\<rparr>) = extract_conditions E"
  "app_def_to_schema (E\<lparr>ke_sdk := S\<rparr>) = app_def_to_schema E"
  "parse_event_time (E\<lparr>ke_sdk := S\<rparr>) = parse_event_time E"
  by (simp_all add: fun_eq_iff is_conflict_error_def extract_conditions_def app_def_to_schema_def parse_event_time_def Let_def)

lemma scope_objects [scope]:
  "helm_release_to_application (E\<lparr>ke_sdk := S\<rparr>) = helm_release_to_application E"
  "crd_to_application (E\<lparr>ke_sdk := S\<rparr>) = crd_to_application E"
  "read_secret_into (E\<lparr>ke_sdk := S\<rparr>) = read_secret_into E"
  "pick_event_last_seen (E\<lparr>ke_sdk := S\<rparr>) = pick_event_last_seen E"
  by (simp_all add: fun_eq_iff helm_release_to_application_def crd_to_application_def read_secret_into_def
      pick_event_last_seen_def scope Let_def)

lemma scope_calls [scope]:
  "find_by_kind (E\<lparr>ke_sdk := S\<rparr>) = find_by_kind E"
  "read_secrets (E\<lparr>ke_sdk := S\<rparr>) = read_secrets E"
  "find_app_kind (E\<lparr>ke_sdk := S\<rparr>) = find_app_kind E"
  "app_update_prepare (E\<lparr>ke_sdk := S\<rparr>) = app_update_prepare E"
  "tenant_update_prepare (E\<lparr>ke_sdk := S\<rparr>) = tenant_update_prepare E"
  "to_event (E\<lparr>ke_sdk := S\<rparr>) = to_event E"
  by (simp_all add: fun_eq_iff find_by_kind_def read_secrets_def find_app_kind_def app_update_prepare_def
      tenant_update_prepare_def to_event_def scope Let_def)

lemma scope_calls2 [scope]:
  "find_secrets_by_prefix (E\<lparr>ke_sdk := S\<rparr>) = find_secrets_by_prefix E"
  "to_sorted_events (E\<lparr>ke_sdk := S\<rparr>) = to_sorted_events E"
  by (simp_all add: fun_eq_iff find_secrets_by_prefix_def to_sorted_events_def scope Let_def)

lemma scope_build [scope]:
  "scoped E S u \<Longrightarrow> build_user_rest_config' S (ke_base E) u (ke_mode E) = build_user_rest_config' (ke_sdk E) (ke_base E) u (ke_mode E)"
  "scoped E S u \<Longrightarrow> build_user_rest_config S (ke_base E) u (ke_mode E) = build_user_rest_config (ke_sdk E) (ke_base E) u (ke_mode E)"
  by (simp_all add: scoped_def build_user_rest_config_def)

lemma scope_client [scope]:
  "scoped E S u \<Longrightarrow> new_user_client S (ke_base E) u (ke_mode E) = new_user_client (ke_sdk E) (ke_base E) u (ke_mode E)"
  by (auto simp: scoped_def new_user_client_def build_user_rest_config_def split: sum.split)

lemma scope_user_client [scope]:
  "scoped E S u \<Longrightarrow> user_client (E\<lparr>ke_sdk := S\<rparr>) u = user_client E u"
  by (simp add: user_client_def scope)

lemma scope_with_client [scope]:
  "scoped E S u \<Longrightarrow> with_client (E\<lparr>ke_sdk := S\<rparr>) u f = with_client E u f"
  by (simp add: fun_eq_iff with_client_def scope)

lemma scope_reads [scope]:
  assumes "scoped E S u"
  shows "schema_list (E\<lparr>ke_sdk := S\<rparr>) u = schema_list E u"
    "schema_get (E\<lparr>ke_sdk := S\<rparr>) now u = schema_get E now u"
    "app_list (E\<lparr>ke_sdk := S\<rparr>) now u = app_list E now u"
    "app_get_spec_snapshot (E\<lparr>ke_sdk := S\<rparr>) u = app_get_spec_snapshot E u"
    "tenant_list (E\<lparr>ke_sdk := S\<rparr>) u = tenant_list E u"
    "tenant_list_minimal (E\<lparr>ke_sdk := S\<rparr>) u = tenant_list_minimal E u"
    "tenant_get (E\<lparr>ke_sdk := S\<rparr>) u = tenant_get E u"
    "tenant_get_spec_snapshot (E\<lparr>ke_sdk := S\<rparr>) u = tenant_get_spec_snapshot E u"
  using assms
  by (simp_all add: fun_eq_iff schema_list_def schema_get_def app_list_def app_get_spec_snapshot_def tenant_list_def
      tenant_list_minimal_def tenant_get_def tenant_get_spec_snapshot_def scope Let_def)

lemma scope_connection [scope]:
  assumes "scoped E S u"
  shows "get_connection_info (E\<lparr>ke_sdk := S\<rparr>) now c u = get_connection_info E now c u"
  using assms by (simp add: fun_eq_iff get_connection_info_def scope Let_def)

lemma scope_app_get [scope]:
  assumes "scoped E S u"
  shows "app_get (E\<lparr>ke_sdk := S\<rparr>) now u = app_get E now u"
  using assms by (simp add: fun_eq_iff app_get_def scope Let_def)

lemma scope_other_reads [scope]:
  assumes "scoped E S u"
  shows "list_events (E\<lparr>ke_sdk := S\<rparr>) u = list_events E u"
    "usage_collect (E\<lparr>ke_sdk := S\<rparr>) Q u = usage_collect E Q u"
    "list_quotas (E\<lparr>ke_sdk := S\<rparr>) u = list_quotas E u"
    "list_machine_deployments (E\<lparr>ke_sdk := S\<rparr>) u = list_machine_deployments E u"
    "list_pods_for_app (E\<lparr>ke_sdk := S\<rparr>) u = list_pods_for_app E u"
  using assms
  by (simp_all add: fun_eq_iff list_events_def usage_collect_def list_quotas_def list_machine_deployments_def
      list_pods_for_app_def scope Let_def)

lemma scope_more_reads [scope]:
  assumes "scoped E S u"
  shows "list_in_namespace (E\<lparr>ke_sdk := S\<rparr>) u = list_in_namespace E u"
    "list_for_object (E\<lparr>ke_sdk := S\<rparr>) u = list_for_object E u"
    "usage_collect_all (E\<lparr>ke_sdk := S\<rparr>) Q u = usage_collect_all E Q u"
  using assms by (simp_all add: fun_eq_iff list_in_namespace_def list_for_object_def usage_collect_all_def scope Let_def)

lemma scope_writes [scope]:
  assumes "scoped E S u"
  shows "app_create (E\<lparr>ke_sdk := S\<rparr>) now u = app_create E now u"
    "app_update (E\<lparr>ke_sdk := S\<rparr>) now u = app_update E now u"
    "app_delete (E\<lparr>ke_sdk := S\<rparr>) u = app_delete E u"
    "tenant_create (E\<lparr>ke_sdk := S\<rparr>) u = tenant_create E u"
    "tenant_update (E\<lparr>ke_sdk := S\<rparr>) u = tenant_update E u"
    "tenant_delete (E\<lparr>ke_sdk := S\<rparr>) u = tenant_delete E u"
  using assms
  by (simp_all add: fun_eq_iff app_create_def app_update_def app_delete_def tenant_create_def tenant_update_def
      tenant_delete_def scope Let_def)

section \<open>Handlers\<close>

text \<open>The three libraries a page handler holds.\<close>

record 'w libs =
  lb_sdk :: "'w sdk"
  lb_vm :: "'w vm_api"
  lb_logs :: "string log_api"

definition with_libs :: "'w libs \<Rightarrow> 'w page_handler \<Rightarrow> 'w page_handler" where
  "with_libs B ph = ph\<lparr>ph_kube := (ph_kube ph)\<lparr>ke_sdk := lb_sdk B\<rparr>, ph_vm := lb_vm B, ph_logs := lb_logs B\<rparr>"

text \<open>The configurations built from a user's credential; calls differ in the timeout they set.\<close>

definition own_config :: "'w page_handler \<Rightarrow> user_context \<Rightarrow> rest_config \<Rightarrow> bool" where
  "own_config ph u c \<longleftrightarrow>
     (\<exists>cfg t. build_user_rest_config' (ke_sdk (ph_kube ph)) (ke_base (ph_kube ph)) u (ke_mode (ph_kube ph)) = Inr cfg \<and>
        c = cfg\<lparr>rc_timeout := t\<rparr>)"

definition agrees :: "'w page_handler \<Rightarrow> 'w libs \<Rightarrow> user_context \<Rightarrow> bool" where
  "agrees ph B u \<longleftrightarrow>
     build_user_rest_config' (lb_sdk B) (ke_base (ph_kube ph)) u (ke_mode (ph_kube ph)) =
       build_user_rest_config' (ke_sdk (ph_kube ph)) (ke_base (ph_kube ph)) u (ke_mode (ph_kube ph)) \<and>
     (\<forall>c. own_config ph u c \<longrightarrow>
        sdk_dynamic (lb_sdk B) c = sdk_dynamic (ke_sdk (ph_kube ph)) c \<and>
        va_clientset (lb_vm B) c = va_clientset (ph_vm ph) c \<and> va_review (lb_vm B) c = va_review (ph_vm ph) c \<and>
        va_put (lb_vm B) c = va_put (ph_vm ph) c \<and>
        la_client (lb_logs B) c = la_client (ph_logs ph) c \<and> la_read (lb_logs B) c = la_read (ph_logs ph) c)"

lemma with_libs_sel [simp]:
  "ph_kube (with_libs B ph) = (ph_kube ph)\<lparr>ke_sdk := lb_sdk B\<rparr>" "ph_vm (with_libs B ph) = lb_vm B"
  "ph_logs (with_libs B ph) = lb_logs B" "ph_quant (with_libs B ph) = ph_quant ph"
  "ph_registry (with_libs B ph) = ph_registry ph" "ph_has_form_defs (with_libs B ph) = ph_has_form_defs ph"
  "ph_has_capi (with_libs B ph) = ph_has_capi ph" "ph_yaml (with_libs B ph) = ph_yaml ph"
  "ph_yaml_text (with_libs B ph) = ph_yaml_text ph" "ph_parse_float (with_libs B ph) = ph_parse_float ph"
  by (simp_all add: with_libs_def)

lemma agrees_scoped [scope]: "agrees ph B u \<Longrightarrow> scoped (ph_kube ph) (lb_sdk B) u"
  by (auto simp: agrees_def scoped_def own_config_def)

lemma own_config_built:
  "build_user_rest_config (ke_sdk (ph_kube ph)) (ke_base (ph_kube ph)) u (ke_mode (ph_kube ph)) = Inr cfg \<Longrightarrow> own_config ph u cfg"
  by (auto simp: own_config_def build_user_rest_config_def split: sum.splits)

lemma own_config_built':
  assumes "build_user_rest_config' (ke_sdk (ph_kube ph)) (ke_base (ph_kube ph)) u (ke_mode (ph_kube ph)) = Inr cfg"
  shows "own_config ph u cfg"
proof -
  have "cfg = cfg\<lparr>rc_timeout := rc_timeout cfg\<rparr>" by simp
  with assms show ?thesis unfolding own_config_def by blast
qed

lemma agrees_vm:
  assumes "agrees ph B u" "own_config ph u cfg"
  shows "va_clientset (lb_vm B) cfg = va_clientset (ph_vm ph) cfg" "va_review (lb_vm B) cfg = va_review (ph_vm ph) cfg"
    "va_put (lb_vm B) cfg = va_put (ph_vm ph) cfg"
    "la_client (lb_logs B) cfg = la_client (ph_logs ph) cfg" "la_read (lb_logs B) cfg = la_read (ph_logs ph) cfg"
  using assms by (simp_all add: agrees_def)

lemma scope_overrides [scope]:
  "scoped E S u \<Longrightarrow> get_overrides_for_kind U S (ke_base E) (ke_mode E) u kind =
     get_overrides_for_kind U (ke_sdk E) (ke_base E) (ke_mode E) u kind"
  by (simp add: fun_eq_iff get_overrides_for_kind_def scope)

lemma scope_tail_logs [scope]:
  assumes "agrees ph B u"
  shows "tail_logs ((ph_kube ph)\<lparr>ke_sdk := lb_sdk B\<rparr>) (lb_logs B) u = tail_logs (ph_kube ph) (ph_logs ph) u"
proof -
  have "la_client (lb_logs B) cfg = la_client (ph_logs ph) cfg" "la_read (lb_logs B) cfg = la_read (ph_logs ph) cfg"
    if "build_user_rest_config' (ke_sdk (ph_kube ph)) (ke_base (ph_kube ph)) u (ke_mode (ph_kube ph)) = Inr cfg" for cfg
    using agrees_vm [OF assms own_config_built' [OF that]] by simp_all
  then show ?thesis
    by (auto simp: fun_eq_iff tail_logs_def scope assms split: sum.split option.split)
qed

lemma scope_calls_of_handlers [scope]:
  assumes "agrees ph B u"
  shows "call_schema (with_libs B ph) inb u = call_schema ph inb u"
    "call_app_get (with_libs B ph) inb u = call_app_get ph inb u"
    "resolve_form_overrides (with_libs B ph) u = resolve_form_overrides ph u"
    "aggregate_apps (with_libs B ph) inb u = aggregate_apps ph inb u"
    "fanout_app_lists (with_libs B ph) inb u = fanout_app_lists ph inb u"
  using assms
  by (simp_all add: fun_eq_iff call_schema_def call_app_get_def resolve_form_overrides_def aggregate_apps_def
      fanout_app_lists_def scope Let_def)

lemma scope_probed [scope]:
  assumes "agrees ph B u"
  shows "capability_probed_actions (with_libs B ph) u = capability_probed_actions ph u"
proof -
  have "allowed (lb_vm B) cfg = allowed (ph_vm ph) cfg"
    if "build_user_rest_config (ke_sdk (ph_kube ph)) (ke_base (ph_kube ph)) u (ke_mode (ph_kube ph)) = Inr cfg" for cfg
    using agrees_vm [OF assms own_config_built [OF that]] by (simp add: fun_eq_iff allowed_def live_allowed_def)
  then have "filter_allowed (lb_vm B) cfg = filter_allowed (ph_vm ph) cfg"
    if "build_user_rest_config (ke_sdk (ph_kube ph)) (ke_base (ph_kube ph)) u (ke_mode (ph_kube ph)) = Inr cfg" for cfg
    using that by (simp add: fun_eq_iff filter_allowed_def)
  with assms show ?thesis
    by (auto simp: fun_eq_iff capability_probed_actions_def scope Let_def split: sum.split)
qed

lemma scope_data [scope]:
  assumes "agrees ph B u"
  shows "build_tenant_page_data (with_libs B ph) inb u = build_tenant_page_data ph inb u"
    "fetch_tenant_schema (with_libs B ph) inb u = fetch_tenant_schema ph inb u"
    "fetch_app_logs (with_libs B ph) inb u = fetch_app_logs ph inb u"
    "tenant_spec (with_libs B ph) inb u = tenant_spec ph inb u"
  using assms
  by (simp_all add: fun_eq_iff build_tenant_page_data_def fetch_tenant_schema_def fetch_app_logs_def tenant_spec_def
      scope Let_def)

lemma scope_forms [scope]:
  "parse_spec_yaml (with_libs B ph) = parse_spec_yaml ph"
  "marshal_spec_for_edit (with_libs B ph) = marshal_spec_for_edit ph"
  by (simp_all add: fun_eq_iff parse_spec_yaml_def marshal_spec_for_edit_def)

lemma scope_forms2 [scope]:
  "parse_yaml_spec_or_empty_error (with_libs B ph) = parse_yaml_spec_or_empty_error ph"
  by (simp add: fun_eq_iff parse_yaml_spec_or_empty_error_def scope)

lemma scope_details [scope]:
  assumes "agrees ph B u"
  shows "build_app_detail_data (with_libs B ph) inb u = build_app_detail_data ph inb u"
    "build_spec_from_request (with_libs B ph) inb u = build_spec_from_request ph inb u"
    "palette_index_of sched (with_libs B ph) inb u = palette_index_of sched ph inb u"
    "resolve_action (with_libs B ph) inb u = resolve_action ph inb u"
  using assms
  by (simp_all add: fun_eq_iff build_app_detail_data_def build_spec_from_request_def palette_index_of_def resolve_action_def
      scope Let_def)

lemma scope_pages:
  assumes "user_from_context (in_ctx inb) = Some u" "agrees ph B u"
  shows "dashboard_page (with_libs B ph) inb = dashboard_page ph inb"
    "overview_page (with_libs B ph) inb = overview_page ph inb"
    "profile_page (with_libs B ph) inb = profile_page ph inb"
    "not_found_page (with_libs B ph) inb = not_found_page ph inb"
    "marketplace_page (with_libs B ph) inb = marketplace_page ph inb"
    "marketplace_launch_page (with_libs B ph) inb = marketplace_launch_page ph inb"
    "tenant_page (with_libs B ph) inb = tenant_page ph inb"
    "tenants_page (with_libs B ph) inb = tenants_page ph inb"
    "app_detail_page (with_libs B ph) inb = app_detail_page ph inb"
  using assms
  by (simp_all add: fun_eq_iff dashboard_page_def overview_page_def profile_page_def not_found_page_def marketplace_page_def
      marketplace_launch_page_def tenant_page_def tenants_page_def app_detail_page_def require_user_def scope Let_def)

lemma scope_fragments:
  assumes "user_from_context (in_ctx inb) = Some u" "agrees ph B u"
  shows "marketplace_fragment (with_libs B ph) inb = marketplace_fragment ph inb"
    "app_table_fragment (with_libs B ph) inb = app_table_fragment ph inb"
    "schema_fields_fragment (with_libs B ph) inb = schema_fields_fragment ph inb"
    "app_edit_fragment (with_libs B ph) inb = app_edit_fragment ph inb"
    "tenant_edit_fragment (with_libs B ph) inb = tenant_edit_fragment ph inb"
    "secret_reveal_fragment (with_libs B ph) inb = secret_reveal_fragment ph inb"
    "app_form_yaml_fragment (with_libs B ph) inb = app_form_yaml_fragment ph inb"
    "app_form_yaml_to_form_fragment (with_libs B ph) inb = app_form_yaml_to_form_fragment ph inb"
  using assms
  by (simp_all add: fun_eq_iff marketplace_fragment_def app_table_fragment_def schema_fields_fragment_def
      app_edit_fragment_def tenant_edit_fragment_def secret_reveal_fragment_def app_form_yaml_fragment_def
      app_form_yaml_to_form_fragment_def require_user_def with_form_def scope Let_def)

lemma scope_mutations [scope]:
  assumes "user_from_context (in_ctx inb) = Some u" "agrees ph B u"
  shows "do_create_app (with_libs B ph) inb u = do_create_app ph inb u"
    "do_update_app (with_libs B ph) inb u = do_update_app ph inb u"
    "do_update_tenant (with_libs B ph) inb u = do_update_tenant ph inb u"
  using assms
  by (simp_all add: fun_eq_iff do_create_app_def do_update_app_def do_update_tenant_def scope scope_pages [OF assms] Let_def)

lemma scope_writing_pages:
  assumes "user_from_context (in_ctx inb) = Some u" "agrees ph B u"
  shows "create_app (with_libs B ph) inb = create_app ph inb"
    "update_app (with_libs B ph) inb = update_app ph inb"
    "delete_app (with_libs B ph) inb = delete_app ph inb"
    "create_tenant (with_libs B ph) inb = create_tenant ph inb"
    "update_tenant (with_libs B ph) inb = update_tenant ph inb"
    "delete_tenant (with_libs B ph) inb = delete_tenant ph inb"
  using assms
  by (simp_all add: fun_eq_iff create_app_def update_app_def delete_app_def create_tenant_def update_tenant_def
      delete_tenant_def require_user_def with_form_def scope scope_mutations [OF assms] scope_pages [OF assms] Let_def)

text \<open>The actions of the program's registry.\<close>

lemma scope_run_action:
  assumes "agrees ph B u" "vm_registry = Inr (ph_registry ph)" "lookup_action (ph_registry ph) kind a = Some act"
  shows "run_action (with_libs B ph) u act = run_action ph u act"
proof -
  have "act \<in> set (registered (ph_registry ph) kind)"
    using assms(3) by (auto simp: lookup_action_def find_Some_iff)
  then obtain verb where v: "aa_run act = invoke_vm_subresource verb"
    using vm_registry_members [OF assms(2), of kind] by (auto simp: vm_registrations_def vm_action_def split: if_splits)
  have "invoke_vm_subresource verb (lb_vm B) cfg = invoke_vm_subresource verb (ph_vm ph) cfg"
    if "build_user_rest_config (ke_sdk (ph_kube ph)) (ke_base (ph_kube ph)) u (ke_mode (ph_kube ph)) = Inr cfg" for cfg
    using agrees_vm [OF assms(1) own_config_built [OF that]] by (simp add: fun_eq_iff invoke_vm_subresource_def)
  with assms(1) v show ?thesis
    by (auto simp: fun_eq_iff run_action_def scope Let_def split: sum.split)
qed

lemma scope_invoke:
  assumes "user_from_context (in_ctx inb) = Some u" "agrees ph B u" "vm_registry = Inr (ph_registry ph)"
  shows "invoke_action (with_libs B ph) inb = invoke_action ph inb"
proof -
  let ?t = "path_value (in_req inb) ''tenant''" and ?n = "path_value (in_req inb) ''name''"
  let ?a = "path_value (in_req inb) ''action''"
  have "run_action (with_libs B ph) u act t n = run_action ph u act t n"
    if "resolve_action ph inb u ?t ?n ?a w s = (s1, Inr (act, kind))" for act kind w s s1 t n
  proof -
    from that have "lookup_action (ph_registry ph) kind ?a = Some act"
      by (auto simp: resolve_action_def Let_def split: prod.splits sum.splits option.splits)
    from scope_run_action [OF assms(2,3) this] show ?thesis by simp
  qed
  then show ?thesis
    using assms(1,2)
    by (auto simp: fun_eq_iff invoke_action_def require_user_def scope Let_def split: prod.split sum.split)
qed

lemma scope_api:
  assumes "user_from_context (in_ctx inb) = Some u" "agrees ph B u"
  shows "api_tenant_list (with_libs B ph) inb = api_tenant_list ph inb"
    "api_tenant_get (with_libs B ph) inb = api_tenant_get ph inb"
    "api_tenant_create (with_libs B ph) inb = api_tenant_create ph inb"
    "api_tenant_delete (with_libs B ph) inb = api_tenant_delete ph inb"
    "api_app_list (with_libs B ph) inb = api_app_list ph inb"
    "api_app_get (with_libs B ph) inb = api_app_get ph inb"
    "api_app_create (with_libs B ph) inb = api_app_create ph inb"
    "api_app_update (with_libs B ph) inb = api_app_update ph inb"
    "api_app_delete (with_libs B ph) inb = api_app_delete ph inb"
    "api_schema_list (with_libs B ph) inb = api_schema_list ph inb"
    "api_schema_get (with_libs B ph) inb = api_schema_get ph inb"
    "api_palette_index sched (with_libs B ph) inb = api_palette_index sched ph inb"
  using assms
  by (simp_all add: fun_eq_iff api_tenant_list_def api_tenant_get_def api_tenant_create_def api_tenant_delete_def
      api_app_list_def api_app_get_def api_app_create_def api_app_update_def api_app_delete_def api_schema_list_def
      api_schema_get_def api_palette_index_def api_user_def scope Let_def)

section \<open>The console\<close>

lemma scope_language: "language_op lib (with_libs B ph) inb = language_op lib ph inb"
  by (simp add: fun_eq_iff language_op_def)

lemma scope_console_op:
  assumes "console_op lib sched h = Some op" "user_from_context (in_ctx inb) = Some u" "agrees ph B u"
    "vm_registry = Inr (ph_registry ph)"
  shows "op (with_libs B ph) inb = op ph inb"
  using assms(1)
  by (cases h) (auto simp: scope_pages [OF assms(2,3)] scope_fragments [OF assms(2,3)] scope_writing_pages [OF assms(2,3)]
      scope_api [OF assms(2,3)] scope_invoke [OF assms(2,3,4)] scope_language)

definition console_with :: "'w libs \<Rightarrow> ('l, 'w) console \<Rightarrow> ('l, 'w) console" where
  "console_with B K = K\<lparr>co_pages := with_libs B (co_pages K)\<rparr>"

lemma scope_serve:
  fixes K :: "('l, 'w) console"
  assumes "\<And>c u. accepted K a c \<Longrightarrow> user_from_context c = Some u \<Longrightarrow> agrees (co_pages K) B u"
    and "vm_registry = Inr (ph_registry (co_pages K))"
  shows "serve (console_with B K) a s = serve K a s"
proof -
  let ?r = "route (co_env K) (co_config K) (ar_now a) (ar_uuid a) (ar_req a) (cs_rates s) :: ('l, 'w page_view) routed_out"
  have op: "op (with_libs B (co_pages K)) (inbound_of (co_lang K) a i b c) = op (co_pages K) (inbound_of (co_lang K) a i b c)"
    if "ro_call ?r = Some (CallHandler h b c)" "console_op (co_lang K) (co_sched K) h = Some op" for h b c op i
    using that(1) [unfolded route_sel]
  proof (cases rule: dispatch_called)
    case (guarded inner h' b' c')
    then have acc: "accepted K a c" by (auto simp: accepted_def)
    then obtain u where u: "user_from_context c = Some u" using accepted_user by blast
    show ?thesis
      by (rule scope_console_op [OF that(2) _ assms(1) [OF acc u] assms(2)]) (simp add: u)
  qed simp
  show ?thesis
  proof (cases "ro_call ?r")
    case (Some call)
    show ?thesis
    proof (cases call)
      case (CallHandler h b c)
      with Some op [of h b c] show ?thesis
        by (auto simp: serve_def console_with_def public_answer_def Let_def split: option.split prod.split)
    qed (simp add: serve_def console_with_def public_answer_def Let_def Some)
  qed (simp add: serve_def console_with_def Let_def)
qed

text \<open>The answers of a run.\<close>

fun serve_answers :: "('l, 'w) console \<Rightarrow> arrival list \<Rightarrow> ('l, 'w) console_state \<Rightarrow> 'w page_writer list" where
  "serve_answers K [] s = []"
| "serve_answers K (a # as) s = snd (serve K a s) # serve_answers K as (fst (serve K a s))"

lemma scope_serve_run:
  assumes "\<And>a c u. a \<in> set as \<Longrightarrow> accepted K a c \<Longrightarrow> user_from_context c = Some u \<Longrightarrow> agrees (co_pages K) B u"
    and "vm_registry = Inr (ph_registry (co_pages K))"
  shows "serve_run (console_with B K) as s = serve_run K as s \<and> serve_answers (console_with B K) as s = serve_answers K as s"
  using assms(1)
proof (induction as arbitrary: s)
  case (Cons a as)
  have "serve (console_with B K) a s = serve K a s"
    by (rule scope_serve [OF _ assms(2)]) (rule Cons.prems, simp_all)
  moreover have "serve_run (console_with B K) as (fst (serve K a s)) = serve_run K as (fst (serve K a s)) \<and>
      serve_answers (console_with B K) as (fst (serve K a s)) = serve_answers K as (fst (serve K a s))"
    by (rule Cons.IH) (rule Cons.prems, simp_all)
  ultimately show ?case by simp
qed simp

section \<open>What the configurations of a user hold\<close>

lemma own_config_holds:
  assumes "own_config ph u c"
  shows "(ke_mode (ph_kube ph) = AuthModeToken \<longrightarrow> rc_bearer_token c = uc_bearer_token u) \<and>
    (ke_mode (ph_kube ph) = AuthModePassthrough \<longrightarrow> rc_bearer_token c = uc_id_token u) \<and>
    (ke_mode (ph_kube ph) \<in> {AuthModeToken, AuthModePassthrough} \<longrightarrow>
       rc_bearer_token_file c = '''' \<and> rc_impersonate c = no_impersonation) \<and>
    (ke_mode (ph_kube ph) = AuthModeImpersonationLegacy \<longrightarrow>
       im_user (rc_impersonate c) = uc_username u \<and> im_groups (rc_impersonate c) = uc_groups u)"
  using assms by (auto simp: own_config_def build_user_rest_config'_def split: if_splits sum.splits)

text \<open>A cluster that refuses the token file of the process, with the sample handler's otherwise.\<close>

definition refusing_libs :: "nat libs" where
  "refusing_libs =
     \<lparr>lb_sdk = (ke_sdk page_env)\<lparr>sdk_dynamic := (\<lambda>cfg. if rc_bearer_token_file cfg = '''' then Inr page_kube
        else Inl (Opaque ''refused''))\<rparr>,
      lb_vm = sample_vm_api\<lparr>va_clientset := (\<lambda>cfg. if rc_bearer_token_file cfg = '''' then None else Some (Opaque ''refused''))\<rparr>,
      lb_logs = sample_logs\<rparr>"

lemma refusing_libs_agree: "agrees sample_handler refusing_libs u"
proof -
  have mode: "ke_mode (ph_kube sample_handler) = AuthModeToken"
    by (simp add: sample_handler_def page_env_def sample_app_env_def)
  have "rc_bearer_token_file c = ''''" if "own_config sample_handler u c" for c
    using own_config_holds [OF that] mode by simp
  then show ?thesis
    by (simp add: agrees_def refusing_libs_def sample_handler_def page_env_def sample_app_env_def sample_vm_api_def
        build_user_rest_config'_def)
qed

lemma sample_registry: "vm_registry = Inr (ph_registry sample_handler)"
proof -
  obtain reg where r: "vm_registry = Inr (reg :: nat registry)" using vm_registry_ok by blast
  show ?thesis unfolding sample_handler_def page_handler.simps r sum.case by (rule refl)
qed

declare option.case_cong_weak [cong] sum.case_cong_weak [cong] prod.case_cong_weak [cong]
  list.case_cong_weak [cong] if_weak_cong [cong]

end
