(* ===== verification/Spec2Isabelle.thy ===== *)
theory Spec2Isabelle
  imports Audit_Log Config_Load Auth_Handlers Tenants Watcher Rate_Limit Api_Router Event_Streams Log_Stream
    Log_Pump Watch_Loop App_Actions Tenant_Mutations Json_Api Locale_Selection Read_Safety Process_Entry Console
    Server_Lifecycle Http_Metrics Usage_Display User_Scope
begin

text \<open>
  A verification development for cozytempl, the web console for Cozystack clusters: a Go server
  that renders pages and a JSON API over the Kubernetes API of a cluster, acting with the
  credentials of the user who is signed in. The implementation is under \<open>src/\<close>; file names below
  are relative to it.

  \<^bold>\<open>The program and its parts.\<close> \<open>cmd/cozytempl/main.go\<close> loads the configuration, connects to the cluster,
  starts a watcher and serves a router. The router (\<open>internal/api\<close>) puts a chain of middlewares
  around three tables of routes: public ones, the pages and fragments of \<open>internal/handler\<close>, and the
  JSON API with the event streams and the pod logs. The guard in that chain (\<open>internal/auth\<close>)
  resolves a session or a bearer token to a user and attaches it to the request. Handlers call the
  services of \<open>internal/k8s\<close>, which build a client from the user's credential for every call, and
  record what they did in the audit log (\<open>internal/audit\<close>). State that outlives a request is
  small: the session cookies in the browser, the schema cache, the rate limits, the replay rings
  and subscriptions of the watcher, the metrics, and the audit log.

  \<^bold>\<open>How the code is represented.\<close> Records, enums and maps of the source are \<open>record\<close>s, \<open>datatype\<close>s and
  association lists whose order is the iteration order of the Go map, so a fact proved for every list
  holds for every order. Strings are byte strings. Errors are values of \<open>gerr\<close> with their wrap chain, a
  fallible function returns \<open>gerr + 'a\<close>. An operation on the cluster is a function of the client
  library's record (theory \<open>Kube_Sdk\<close>) and of the state of the cluster, which the library may change in
  any way on every call; so writers that act in between are included. A handler takes the
  request as the router hands it over, a response writer and the state (cluster, schema
  cache, audit log) and returns the last two; it is the whole handler with its early returns. Concurrency is explicit where
  the code has it: as lists of operations in any order (rate limits, cache, palette workers), as
  step relations between goroutines (watcher, log stream), or as events that overlap (metrics).

  \<^bold>\<open>The theories\<close>, in the order of their dependencies:

  \<^item> \<open>Go_Prelude\<close>, \<open>Go_Regexp\<close>, \<open>Go_Http\<close>, \<open>Go_Mux\<close>: the parts of Go's library the program uses (strings,
    numbers, maps, values of type \<open>any\<close>, errors, sorting; patterns; requests, responses and escaping; the
    multiplexer), with their lemmas and the hint collections \<open>go_defs\<close> and \<open>go_split\<close>.
  \<^item> \<open>Audit_Log\<close> (\<open>internal/audit\<close>): events, their attributes in the log, the two loggers as
    interpretations of the contract \<open>audit_sink\<close>.
  \<^item> \<open>Config_Load\<close> (\<open>internal/config\<close>): modes and loading; that a loaded configuration has
    what its mode needs.
  \<^item> \<open>Session_Auth\<close>, \<open>Auth_Handlers\<close> (\<open>internal/auth\<close>): sessions, token refresh, the guard, and the
    handlers that sign in and out; that the guard lets nothing through without a credential, that a
    refreshed token is fresh, that the OIDC callback needs its nonce, that logout locks out.
  \<^item> \<open>Kube_Sdk\<close>, \<open>Kube_Client\<close> (\<open>client.go\<close>, \<open>labels.go\<close>, \<open>watchproxy.go\<close> of \<open>internal/k8s\<close>): the client
    libraries as an argument, and the configuration a user acts with, which carries no one else's credential.
  \<^item> \<open>Spec_Merge\<close>, \<open>Form_Definitions\<close>, \<open>Schemas\<close>, \<open>Applications\<close>, \<open>Tenants\<close>, \<open>Kube_Reads\<close>,
    \<open>Usage_Display\<close> (the other files of \<open>internal/k8s\<close>): the merge of specs path by path, form overlays, the
    schema cache that behaves like no cache at all, every operation of the application and tenant services,
    the reads of events, logs, usage and cluster API, and the rounding of the figures shown.
  \<^item> \<open>Watcher\<close>, \<open>Watch_Loop\<close> (\<open>watcher.go\<close>): the replay ring, of which an abstract log is the specification
    (\<open>replay_log\<close>), subscriptions and publishing as steps, and the goroutine with its reconnects; that a
    client that reconnects misses nothing the ring still holds, and that the loop ends when cancelled.
  \<^item> \<open>Vm_Actions\<close> (\<open>internal/actions\<close>): the registry, the permission probes, the operations on virtual
    machines.
  \<^item> \<open>Page_Data\<close>, \<open>Page_Core\<close>, \<open>Page_Reads\<close>, \<open>Page_Forms\<close>, \<open>App_Mutations\<close>, \<open>App_Actions\<close>,
    \<open>Tenant_Mutations\<close> (\<open>internal/handler\<close>, \<open>internal/view\<close>): what pages show, the shared helpers, every page
    and fragment, the way from a form to a spec, and the handlers that write. Every handler is an
    interpretation of \<open>guarded_operation\<close>, \<open>page_operation\<close> or \<open>silent_operation\<close>: it refuses an anonymous request
    and records only its own actions. Others show which outcome each branch records.
  \<^item> \<open>Json_Api\<close> (\<open>internal/api\<close>): the JSON handlers, interpretations of \<open>api_operation\<close>, the strict
    decoding of bodies, and the palette index, which no order of its workers changes.
  \<^item> \<open>Locale_Selection\<close> (\<open>internal/i18n\<close>): message files, the locale of a request, the switch.
  \<^item> \<open>Rate_Limit\<close>, \<open>Api_Router\<close>, \<open>Http_Metrics\<close> (\<open>ratelimit.go\<close>, \<open>router.go\<close>, \<open>requestid.go\<close>, \<open>metrics.go\<close> of
    \<open>internal/api\<close>): buckets, the whole chain with its tables, the metrics; that every handler
    behind the guard runs only for a user, that correlation ids are safe to log, that the URLs the pages use are routed back.
  \<^item> \<open>Event_Streams\<close>, \<open>Log_Stream\<close>, \<open>Log_Pump\<close> (\<open>sse.go\<close>, \<open>sse_watch.go\<close>, \<open>ws_logs.go\<close>): the streams. Both event
    streams interpret \<open>frame_writer\<close>: the frames written are those of the events read, in order, up to
    the first failed write. The log stream is a function in \<open>Log_Stream\<close> and three interleaved goroutines
    in \<open>Log_Pump\<close>, which are shown to implement it and to leak nothing.
  \<^item> \<open>Read_Safety\<close>: the reading handlers only list and get; \<open>Console\<close>: the router with the handler
    each endpoint runs, and whole runs of requests; \<open>User_Scope\<close>: no handler tells apart libraries that
    agree on its user's credential; \<open>Process_Entry\<close>, \<open>Server_Lifecycle\<close> (\<open>main.go\<close>, \<open>tracing.go\<close>,
    \<open>assetver.go\<close>): the wiring from the environment to the router, and the end of the process. This theory adds
    the properties that need all of them.

  \<^bold>\<open>Bounds and termination.\<close> The functions are total: loops over data are structural, the few others
    (string replacement and trimming, decimal digits) have their measures. There is no fuel. The step
    relations of the goroutines may go on for ever, as the code may; their theorems say when they end
    and after how many steps. Numbers that can overflow in the code are bounded where they are parsed (\<open>parse_int64\<close>) or
    kept as words; times are integers, in seconds or nanoseconds as each theory says.

  \<^bold>\<open>What is an argument.\<close> The Kubernetes client libraries and the cluster behind them, cookie encryption, the
    OIDC and OAuth libraries, the token bucket of \<open>x/time/rate\<close>, the YAML and JSON parsers,
    \<open>ParseFloat\<close>, the parsing of quantities, the WebSocket library, the language matcher and message
    format, SHA-256, random numbers and the clock. Theorems that rely on something these libraries document
    state it as a hypothesis.

  \<^bold>\<open>Not modelled.\<close> The templates (generated code that renders the data given to it), the file server,
    the Prometheus exposition, the JSON encoding of responses and log lines, the text of operational
    log messages, the sockets below \<open>net/http\<close>, the codec of \<open>rest_serializer.go\<close> (which no call uses), and
    the test seams of \<open>internal/actions\<close> (\<open>RegisterForTest\<close>, \<open>SwapAllowedFnForTest\<close>), which panic outside a test.
\<close>

section \<open>Properties across components\<close>


lemma sample_delete_served:
  "hs_audit (cs_host (serve_run sample_console [sample_arrival ''DELETE'' ''/tenants/tenant-a/apps/db''] sample_console_state)) =
     [\<lparr>ev_time = None, ev_request_id = ''u-1'', ev_actor = ''token-user'', ev_groups = [], ev_action = ActionAppDelete,
       ev_resource = ''db'', ev_tenant = ''tenant-a'', ev_outcome = OutcomeSuccess, ev_auth_mode = AuthModeToken,
       ev_details = []\<rparr>]"
  by code_simp




text \<open>
  C4: reading is safe. Take any preorder on cluster states that every list and get of the
  users' clients respects (for a cluster that reads leave alone, equality). In every run in which
  no accepted request has one of the methods \<open>POST\<close>, \<open>PUT\<close> and \<open>DELETE\<close>, whatever the paths, the
  queries, the headers and the bodies, the cluster states before and after are so related: no
  page, fragment or API read creates, updates, deletes or runs an action.
\<close>

theorem safe_methods_do_not_write:
  fixes K :: "('l, 'w) console"
  assumes "\<And>usr. reader R (ph_kube (co_pages K)) usr"
    and "\<And>a. a \<in> set as \<Longrightarrow> r_method (ar_req a) \<notin> {''POST'', ''PUT'', ''DELETE''} \<or>
      ao_next (authenticate (co_env K) (co_config K) (ar_now a) (ar_req a)
        (entry_writer (ar_uuid a) (ar_req a) :: 'w page_writer)) = None"
  shows "R (hs_world (cs_host s)) (hs_world (cs_host (serve_run K as s)))"
proof (rule serve_run_reads)
  fix a assume "a \<in> set as"
  from assms(2) [OF this] show "r_method (ar_req a) \<notin> {''POST'', ''PUT'', ''DELETE''} \<or> (\<forall>c. \<not> accepted K a c)"
    by (simp add: accepted_def)
qed (rule assms(1))

theorem safe_methods_do_not_write_witness:
  "hs_world (cs_host (serve_run sample_console
     [sample_arrival ''GET'' ''/tenants/tenant-a/apps/db'', sample_arrival ''GET'' ''/api/tenants''] sample_console_state)) = 7"
proof -
  let ?as = "[sample_arrival ''GET'' ''/tenants/tenant-a/apps/db'', sample_arrival ''GET'' ''/api/tenants'']"
  have r: "\<And>usr. reader (=) (ph_kube (co_pages sample_console)) usr"
    by (simp add: sample_console_def sample_handler_def page_reader)
  have "hs_world (cs_host sample_console_state) = hs_world (cs_host (serve_run sample_console ?as sample_console_state))"
    by (rule safe_methods_do_not_write [OF r]) (auto simp: sample_arrival_def)
  then show ?thesis by (simp add: sample_console_state_def sample_state_def)
qed

text \<open>
  C5: a process that starts is guarded. Whatever the environment, if \<open>run\<close> gets as far as serving,
  authentication is off only where dev mode was asked for by name, the profiler listens only where
  its address was set, and every part works in the same mode. In any other mode there is a session
  store with a hardened cookie and a key from a secret that is neither empty nor the placeholder,
  an auth handler over the same store, an OIDC provider in exactly the modes that register its
  routes (so no registered handler meets a missing one), and no page or API handler runs without
  an identity that was granted a token of the rate limiter.
\<close>

theorem started_process_is_guarded:
  fixes lim :: "'l limiter_lib"
  assumes "run lib order rand env = Inr p" and "\<And>xs. mset (order xs) = mset xs"
    and "mode = rc_auth_mode (pr_router p)"
  shows "(mode = AuthModeDev \<longleftrightarrow> env ''COZYTEMPL_DEV_MODE'' = ''true'' \<or> env ''COZYTEMPL_AUTH_MODE'' = ''dev'') \<and>
    (pr_pprof p \<noteq> None \<longleftrightarrow> env ''COZYTEMPL_DEBUG_PPROF_ADDR'' \<noteq> '''') \<and> pr_handler_mode p = mode \<and>
    (mode \<noteq> AuthModeDev \<longrightarrow>
      (\<exists>st ah. pr_store p = Some st \<and> pr_auth p = Some ah \<and> ah_mode ah = mode \<and> ah_store ah = pl_cookies lib st \<and>
         ah_oidc ah = pr_oidc p \<and> rc_has_auth_handler (pr_router p) \<and>
         (pr_oidc p \<noteq> None \<longleftrightarrow> mode = AuthModePassthrough \<or> mode = AuthModeImpersonationLegacy) \<and>
         co_secure (st_options st) \<and> co_http_only (st_options st) \<and> co_same_site (st_options st) = SameSiteLax \<and>
         \<not> weak_secret (env ''SESSION_SECRET'') \<and>
         st_block_key st = pad_or_truncate (string_bytes (env ''SESSION_SECRET'')) 32 \<and>
         (\<forall>now uuid req rates h b c.
            ro_call (route (process_env lib p lim je st) (pr_router p) now uuid req rates :: ('l, 'q) routed_out) =
              Some (CallHandler h b c) \<longrightarrow>
            (\<exists>u. user_from_context c = Some u \<and> snd (rl_allow lim now (uc_username u) rates)))))"
  (is "?dev \<and> ?pprof \<and> ?handler \<and> (_ \<longrightarrow> (\<exists>st ah. ?wired st ah))")
proof -
  from assms(1) obtain cfg auth where cfg: "load order rand env = Inr cfg"
    and wired: "wire_auth lib cfg (pr_base p) = Inr (pr_store p, auth, pr_oidc p)" "pr_auth p = auth"
    and router: "pr_router p = router_config_for cfg (auth \<noteq> None)" "pr_handler_mode p = AuthMode cfg"
    and pprof: "pr_pprof p = start_debug_pprof_server (DebugPprofAddr cfg)"
    by (rule run_Inr)
  note loaded = load_mode [OF cfg assms(2)]
  have mode: "mode = AuthMode cfg" using assms(3) router(1) by (simp add: router_config_for_def)
  have ?pprof
    using pprof loaded by (simp add: start_debug_pprof_server_def)
  moreover have "\<exists>st ah. ?wired st ah" if "mode \<noteq> AuthModeDev"
  proof -
    let ?st = "new_session_store (pl_random_key lib) (env ''SESSION_SECRET'')"
    have secret: "SessionSecret cfg = env ''SESSION_SECRET''" "\<not> weak_secret (env ''SESSION_SECRET'')"
      using loaded that mode by auto
    from wire_auth_Inr [OF wired(1)] loaded that mode secret obtain ah where
      "pr_store p = Some ?st" "pr_auth p = Some ah" "ah_mode ah = mode" "ah_store ah = pl_cookies lib ?st"
      "ah_oidc ah = pr_oidc p" "rc_has_auth_handler (pr_router p)"
      "pr_oidc p \<noteq> None \<longleftrightarrow> mode = AuthModePassthrough \<or> mode = AuthModeImpersonationLegacy"
      using wired(2) router(1) by (fastforce simp: router_config_for_def)
    then have "?wired ?st ah"
      using secret(2) by (auto simp: new_session_store_def aes256KeySize_def intro: process_calls_guarded)
    then show ?thesis by blast
  qed
  ultimately show ?thesis using loaded router(2) unfolding mode by simp
qed

definition sample_lib :: process_lib where
  "sample_lib = \<lparr>pl_in_cluster = Inl (Opaque ''not in a cluster''), pl_default_config = Inr sample_base,
     pl_config_file = (\<lambda>_. Inr sample_base), pl_exporter = (\<lambda>_. None), pl_resource = (\<lambda>_. None), pl_watch = (\<lambda>_. None),
     pl_bundle = Inr SupportedLocales, pl_discover = (\<lambda>_ _ _ _ _. Inr sample_oidc),
     pl_random_key = (\<lambda>n. replicate n 1), pl_cookies = (\<lambda>_. sample_store sample_session)\<rparr>"

theorem started_process_is_guarded_witness:
  "\<exists>p st. run sample_lib rev (\<lambda>n. Inr (replicate n 7)) sample_env = Inr p \<and> pr_pprof p = None \<and>
     pr_store p = Some st \<and> pr_oidc p \<noteq> None"
proof -
  have "\<exists>p. run sample_lib rev (\<lambda>n. Inr (replicate n 7)) sample_env = Inr p \<and>
      rc_auth_mode (pr_router p) = AuthModePassthrough"
    unfolding run_def load_sample
    by (simp add: tracing_init_def sample_env_def load_kube_config_def load_watcher_kube_config_def
        watcherKubeconfigEnv_def wire_auth_def new_oidc_provider_def sample_lib_def router_config_for_def Let_def)
  then obtain p where p: "run sample_lib rev (\<lambda>n. Inr (replicate n 7)) sample_env = Inr p"
    "rc_auth_mode (pr_router p) = AuthModePassthrough" by blast
  have dev: "AuthModePassthrough \<noteq> AuthModeDev" by simp
  have "mset (rev xs) = mset xs" for xs :: "(string \<times> string) list" by simp
  note guarded = started_process_is_guarded [where lim = sample_bucket and je = "\<lambda>_. Inr 0", OF p(1) this p(2) [symmetric]]
  have "pr_pprof p = None" using conjunct1 [OF conjunct2 [OF guarded]] by (cases "pr_pprof p") (auto simp: sample_env_def)
  moreover from mp [OF conjunct2 [OF conjunct2 [OF conjunct2 [OF guarded]]] dev] obtain st where "pr_store p = Some st"
    "pr_oidc p \<noteq> None \<longleftrightarrow> AuthModePassthrough = AuthModePassthrough \<or> AuthModePassthrough = AuthModeImpersonationLegacy"
    by - (elim exE conjE, rule that, assumption+)
  ultimately show ?thesis using p(1) by blast
qed

end
